(* ===== verification/Go_Prelude.thy ===== *)
theory Go_Prelude
  imports Main "HOL-Library.Sublist"
begin

text \<open>
  Shared vocabulary of the development: the three shapes of a Go \<open>for\<close> loop over a slice that
  the sources use (stop at the first error, collect every error, call for effect), call traces,
  and the string operations of package \<open>strings\<close> on byte strings.

  A Go function that may fail and that acts on the world is a function
  \<open>'s \<Rightarrow> 'e option \<times> 's\<close>: \<open>None\<close> is the nil error.
\<close>

named_theorems loop_simps \<open>equations of the loop combinators\<close>
named_theorems string_simps \<open>equations of the byte-string operations\<close>

type_synonym ('s, 'e) action = "'s \<Rightarrow> 'e option \<times> 's"

section \<open>Loops over slices\<close>

text \<open>\<^verbatim>\<open>for _, x := range xs { if err := f(x); err != nil { return err } }; return nil\<close>\<close>

fun run_until :: "('x \<Rightarrow> ('s, 'e) action) \<Rightarrow> 'x list \<Rightarrow> ('s, 'e) action" where
  "run_until f [] s = (None, s)"
| "run_until f (x # xs) s =
     (case f x s of (Some e, s') \<Rightarrow> (Some e, s') | (None, s') \<Rightarrow> run_until f xs s')"

text \<open>\<^verbatim>\<open>for _, x := range xs { if err := f(x); err != nil { errs = append(errs, err) } }\<close>\<close>

fun run_collect :: "('x \<Rightarrow> ('s, 'e) action) \<Rightarrow> 'x list \<Rightarrow> 's \<Rightarrow> 'e list \<times> 's" where
  "run_collect f [] s = ([], s)"
| "run_collect f (x # xs) s =
     (case f x s of
        (r, s') \<Rightarrow> (case run_collect f xs s' of
          (es, s'') \<Rightarrow> (case r of None \<Rightarrow> es | Some e \<Rightarrow> e # es, s'')))"

declare run_until.simps [loop_simps] run_collect.simps [loop_simps]

lemma run_until_append [loop_simps]:
  "run_until f (xs @ ys) s =
     (case run_until f xs s of (Some e, s') \<Rightarrow> (Some e, s') | (None, s') \<Rightarrow> run_until f ys s')"
  by (induction xs arbitrary: s) (auto split: prod.splits option.splits)

lemma run_collect_append [loop_simps]:
  "run_collect f (xs @ ys) s =
     (case run_collect f xs s of (es, s') \<Rightarrow>
        (case run_collect f ys s' of (es', s'') \<Rightarrow> (es @ es', s'')))"
  by (induction xs arbitrary: s) (auto split: prod.splits option.splits)

text \<open>
  A loop that stops at an error has run a prefix without error, then the failing element; the
  rest of the slice is untouched.
\<close>

lemma run_until_Some_split:
  assumes "run_until f xs s = (Some e, s')"
  shows "\<exists>ys x zs t. xs = ys @ x # zs \<and> run_until f ys s = (None, t) \<and> f x t = (Some e, s')"
  using assms
proof (induction xs arbitrary: s)
  case Nil
  then show ?case by simp
next
  case (Cons x xs)
  obtain r t where f: "f x s = (r, t)" by (cases "f x s")
  show ?case
  proof (cases r)
    case None
    with Cons.prems f have "run_until f xs t = (Some e, s')" by simp
    from Cons.IH[OF this] obtain ys y zs u where
      "xs = ys @ y # zs" "run_until f ys t = (None, u)" "f y u = (Some e, s')" by blast
    with f None have "x # xs = (x # ys) @ y # zs" "run_until f (x # ys) s = (None, u)"
      "f y u = (Some e, s')" by simp_all
    then show ?thesis by blast
  next
    case (Some e')
    with Cons.prems f have "x # xs = [] @ x # xs" "run_until f [] s = (None, s)"
      "f x s = (Some e, s')" by simp_all
    then show ?thesis by blast
  qed
qed

lemma run_until_cong [fundef_cong]:
  "xs = ys \<Longrightarrow> s = t \<Longrightarrow> (\<And>x u. x \<in> set ys \<Longrightarrow> f x u = g x u) \<Longrightarrow>
     run_until f xs s = run_until g ys t"
proof (induction xs arbitrary: ys s t)
  case Nil
  then show ?case by simp
next
  case (Cons x xs)
  have "f x t = g x t" using Cons.prems by auto
  moreover have "run_until f xs u = run_until g xs u" for u
    using Cons.IH[of xs u u] Cons.prems by auto
  ultimately show ?case using Cons.prems by (auto split: prod.splits option.splits)
qed

text \<open>An invariant of the loop body is an invariant of the loop.\<close>

lemma run_until_invariant:
  assumes "\<And>x t r t'. x \<in> set xs \<Longrightarrow> P t \<Longrightarrow> f x t = (r, t') \<Longrightarrow> P t'"
    and "P s" and "run_until f xs s = (r, s')"
  shows "P s'"
  using assms
proof (induction xs arbitrary: s)
  case Nil
  then show ?case by simp
next
  case (Cons x xs)
  obtain q t where f: "f x s = (q, t)" by (cases "f x s")
  with Cons.prems(1)[of x s q t] Cons.prems(2) have "P t" by simp
  have IH: "run_until f xs t = (r, s') \<Longrightarrow> P s'"
    by (rule Cons.IH[OF _ \<open>P t\<close>]) (use Cons.prems(1) in auto)
  from f \<open>P t\<close> IH Cons.prems(3) show ?case by (cases q) auto
qed

lemma run_collect_invariant:
  assumes "\<And>x t r t'. x \<in> set xs \<Longrightarrow> P t \<Longrightarrow> f x t = (r, t') \<Longrightarrow> P t'"
    and "P s" and "run_collect f xs s = (es, s')"
  shows "P s'"
  using assms
proof (induction xs arbitrary: s es)
  case Nil
  then show ?case by simp
next
  case (Cons x xs)
  obtain q t where f: "f x s = (q, t)" by (cases "f x s")
  obtain es' where "run_collect f xs t = (es', s')"
    using Cons.prems(3) f by (auto split: prod.splits)
  moreover have "P t" using Cons.prems(1)[of x s q t] Cons.prems(2) f by simp
  ultimately show ?case by (intro Cons.IH[of t es']) (use Cons.prems(1) in auto)
qed

section \<open>Option lists\<close>

definition somes :: "'a option list \<Rightarrow> 'a list" where
  "somes = List.map_filter id"

lemma somes_simps [simp]:
  "somes [] = []" "somes (None # xs) = somes xs" "somes (Some x # xs) = x # somes xs"
  by (simp_all add: somes_def List.map_filter_def)

lemma somes_append [simp]: "somes (xs @ ys) = somes xs @ somes ys"
  by (induction xs) (auto split: option.splits simp: somes_def List.map_filter_def)

lemma somes_map_Some [simp]: "somes (map Some xs) = xs"
  by (induction xs) simp_all

lemma somes_eq_Nil [simp]: "somes xs = [] \<longleftrightarrow> (\<forall>x \<in> set xs. x = None)"
  by (induction xs) (auto simp: somes_def List.map_filter_def)

lemma set_somes [simp]: "set (somes xs) = {x. Some x \<in> set xs}"
  by (induction xs) (auto simp: somes_def List.map_filter_def)

section \<open>Maps as lists of entries\<close>

text \<open>A Go map as the list of its entries, whose keys are distinct: the order does not matter.\<close>

lemma map_of_rev_distinct: "distinct (map fst xs) \<Longrightarrow> map_of (rev xs) = map_of xs"
proof (induction xs)
  case (Cons x xs)
  then have "map_of xs (fst x) = None" by (simp add: map_of_eq_None_iff)
  with Cons show ?case by (cases x) (auto simp: map_add_def fun_eq_iff split: option.splits)
qed simp

section \<open>Byte strings\<close>

text \<open>
  A Go string is a byte sequence, an Isabelle \<open>char\<close> is a byte. The operations below are those
  of package \<open>strings\<close> the sources call, on bytes.
\<close>

definition HasPrefix :: "string \<Rightarrow> string \<Rightarrow> bool" where
  "HasPrefix s p \<longleftrightarrow> take (length p) s = p"

definition HasSuffix :: "string \<Rightarrow> string \<Rightarrow> bool" where
  "HasSuffix s p \<longleftrightarrow> length p \<le> length s \<and> drop (length s - length p) s = p"

definition TrimPrefix :: "string \<Rightarrow> string \<Rightarrow> string" where
  "TrimPrefix s p = (if HasPrefix s p then drop (length p) s else s)"

definition TrimSuffix :: "string \<Rightarrow> string \<Rightarrow> string" where
  "TrimSuffix s p = (if HasSuffix s p then take (length s - length p) s else s)"

lemma HasPrefix_prefix: "HasPrefix s p \<longleftrightarrow> prefix p s"
proof
  assume "HasPrefix s p"
  then have "s = p @ drop (length p) s"
    unfolding HasPrefix_def by (metis append_take_drop_id)
  then show "prefix p s" by (metis prefixI)
next
  assume "prefix p s"
  then show "HasPrefix s p" by (auto simp: HasPrefix_def prefix_def)
qed

lemma HasPrefix_append [simp, string_simps]: "HasPrefix (p @ s) p"
  by (simp add: HasPrefix_def)

lemma TrimPrefix_append [simp, string_simps]: "TrimPrefix (p @ s) p = s"
  by (simp add: TrimPrefix_def)

lemma HasSuffix_append [simp, string_simps]: "HasSuffix (s @ p) p"
  by (simp add: HasSuffix_def)

lemma TrimSuffix_append [simp, string_simps]: "TrimSuffix (s @ p) p = s"
  by (simp add: TrimSuffix_def)

text \<open>Decimal rendering, the \<open>%d\<close> verb.\<close>

definition digit :: "nat \<Rightarrow> char" where
  "digit n = char_of (48 + n)"

fun string_of_nat :: "nat \<Rightarrow> string" where
  "string_of_nat n = (if n < 10 then [digit n] else string_of_nat (n div 10) @ [digit (n mod 10)])"

declare string_of_nat.simps [simp del]

definition string_of_int :: "int \<Rightarrow> string" where
  "string_of_int i = (if i < 0 then CHR ''-'' # string_of_nat (nat (- i)) else string_of_nat (nat i))"

text \<open>
  \<open>strconv.Quote\<close>, the \<open>%q\<close> verb: exact on ASCII strings; bytes from 128 on pass through, which
  is what Go does for printable UTF-8 text.
\<close>

definition hex_digit :: "nat \<Rightarrow> char" where
  "hex_digit n = (if n < 10 then char_of (48 + n) else char_of (87 + n))"

definition quote_char :: "char \<Rightarrow> string" where
  "quote_char c =
     (let n = of_char c :: nat in
      if n = 34 then [CHR 0x5C, CHR 0x22]
      else if n = 92 then [CHR 0x5C, CHR 0x5C]
      else if n = 7 then [CHR 0x5C, CHR ''a''] else if n = 8 then [CHR 0x5C, CHR ''b'']
      else if n = 9 then [CHR 0x5C, CHR ''t''] else if n = 10 then [CHR 0x5C, CHR ''n'']
      else if n = 11 then [CHR 0x5C, CHR ''v''] else if n = 12 then [CHR 0x5C, CHR ''f'']
      else if n = 13 then [CHR 0x5C, CHR ''r'']
      else if n < 32 \<or> n = 127 then [CHR 0x5C, CHR ''x'', hex_digit (n div 16), hex_digit (n mod 16)]
      else [c])"

definition go_quote :: "string \<Rightarrow> string" where
  "go_quote s = [CHR 0x22] @ concat (map quote_char s) @ [CHR 0x22]"

end
