(* ===== verification/Go_Errors.thy ===== *)
theory Go_Errors
  imports Go_Prelude
begin

text \<open>
  Go error values as the sources build and inspect them (\<open>errors.New\<close>, \<open>errors.Join\<close>,
  \<open>fmt.Errorf\<close> with its \<open>%w\<close> verbs, \<open>errors.Is\<close>, \<open>errors.As\<close>), and the platform errors of
  \<open>src/pkg/platform/errors.go\<close> on top of them.

  A \<open>fmt.Errorf\<close> call is kept as its already parsed format: a list of pieces, a literal or one
  verb with its argument. Only a \<open>%w\<close> piece (\<open>PW\<close>) makes its error part of the chain that
  \<open>errors.Is\<close> and \<open>errors.As\<close> follow; \<open>%v\<close> (\<open>PV\<close>, and \<open>PVs\<close> for a slice of errors) only prints.
\<close>

type_synonym ErrorCode = int

datatype goerr =
    ErrNew string                  \<comment> \<open>a package-level \<open>errors.New\<close> value, identified by its text\<close>
  | ErrExt string "goerr list"     \<comment> \<open>an error made outside the sources: text, what \<open>Unwrap\<close> gives\<close>
  | PlatformErr platformError
  | ErrJoin "goerr list"
  | Errorf "piece list"
and platformError = PlatformError (pe_code: ErrorCode) (pe_msg: string) (pe_cause: "goerr option")
and piece =
    Lit string | PS string | PQ string | PD int
  | PW goerr | PV goerr | PVs "goerr list"

type_synonym 's fallible = "('s, goerr) action"

section \<open>Error codes\<close>

definition CodeInternal :: ErrorCode where "CodeInternal = 0"
definition CodeNotFound :: ErrorCode where "CodeNotFound = 1"
definition CodeAlreadyExists :: ErrorCode where "CodeAlreadyExists = 2"
definition CodeInvalidArgument :: ErrorCode where "CodeInvalidArgument = 3"
definition CodePermissionDenied :: ErrorCode where "CodePermissionDenied = 4"
definition CodeUnauthenticated :: ErrorCode where "CodeUnauthenticated = 5"
definition CodeUnavailable :: ErrorCode where "CodeUnavailable = 6"

lemmas code_defs = CodeInternal_def CodeNotFound_def CodeAlreadyExists_def CodeInvalidArgument_def
  CodePermissionDenied_def CodeUnauthenticated_def CodeUnavailable_def

definition ErrorCode_String :: "ErrorCode \<Rightarrow> string" where
  "ErrorCode_String c =
     (if c = CodeInternal then ''internal''
      else if c = CodeNotFound then ''not_found''
      else if c = CodeAlreadyExists then ''already_exists''
      else if c = CodeInvalidArgument then ''invalid_argument''
      else if c = CodePermissionDenied then ''permission_denied''
      else if c = CodeUnauthenticated then ''unauthenticated''
      else if c = CodeUnavailable then ''unavailable''
      else ''unknown('' @ string_of_int c @ '')'')"

section \<open>Rendering: the Error methods\<close>

fun join_with :: "string \<Rightarrow> string list \<Rightarrow> string" where
  "join_with sep [] = []"
| "join_with sep [x] = x"
| "join_with sep (x # y # xs) = x @ sep @ join_with sep (y # xs)"

fun error_string :: "goerr \<Rightarrow> string" and platformError_Error :: "platformError \<Rightarrow> string"
  and render :: "piece \<Rightarrow> string" where
  "error_string (ErrNew s) = s"
| "error_string (ErrExt s es) = s"
| "error_string (PlatformErr pe) = platformError_Error pe"
| "error_string (ErrJoin es) = join_with [CHR 0x0A] (map error_string es)"
| "error_string (Errorf ps) = concat (map render ps)"
| "platformError_Error (PlatformError c m k) =
     (case k of
        Some e \<Rightarrow> ''platform: '' @ ErrorCode_String c @ '': '' @ m @ '': '' @ error_string e
      | None \<Rightarrow> ''platform: '' @ ErrorCode_String c @ '': '' @ m)"
| "render (Lit s) = s"
| "render (PS s) = s"
| "render (PQ s) = go_quote s"
| "render (PD i) = string_of_int i"
| "render (PW e) = error_string e"
| "render (PV e) = error_string e"
| "render (PVs es) = ''['' @ join_with '' '' (map error_string es) @ '']''"

definition Sprintf :: "piece list \<Rightarrow> string" where
  "Sprintf ps = concat (map render ps)"

section \<open>The error tree: errors.Is and errors.As\<close>

text \<open>
  Both functions walk the tree an error's \<open>Unwrap\<close> methods span, an error before what it wraps,
  and the wrapped errors from left to right.
\<close>

definition wrapped :: "piece list \<Rightarrow> goerr list" where
  "wrapped ps = somes (map (\<lambda>p. case p of PW e \<Rightarrow> Some e | _ \<Rightarrow> None) ps)"

fun error_tree :: "goerr \<Rightarrow> goerr list" and platform_tree :: "platformError \<Rightarrow> goerr list"
  and piece_tree :: "piece \<Rightarrow> goerr list" where
  "error_tree (ErrNew s) = [ErrNew s]"
| "error_tree (ErrExt s es) = ErrExt s es # concat (map error_tree es)"
| "error_tree (PlatformErr pe) = PlatformErr pe # platform_tree pe"
| "error_tree (ErrJoin es) = ErrJoin es # concat (map error_tree es)"
| "error_tree (Errorf ps) = Errorf ps # concat (map piece_tree ps)"
| "platform_tree (PlatformError c m k) = (case k of None \<Rightarrow> [] | Some e \<Rightarrow> error_tree e)"
| "piece_tree (PW e) = error_tree e"
| "piece_tree _ = []"

definition errors_Is :: "goerr \<Rightarrow> goerr \<Rightarrow> bool" where
  "errors_Is err target \<longleftrightarrow> target \<in> set (error_tree err)"

definition errors_Join :: "goerr option list \<Rightarrow> goerr option" where
  "errors_Join errs = (case somes errs of [] \<Rightarrow> None | es \<Rightarrow> Some (ErrJoin es))"

fun as_platform :: "goerr list \<Rightarrow> platformError option" where
  "as_platform [] = None"
| "as_platform (PlatformErr pe # es) = Some pe"
| "as_platform (e # es) = as_platform es"

section \<open>Platform errors\<close>

definition NewError :: "ErrorCode \<Rightarrow> string \<Rightarrow> platformError" where
  "NewError c m = PlatformError c m None"

definition NewErrorf :: "ErrorCode \<Rightarrow> piece list \<Rightarrow> platformError" where
  "NewErrorf c ps = PlatformError c (Sprintf ps) None"

definition WrapError :: "ErrorCode \<Rightarrow> string \<Rightarrow> goerr option \<Rightarrow> platformError" where
  "WrapError c m k = PlatformError c m k"

definition IsError :: "goerr option \<Rightarrow> platformError option" where
  "IsError err = (case err of None \<Rightarrow> None | Some e \<Rightarrow> as_platform (error_tree e))"

definition GetCode :: "goerr option \<Rightarrow> ErrorCode" where
  "GetCode err = (case IsError err of Some pe \<Rightarrow> pe_code pe | None \<Rightarrow> CodeInternal)"

lemmas platform_error_defs = NewError_def NewErrorf_def WrapError_def IsError_def GetCode_def

section \<open>Facts about error trees\<close>

lemma as_platform_append:
  "as_platform (xs @ ys) = (case as_platform xs of None \<Rightarrow> as_platform ys | Some pe \<Rightarrow> Some pe)"
  by (induction xs rule: as_platform.induct) simp_all

lemma as_platform_mem: "as_platform es = Some pe \<Longrightarrow> PlatformErr pe \<in> set es"
  by (induction es rule: as_platform.induct) auto

lemma as_platform_None: "as_platform es = None \<longleftrightarrow> (\<forall>pe. PlatformErr pe \<notin> set es)"
  by (induction es rule: as_platform.induct) auto

lemma concat_piece_tree: "concat (map piece_tree ps) = concat (map error_tree (wrapped ps))"
  by (induction ps) (auto simp: wrapped_def split: piece.splits)

lemma error_tree_Errorf: "error_tree (Errorf ps) = Errorf ps # concat (map error_tree (wrapped ps))"
  by (simp add: concat_piece_tree)

lemma errors_Is_refl [simp, intro]: "errors_Is e e"
  by (cases e) (simp_all add: errors_Is_def)

lemma errors_Is_Errorf: "e \<in> set (wrapped ps) \<Longrightarrow> errors_Is e t \<Longrightarrow> errors_Is (Errorf ps) t"
  by (auto simp: errors_Is_def concat_piece_tree)

lemma errors_Is_PW: "PW e \<in> set ps \<Longrightarrow> errors_Is e t \<Longrightarrow> errors_Is (Errorf ps) t"
  by (auto simp: errors_Is_def intro!: bexI[of _ "PW e"])

lemma errors_Is_Join: "e \<in> set es \<Longrightarrow> errors_Is e t \<Longrightarrow> errors_Is (ErrJoin es) t"
  by (auto simp: errors_Is_def)

lemma errors_Is_cause: "errors_Is k t \<Longrightarrow> errors_Is (PlatformErr (PlatformError c m (Some k))) t"
  by (simp add: errors_Is_def)

lemmas errors_Is_intros = errors_Is_PW errors_Is_Join errors_Is_cause

lemma errors_Join_None [simp]: "errors_Join errs = None \<longleftrightarrow> (\<forall>r \<in> set errs. r = None)"
proof -
  have "errors_Join errs = None \<longleftrightarrow> somes errs = []"
    unfolding errors_Join_def by (cases "somes errs") (simp_all del: somes_eq_Nil)
  then show ?thesis by simp
qed

lemma errors_Join_Some_Is:
  assumes "Some e \<in> set errs" and "errors_Is e t"
  shows "\<exists>j. errors_Join errs = Some j \<and> errors_Is j t"
proof -
  have e: "e \<in> set (somes errs)" using assms by simp
  then obtain x xs where "somes errs = x # xs" by (cases "somes errs") auto
  then have "errors_Join errs = Some (ErrJoin (somes errs))" by (simp add: errors_Join_def)
  with e assms(2) show ?thesis by (auto intro: errors_Is_Join)
qed

lemma as_platform_skip:
  assumes "\<forall>x \<in> set pre. as_platform (error_tree x) = None"
  shows "as_platform (concat (map error_tree (pre @ e # post))) =
    (case as_platform (error_tree e) of
       None \<Rightarrow> as_platform (concat (map error_tree post)) | Some pe \<Rightarrow> Some pe)"
  using assms by (induction pre) (simp_all add: as_platform_append)

section \<open>Properties\<close>

text \<open>The code of a platform error survives wrapping: if the \<open>%w\<close> arguments of a
  \<open>fmt.Errorf\<close> are \<open>pre @ e # post\<close>, no error of \<open>pre\<close> carries a platform error and \<open>e\<close> does, then
  \<open>IsError\<close> finds in the wrapped error exactly the platform error it finds in \<open>e\<close>, and \<open>GetCode\<close>
  returns that error's code. The same error joined by \<open>errors.Join\<close> gives the same answer.\<close>

lemma GetCode_survives_wrapping:
  assumes "wrapped ps = pre @ e # post"
    and "\<forall>x \<in> set pre. IsError (Some x) = None"
    and "IsError (Some e) = Some pe"
  shows "IsError (Some (Errorf ps)) = Some pe \<and> GetCode (Some (Errorf ps)) = pe_code pe
    \<and> GetCode (errors_Join (map Some (pre @ e # post))) = pe_code pe"
proof -
  have pre: "\<forall>x \<in> set pre. as_platform (error_tree x) = None"
    and e: "as_platform (error_tree e) = Some pe"
    using assms(2,3) by (simp_all add: IsError_def)
  have tree: "as_platform (concat (map error_tree (pre @ e # post))) = Some pe"
    by (subst as_platform_skip[OF pre]) (simp add: e)
  have "IsError (Some (Errorf ps)) = Some pe"
    using tree by (simp add: IsError_def concat_piece_tree assms(1))
  moreover have "errors_Join (map Some (pre @ e # post)) = Some (ErrJoin (pre @ e # post))"
    unfolding errors_Join_def somes_map_Some by (cases pre) simp_all
  then have "IsError (errors_Join (map Some (pre @ e # post))) = Some pe"
    using tree by (simp add: IsError_def)
  ultimately show ?thesis by (simp add: GetCode_def)
qed

end
