(* ===== verification/Lifecycle.thy ===== *)
theory Lifecycle
  imports Go_Errors "HOL-Library.Multiset"
begin

text \<open>
  Contexts, and the contract of \<open>platform.Component\<close> (\<open>src/pkg/platform/component.go\<close>).

  A context is kept as the expression that built it, so that a theorem can say which context a
  callback receives and what can cancel it. The locale \<open>lifecycle\<close> states what the components
  of the platform promise about \<open>Start\<close> and \<open>Stop\<close>; each component that has this contract
  interprets it on its own model. The locale \<open>audited\<close> adds what becomes of the connections: it is about a
  component run on libraries that record every connection opened and closed.
\<close>

section \<open>Contexts\<close>

datatype ctx =
    Background
  | CallerCtx nat
  | NotifyContext ctx        \<comment> \<open>\<open>signal.NotifyContext(c, SIGINT, SIGTERM)\<close>\<close>
  | WithCancel ctx
  | WithoutCancel ctx
  | WithTimeout ctx int      \<comment> \<open>timeout in nanoseconds\<close>

datatype cancel_source = Caller nat | Signal | CancelFunc | Deadline int

text \<open>What can end a context; \<open>WithoutCancel\<close> cuts the parent off.\<close>

fun cancel_sources :: "ctx \<Rightarrow> cancel_source set" where
  "cancel_sources Background = {}"
| "cancel_sources (CallerCtx n) = {Caller n}"
| "cancel_sources (NotifyContext c) = insert Signal (cancel_sources c)"
| "cancel_sources (WithCancel c) = insert CancelFunc (cancel_sources c)"
| "cancel_sources (WithoutCancel c) = {}"
| "cancel_sources (WithTimeout c d) = insert (Deadline d) (cancel_sources c)"

definition second :: int where "second = 1000000000"
definition millisecond :: int where "millisecond = 1000000"

section \<open>The component contract\<close>

locale lifecycle =
  fixes start :: "'s fallible"
    and stop :: "'s fallible"
    and running :: "'s \<Rightarrow> bool"
  assumes start_running: "running s \<Longrightarrow> \<exists>e. start s = (Some e, s)"
    and start_ok: "start s = (None, t) \<Longrightarrow> running t"
    and start_failed: "start s = (Some e, t) \<Longrightarrow> running t = running s"
    and stop_idle: "\<not> running s \<Longrightarrow> stop s = (None, s)"
    and stop_stops: "stop s = (r, t) \<Longrightarrow> \<not> running t"
begin

text \<open>A started component refuses a second \<open>Start\<close> and is left as it was.\<close>

lemma start_twice: "start s = (None, t) \<Longrightarrow> \<exists>e. start t = (Some e, t)"
  by (blast intro: start_running start_ok)

text \<open>\<open>Stop\<close> may be called any number of times: after the first call it is a no-op.\<close>

lemma stop_twice: "stop s = (r, t) \<Longrightarrow> stop t = (None, t)"
  by (rule stop_idle, rule stop_stops)

lemma start_was_idle: "start s = (None, t) \<Longrightarrow> \<not> running s"
  using start_running by fastforce

end

section \<open>Auditing connections\<close>

text \<open>
  What happens to the handles of a library (connections, pools, writers): one is acquired, released, or abandoned,
  which is a release that was requested and not waited for. \<open>audit\<close> replays such a record: the handles held after
  it, or \<open>None\<close> if one is released that is not held, be it twice or without having been acquired.
\<close>

datatype 'h res_event = Acquired 'h | Released 'h | Abandoned 'h

fun audit_from :: "'h multiset \<Rightarrow> 'h res_event list \<Rightarrow> 'h multiset option" where
  "audit_from hs [] = Some hs"
| "audit_from hs (Acquired h # es) = audit_from (add_mset h hs) es"
| "audit_from hs (Released h # es) = (if h \<in># hs then audit_from (hs - {#h#}) es else None)"
| "audit_from hs (Abandoned h # es) = (if h \<in># hs then audit_from (hs - {#h#}) es else None)"

definition audit :: "'h res_event list \<Rightarrow> 'h multiset option" where
  "audit es = audit_from {#} es"

definition abandoned :: "'h res_event list \<Rightarrow> 'h set" where
  "abandoned es = {h. Abandoned h \<in> set es}"

lemma audit_from_append: "audit_from hs (es @ fs) = Option.bind (audit_from hs es) (\<lambda>hs'. audit_from hs' fs)"
  by (induction hs es rule: audit_from.induct) auto

lemma audit_append: "audit (es @ fs) = Option.bind (audit es) (\<lambda>hs. audit_from hs fs)"
  by (simp add: audit_def audit_from_append)

lemma abandoned_simps [simp]:
  "abandoned [] = {}" "abandoned (es @ fs) = abandoned es \<union> abandoned fs"
  "abandoned (Acquired h # es) = abandoned es" "abandoned (Released h # es) = abandoned es"
  "abandoned (Abandoned h # es) = insert h (abandoned es)"
  by (auto simp: abandoned_def)

text \<open>A sequence of \<open>Start\<close> and \<open>Stop\<close> calls on one component.\<close>

datatype lc_call = CallStart ctx | CallStop ctx

definition lc_step :: "(ctx \<Rightarrow> 's fallible) \<Rightarrow> (ctx \<Rightarrow> 's fallible) \<Rightarrow> lc_call \<Rightarrow> 's \<Rightarrow> 's" where
  "lc_step start stop c s = (case c of CallStart ctx \<Rightarrow> snd (start ctx s) | CallStop ctx \<Rightarrow> snd (stop ctx s))"

text \<open>
  No connection is leaked and none is closed twice. \<open>held s\<close> are the handles the component has in its fields, \<open>H\<close>
  what others have. Over any sequence of calls, failed ones included, the audit of the record gives just the
  handles that are in the fields; a failed \<open>Start\<close> leaves none behind; a second \<open>Start\<close> is refused and changes
  nothing; after \<open>Stop\<close> nothing is held, and a second \<open>Stop\<close> is a no-op; and neither a \<open>Start\<close> nor a \<open>Stop\<close> that
  returns nil has abandoned a handle.
\<close>

definition well_managed :: "(ctx \<Rightarrow> 's fallible) \<Rightarrow> (ctx \<Rightarrow> 's fallible) \<Rightarrow> ('s \<Rightarrow> 'h res_event list) \<Rightarrow> ('s \<Rightarrow> 'h multiset) \<Rightarrow> bool" where
  "well_managed start stop log held \<longleftrightarrow>
     (\<forall>cs s H. audit (log s) = Some (H + held s) \<longrightarrow>
        (let t = fold (lc_step start stop) cs s in audit (log t) = Some (H + held t))) \<and>
     (\<forall>ctx s e t. start ctx s = (Some e, t) \<longrightarrow> held t = held s) \<and>
     (\<forall>ctx s t ctx'. start ctx s = (None, t) \<longrightarrow> (\<exists>e. start ctx' t = (Some e, t))) \<and>
     (\<forall>ctx s r t ctx'. stop ctx s = (r, t) \<longrightarrow> held t = {#} \<and> stop ctx' t = (None, t)) \<and>
     (\<forall>ctx s r t. start ctx s = (r, t) \<or> stop ctx s = (r, t) \<and> r = None \<longrightarrow> abandoned (log t) = abandoned (log s))"

locale audited =
  fixes start :: "ctx \<Rightarrow> 's fallible"
    and stop :: "ctx \<Rightarrow> 's fallible"
    and running :: "'s \<Rightarrow> bool"
    and log :: "'s \<Rightarrow> 'h res_event list"
    and held :: "'s \<Rightarrow> 'h multiset"
  assumes component: "lifecycle (start ctx) (stop ctx') running"
    and start_audit: "audit (log s) = Some (H + held s) \<Longrightarrow> start ctx s = (r, t) \<Longrightarrow> audit (log t) = Some (H + held t)"
    and stop_audit: "audit (log s) = Some (H + held s) \<Longrightarrow> stop ctx s = (r, t) \<Longrightarrow> audit (log t) = Some (H + held t)"
    and start_failed_held: "start ctx s = (Some e, t) \<Longrightarrow> held t = held s"
    and held_idle: "\<not> running s \<Longrightarrow> held s = {#}"
    and start_abandons: "start ctx s = (r, t) \<Longrightarrow> abandoned (log t) = abandoned (log s)"
    and stop_abandons: "stop ctx s = (None, t) \<Longrightarrow> abandoned (log t) = abandoned (log s)"
begin

lemma started: "start ctx s = (None, t) \<Longrightarrow> running t"
  by (rule lifecycle.start_ok[OF component])

lemma failed: "start ctx s = (Some e, t) \<Longrightarrow> running t = running s"
  by (rule lifecycle.start_failed[OF component])

lemma step_audit: "audit (log s) = Some (H + held s) \<Longrightarrow> audit (log (lc_step start stop c s)) = Some (H + held (lc_step start stop c s))"
  by (cases c) (auto simp: lc_step_def intro: start_audit stop_audit surjective_pairing)

lemma run_audit:
  "audit (log s) = Some (H + held s) \<Longrightarrow>
     audit (log (fold (lc_step start stop) cs s)) = Some (H + held (fold (lc_step start stop) cs s))"
  by (induction cs arbitrary: s) (simp_all add: step_audit)

lemma stop_releases: "stop ctx s = (r, t) \<Longrightarrow> held t = {#}"
  using lifecycle.stop_stops[OF component] held_idle by blast

lemma component_well_managed: "well_managed start stop log held"
proof -
  note lc = component
  have "\<exists>e. start ctx' t = (Some e, t)" if "start ctx s = (None, t)" for ctx s t ctx'
    by (rule lifecycle.start_running[OF lc lifecycle.start_ok[OF lc that]])
  moreover have "stop ctx' t = (None, t)" if "stop ctx s = (r, t)" for ctx s r t ctx'
    by (rule lifecycle.stop_idle[OF lc lifecycle.stop_stops[OF lc that]])
  ultimately show ?thesis
    unfolding well_managed_def Let_def
    by (intro conjI allI impI) (auto simp: run_audit start_failed_held stop_releases dest: start_abandons stop_abandons)
qed

end

end
