(* ===== verification/App.thy ===== *)
theory App
  imports Lifecycle
begin

text \<open>
  The application orchestrator, \<open>src/pkg/platform/app.go\<close> with the interfaces of
  \<open>component.go\<close>, \<open>hooks.go\<close> and \<open>plugin.go\<close>.

  Components, plugins and hooks are interface values, so the model refers to them by number and
  takes what they do from an environment record: each call acts on the rest of the program's
  state and on the \<open>App\<close> itself (a plugin registers components and hooks while it is
  initialised; any callback may do so). The world also carries the trace of the calls \<open>Run\<close>
  makes with their results. Logging is left out: no branch depends on it. A callback that
  panics ends the process and is not a step of the model.
\<close>

type_synonym cref = nat
type_synonym pref = nat
type_synonym href = nat

datatype logger_ref = NopLogger | Logger nat

record namedComponent =
  nc_name :: string
  nc_component :: cref

record app =
  components :: "namedComponent list"
  plugins :: "pref list"
  beforeStart :: "href list"
  afterStart :: "href list"
  beforeStop :: "href list"
  afterStop :: "href list"
  logger :: logger_ref
  shutdownTimeout :: int

section \<open>Construction and registration\<close>

datatype app_option = WithLogger logger_ref | WithShutdownTimeout int

fun apply_app_option :: "app_option \<Rightarrow> app \<Rightarrow> app" where
  "apply_app_option (WithLogger l) a = a\<lparr>logger := l\<rparr>"
| "apply_app_option (WithShutdownTimeout d) a = a\<lparr>shutdownTimeout := d\<rparr>"

definition New :: "app_option list \<Rightarrow> app" where
  "New opts = fold apply_app_option opts
     \<lparr>components = [], plugins = [], beforeStart = [], afterStart = [], beforeStop = [],
      afterStop = [], logger = NopLogger, shutdownTimeout = 30 * second\<rparr>"

text \<open>\<open>named c\<close> is \<open>Some\<close> of the declared name when the component implements \<open>Named\<close>.\<close>

definition Register :: "(cref \<Rightarrow> string option) \<Rightarrow> string \<Rightarrow> cref \<Rightarrow> app fallible" where
  "Register named nm c a =
     (let resolvedName = (case named c of Some n \<Rightarrow> n | None \<Rightarrow> nm) in
      if list_ex (\<lambda>nc. nc_name nc = resolvedName) (components a)
      then (Some (Errorf [Lit ''platform: register: component '', PQ resolvedName,
                          Lit '' already exists'']), a)
      else (None, a\<lparr>components := components a @
              [\<lparr>nc_name = resolvedName, nc_component = c\<rparr>]\<rparr>))"

definition Use :: "pref list \<Rightarrow> app \<Rightarrow> app" where
  "Use ps a = a\<lparr>plugins := plugins a @ ps\<rparr>"

definition OnBeforeStart :: "href \<Rightarrow> app \<Rightarrow> app" where
  "OnBeforeStart h a = a\<lparr>beforeStart := beforeStart a @ [h]\<rparr>"

definition OnAfterStart :: "href \<Rightarrow> app \<Rightarrow> app" where
  "OnAfterStart h a = a\<lparr>afterStart := afterStart a @ [h]\<rparr>"

definition OnBeforeStop :: "href \<Rightarrow> app \<Rightarrow> app" where
  "OnBeforeStop h a = a\<lparr>beforeStop := beforeStop a @ [h]\<rparr>"

definition OnAfterStop :: "href \<Rightarrow> app \<Rightarrow> app" where
  "OnAfterStop h a = a\<lparr>afterStop := afterStop a @ [h]\<rparr>"

text \<open>\<open>App.Logger\<close>.\<close>

definition App_Logger :: "app \<Rightarrow> logger_ref" where
  "App_Logger a = logger a"

fun find_component :: "string \<Rightarrow> namedComponent list \<Rightarrow> cref option" where
  "find_component nm [] = None"
| "find_component nm (nc # ncs) =
     (if nc_name nc = nm then Some (nc_component nc) else find_component nm ncs)"

definition Component :: "string \<Rightarrow> app \<Rightarrow> cref option" where
  "Component nm a = find_component nm (components a)"

definition HealthCheckers :: "(cref \<Rightarrow> bool) \<Rightarrow> app \<Rightarrow> (string \<rightharpoonup> cref)" where
  "HealthCheckers is_hc a =
     fold (\<lambda>nc m. if is_hc (nc_component nc) then m(nc_name nc \<mapsto> nc_component nc) else m)
       (components a) Map.empty"

lemmas app_op_defs = Register_def Use_def OnBeforeStart_def OnAfterStart_def OnBeforeStop_def
  OnAfterStop_def

text \<open>What a plugin may do to the \<open>App\<close> through its \<open>PluginContext\<close>.\<close>

inductive plugin_step :: "(cref \<Rightarrow> string option) \<Rightarrow> app \<Rightarrow> app \<Rightarrow> bool" for named where
  register: "plugin_step named a (snd (Register named nm c a))"
| on_before_start: "plugin_step named a (OnBeforeStart h a)"
| on_after_start: "plugin_step named a (OnAfterStart h a)"
| on_before_stop: "plugin_step named a (OnBeforeStop h a)"
| on_after_stop: "plugin_step named a (OnAfterStop h a)"

section \<open>Run\<close>

datatype event =
    PluginInit pref "goerr option"
  | BeforeStartCall href ctx string "goerr option"
  | StartCall namedComponent ctx "goerr option"
  | AfterStartCall href ctx
  | Waited ctx
  | BeforeStopCall href ctx
  | StopCall namedComponent ctx "goerr option"
  | AfterStopCall href ctx "goerr option"
  | PluginClose pref "goerr option"

record 's env =
  comp_start :: "cref \<Rightarrow> ctx \<Rightarrow> ('s \<times> app) fallible"
  comp_stop :: "cref \<Rightarrow> ctx \<Rightarrow> ('s \<times> app) fallible"
  plugin_name :: "pref \<Rightarrow> string"
  plugin_init :: "pref \<Rightarrow> ('s \<times> app) fallible"
  plugin_close :: "pref \<Rightarrow> ('s \<times> app) fallible"
  hook_before_start :: "href \<Rightarrow> ctx \<Rightarrow> string \<Rightarrow> ('s \<times> app) fallible"
  hook_after_start :: "href \<Rightarrow> ctx \<Rightarrow> 's \<times> app \<Rightarrow> 's \<times> app"
  hook_before_stop :: "href \<Rightarrow> ctx \<Rightarrow> 's \<times> app \<Rightarrow> 's \<times> app"
  hook_after_stop :: "href \<Rightarrow> ctx \<Rightarrow> goerr option \<Rightarrow> 's \<times> app \<Rightarrow> 's \<times> app"
  await_done :: "ctx \<Rightarrow> 's \<times> app \<Rightarrow> ('s \<times> app) option"  \<comment> \<open>\<open>None\<close>: never cancelled\<close>

record 's world =
  w_state :: "'s \<times> app"
  w_trace :: "event list"

abbreviation w_app :: "'s world \<Rightarrow> app" where
  "w_app w \<equiv> snd (w_state w)"

text \<open>A call of a fallible, respectively infallible, callback.\<close>

definition call :: "('s \<times> app) fallible \<Rightarrow> (goerr option \<Rightarrow> event) \<Rightarrow> 's world fallible" where
  "call f ev w =
     (case f (w_state w) of (r, st) \<Rightarrow> (r, \<lparr>w_state = st, w_trace = w_trace w @ [ev r]\<rparr>))"

definition call0 :: "('s \<times> app \<Rightarrow> 's \<times> app) \<Rightarrow> event \<Rightarrow> 's world \<Rightarrow> 's world" where
  "call0 f ev w = \<lparr>w_state = f (w_state w), w_trace = w_trace w @ [ev]\<rparr>"

definition init_plugin :: "'s env \<Rightarrow> pref \<Rightarrow> 's world fallible" where
  "init_plugin env p w = apfst (map_option (\<lambda>err.
       Errorf [Lit ''platform: plugin init '', PQ (plugin_name env p), Lit '': '', PW err]))
     (call (plugin_init env p) (PluginInit p) w)"

definition stop_component :: "'s env \<Rightarrow> ctx \<Rightarrow> namedComponent \<Rightarrow> 's world fallible" where
  "stop_component env ctx nc w = apfst (map_option (\<lambda>err.
       Errorf [Lit ''platform: stop '', PQ (nc_name nc), Lit '': '', PW err]))
     (call (comp_stop env (nc_component nc) ctx) (StopCall nc ctx) w)"

definition close_plugin :: "'s env \<Rightarrow> pref \<Rightarrow> 's world fallible" where
  "close_plugin env p w = apfst (map_option (\<lambda>err.
       Errorf [Lit ''platform: plugin close '', PQ (plugin_name env p), Lit '': '', PW err]))
     (call (plugin_close env p) (PluginClose p) w)"

definition before_start_hook :: "'s env \<Rightarrow> ctx \<Rightarrow> string \<Rightarrow> href \<Rightarrow> 's world fallible" where
  "before_start_hook env ctx nm h = call (hook_before_start env h ctx nm) (BeforeStartCall h ctx nm)"

definition stopStarted :: "'s env \<Rightarrow> ctx \<Rightarrow> int \<Rightarrow> namedComponent list \<Rightarrow> 's world fallible" where
  "stopStarted env ctx timeout started w =
     (let shutCtx = WithTimeout (WithoutCancel ctx) timeout in
      case run_collect (stop_component env shutCtx) (rev started) w of
        (errs, w') \<Rightarrow> (errors_Join (map Some errs), w'))"

fun start_components :: "'s env \<Rightarrow> ctx \<Rightarrow> int \<Rightarrow> href list \<Rightarrow> namedComponent list \<Rightarrow>
    namedComponent list \<Rightarrow> 's world \<Rightarrow> goerr option \<times> namedComponent list \<times> 's world" where
  "start_components env ctx timeout hooks [] started w = (None, started, w)"
| "start_components env ctx timeout hooks (nc # ncs) started w =
     (case run_until (before_start_hook env ctx (nc_name nc)) hooks w of
        (Some err, w1) \<Rightarrow>
          (case stopStarted env ctx timeout started w1 of
             (stopErr, w2) \<Rightarrow>
               (errors_Join [Some (Errorf [Lit ''platform: before start hook '', PQ (nc_name nc),
                                           Lit '': '', PW err]), stopErr], started, w2))
      | (None, w1) \<Rightarrow>
          (case call (comp_start env (nc_component nc) ctx) (StartCall nc ctx) w1 of
             (Some err, w2) \<Rightarrow>
               (case stopStarted env ctx timeout started w2 of
                  (stopErr, w3) \<Rightarrow>
                    (errors_Join [Some (Errorf [Lit ''platform: start '', PQ (nc_name nc),
                                                Lit '': '', PW err]), stopErr], started, w3))
           | (None, w2) \<Rightarrow>
               start_components env ctx timeout hooks ncs (started @ [nc]) w2))"

text \<open>
  From the wait for cancellation on: the second half of \<open>Run\<close>. \<open>None\<close> when the context is
  never cancelled, so that \<open>Run\<close> does not return.
\<close>

definition shutdown :: "'s env \<Rightarrow> ctx \<Rightarrow> int \<Rightarrow> pref list \<Rightarrow> href list \<Rightarrow> href list \<Rightarrow>
    namedComponent list \<Rightarrow> 's world \<Rightarrow> (goerr option \<times> 's world) option" where
  "shutdown env ctx timeout plugs bstop astop started w =
     (case await_done env ctx (w_state w) of
        None \<Rightarrow> None
      | Some st \<Rightarrow>
          (let w1 = \<lparr>w_state = st, w_trace = w_trace w @ [Waited ctx]\<rparr>;
               shutCtx = WithTimeout (WithoutCancel ctx) timeout;
               w2 = fold (\<lambda>h. call0 (hook_before_stop env h shutCtx) (BeforeStopCall h shutCtx)) bstop w1
           in case run_collect (stop_component env shutCtx) (rev started) w2 of
                (stopErrs, w3) \<Rightarrow>
                  (let stopErr = errors_Join (map Some stopErrs);
                       w4 = fold (\<lambda>h. call0 (hook_after_stop env h shutCtx stopErr)
                                   (AfterStopCall h shutCtx stopErr)) astop w3
                   in case run_collect (close_plugin env) (rev plugs) w4 of
                        (closeErrs, w5) \<Rightarrow>
                          Some (errors_Join [stopErr, errors_Join (map Some closeErrs)], w5))))"

definition Run :: "'s env \<Rightarrow> ctx \<Rightarrow> 's world \<Rightarrow> (goerr option \<times> 's world) option" where
  "Run env ctx0 w =
     (let ctx = NotifyContext ctx0;
          plugs = plugins (w_app w);
          timeout = shutdownTimeout (w_app w)
      in case run_until (init_plugin env) plugs w of
           (Some err, w1) \<Rightarrow> Some (Some err, w1)
         | (None, w1) \<Rightarrow>
             (let a = w_app w1 in
              case start_components env ctx timeout (beforeStart a) (components a) [] w1 of
                (Some err, started, w2) \<Rightarrow> Some (Some err, w2)
              | (None, started, w2) \<Rightarrow>
                  (let w3 = fold (\<lambda>h. call0 (hook_after_start env h ctx) (AfterStartCall h ctx))
                              (afterStart a) w2
                   in shutdown env ctx timeout plugs (beforeStop a) (afterStop a) started w3)))"


section \<open>The registry invariant\<close>

definition app_inv :: "app \<Rightarrow> bool" where
  "app_inv a \<longleftrightarrow> distinct (map nc_name (components a))"

lemma components_New [simp]: "components (New opts) = []"
proof -
  have "components (fold apply_app_option opts a) = components a" for a
  proof (induction opts arbitrary: a)
    case (Cons x xs)
    then show ?case by (cases x) simp_all
  qed simp
  then show ?thesis by (simp add: New_def)
qed

lemma app_inv_New [simp]: "app_inv (New opts)"
  by (simp add: app_inv_def)

lemma Register_app_inv: "app_inv a \<Longrightarrow> app_inv (snd (Register named nm c a))"
  by (auto simp: app_inv_def Register_def list_ex_iff Let_def split: option.splits)

lemma plugin_step_app_inv: "plugin_step named a b \<Longrightarrow> app_inv a \<Longrightarrow> app_inv b"
  by (induction rule: plugin_step.induct)
    (simp_all add: Register_app_inv, simp_all add: app_inv_def app_op_defs)

lemma plugin_steps_app_inv: "(plugin_step named)\<^sup>*\<^sup>* a b \<Longrightarrow> app_inv a \<Longrightarrow> app_inv b"
  by (induction rule: rtranclp_induct) (auto intro: plugin_step_app_inv)

text \<open>A plugin can only add to what is registered: nothing is removed or reordered.\<close>

lemma plugin_step_grows: "plugin_step named a b \<Longrightarrow> prefix (components a) (components b)"
  by (induction rule: plugin_step.induct) (auto simp: app_op_defs Let_def)

lemma plugin_steps_grow: "(plugin_step named)\<^sup>*\<^sup>* a b \<Longrightarrow> prefix (components a) (components b)"
  by (induction rule: rtranclp_induct) (auto dest: plugin_step_grows)

lemma find_component_append:
  "find_component nm (xs @ ys) =
     (case find_component nm xs of None \<Rightarrow> find_component nm ys | Some c \<Rightarrow> Some c)"
  by (induction xs) simp_all

lemma find_component_prefix:
  "prefix xs ys \<Longrightarrow> find_component nm xs = Some c \<Longrightarrow> find_component nm ys = Some c"
  by (auto simp: prefix_def find_component_append)

lemma find_component_None: "find_component nm ncs = None \<longleftrightarrow> nm \<notin> nc_name ` set ncs"
  by (induction ncs) auto

section \<open>Traces of the phases of Run\<close>

text \<open>
  \<open>traced f ev g\<close>: one call of \<open>f x\<close> adds exactly the event \<open>ev x\<close> with the callback's result,
  and returns that result with a non-nil error wrapped by \<open>g x\<close>.
\<close>

definition traced :: "('x \<Rightarrow> 's world fallible) \<Rightarrow> ('x \<Rightarrow> goerr option \<Rightarrow> event) \<Rightarrow>
    ('x \<Rightarrow> goerr \<Rightarrow> goerr) \<Rightarrow> bool" where
  "traced f ev g \<longleftrightarrow> (\<forall>x w r w'. f x w = (r, w') \<longrightarrow>
     (\<exists>q. r = map_option (g x) q \<and> w_trace w' = w_trace w @ [ev x q]))"

lemma tracedD:
  "traced f ev g \<Longrightarrow> f x w = (r, w') \<Longrightarrow>
     \<exists>q. r = map_option (g x) q \<and> w_trace w' = w_trace w @ [ev x q]"
  unfolding traced_def by blast

lemma traced_until_None:
  "traced f ev g \<Longrightarrow> run_until f xs w = (None, w') \<Longrightarrow>
     w_trace w' = w_trace w @ map (\<lambda>x. ev x None) xs"
proof (induction xs arbitrary: w)
  case Nil
  then show ?case by simp
next
  case (Cons x xs)
  obtain r w1 where f: "f x w = (r, w1)" by (cases "f x w")
  with Cons.prems have r: "r = None" and rest: "run_until f xs w1 = (None, w')"
    by (auto split: option.splits)
  from tracedD[OF Cons.prems(1) f] r have "w_trace w1 = w_trace w @ [ev x None]" by auto
  with Cons.IH[OF Cons.prems(1) rest] show ?case by simp
qed

lemma traced_until_Some:
  assumes tr: "traced f ev g" and run: "run_until f xs w = (Some e, w')"
  shows "\<exists>ys x zs q. xs = ys @ x # zs \<and> e = g x q \<and>
    w_trace w' = w_trace w @ map (\<lambda>x. ev x None) ys @ [ev x (Some q)]"
proof -
  obtain ys x zs t where xs: "xs = ys @ x # zs" and ok: "run_until f ys w = (None, t)"
    and bad: "f x t = (Some e, w')"
    using run_until_Some_split[OF run] by blast
  from tracedD[OF tr bad] obtain q where "e = g x q" "w_trace w' = w_trace t @ [ev x (Some q)]"
    by (metis map_option_eq_Some)
  with traced_until_None[OF tr ok] xs show ?thesis by auto
qed

lemma traced_collect:
  assumes "traced f ev g"
  shows "run_collect f xs w = (es, w') \<Longrightarrow>
    \<exists>rs. length rs = length xs \<and> w_trace w' = w_trace w @ map2 ev xs rs \<and>
      es = somes (map2 (\<lambda>x. map_option (g x)) xs rs)"
proof (induction xs arbitrary: w es)
  case Nil
  then show ?case by simp
next
  case (Cons x xs)
  obtain r w1 where f: "f x w = (r, w1)" by (cases "f x w")
  obtain es' where rest: "run_collect f xs w1 = (es', w')"
    and es: "es = (case r of None \<Rightarrow> es' | Some e \<Rightarrow> e # es')"
    using Cons.prems f by (auto split: prod.splits)
  from tracedD[OF assms f] obtain q
    where q: "r = map_option (g x) q" "w_trace w1 = w_trace w @ [ev x q]" by blast
  from Cons.IH[OF rest] obtain rs where "length rs = length xs"
    "w_trace w' = w_trace w1 @ map2 ev xs rs" "es' = somes (map2 (\<lambda>x. map_option (g x)) xs rs)"
    by blast
  with q es show ?case by (intro exI[of _ "q # rs"]) (cases q; simp)
qed

lemma trace_fold_call0:
  "w_trace (fold (\<lambda>h. call0 (f h) (ev h)) hs w) = w_trace w @ map ev hs"
  by (induction hs arbitrary: w) (simp_all add: call0_def)

lemma traced_init_plugin: "traced (init_plugin env) PluginInit
   (\<lambda>p err. Errorf [Lit ''platform: plugin init '', PQ (plugin_name env p), Lit '': '', PW err])"
  by (auto simp: traced_def init_plugin_def call_def split: prod.splits)

lemma traced_stop_component: "traced (stop_component env ctx) (\<lambda>nc. StopCall nc ctx)
   (\<lambda>nc err. Errorf [Lit ''platform: stop '', PQ (nc_name nc), Lit '': '', PW err])"
  by (auto simp: traced_def stop_component_def call_def split: prod.splits)

lemma traced_close_plugin: "traced (close_plugin env) PluginClose
   (\<lambda>p err. Errorf [Lit ''platform: plugin close '', PQ (plugin_name env p), Lit '': '', PW err])"
  by (auto simp: traced_def close_plugin_def call_def split: prod.splits)

lemma traced_before_start_hook:
  "traced (before_start_hook env ctx nm) (\<lambda>h. BeforeStartCall h ctx nm) (\<lambda>h err. err)"
  by (auto simp: traced_def before_start_hook_def call_def option.map_ident split: prod.splits)


section \<open>The documented protocol of Run\<close>

text \<open>
  An abstract specification of \<open>Run\<close> after its doc comment: what may be called, in which order
  and with which context, and what is returned. \<open>rctx\<close> is the run context, \<open>sctx\<close> the shutdown
  context, \<open>a\<close> the application once its plugins are initialised.
\<close>

definition inits :: "pref list \<Rightarrow> event list" where
  "inits ps = map (\<lambda>p. PluginInit p None) ps"

definition hooks_ok :: "ctx \<Rightarrow> href list \<Rightarrow> string \<Rightarrow> event list" where
  "hooks_ok rctx hs nm = map (\<lambda>h. BeforeStartCall h rctx nm None) hs"

definition start_block :: "ctx \<Rightarrow> href list \<Rightarrow> namedComponent \<Rightarrow> event list" where
  "start_block rctx hs nc = hooks_ok rctx hs (nc_name nc) @ [StartCall nc rctx None]"

definition stops :: "ctx \<Rightarrow> namedComponent list \<Rightarrow> goerr option list \<Rightarrow> event list" where
  "stops sctx ncs rs = map2 (\<lambda>nc. StopCall nc sctx) ncs rs"

text \<open>How one component's start can fail: a hook refuses it, or its \<open>Start\<close> does.\<close>

inductive failed_block :: "ctx \<Rightarrow> href list \<Rightarrow> namedComponent \<Rightarrow> event list \<Rightarrow> goerr \<Rightarrow> bool"
  for rctx hooks nc where
  hook: "hooks = hs @ h # hs' \<Longrightarrow> failed_block rctx hooks nc
     (hooks_ok rctx hs (nc_name nc) @ [BeforeStartCall h rctx (nc_name nc) (Some e)]) e"
| start: "failed_block rctx hooks nc
     (hooks_ok rctx hooks (nc_name nc) @ [StartCall nc rctx (Some e)]) e"

inductive run_protocol ::
  "ctx \<Rightarrow> ctx \<Rightarrow> pref list \<Rightarrow> app \<Rightarrow> event list \<Rightarrow> goerr option \<Rightarrow> bool"
  for rctx sctx plugs a where
  init_failed:
    "plugs = ps @ p # qs \<Longrightarrow> errors_Is r e \<Longrightarrow>
     run_protocol rctx sctx plugs a (inits ps @ [PluginInit p (Some e)]) (Some r)"
| start_failed:
    "components a = ys @ nc # zs \<Longrightarrow> failed_block rctx (beforeStart a) nc failed e \<Longrightarrow>
     length rs = length ys \<Longrightarrow> errors_Is r e \<Longrightarrow> \<forall>s \<in> set (somes rs). errors_Is r s \<Longrightarrow>
     run_protocol rctx sctx plugs a
       (inits plugs @ concat (map (start_block rctx (beforeStart a)) ys) @ failed @
        stops sctx (rev ys) rs) (Some r)"
| completed:
    "length rs = length (components a) \<Longrightarrow> length cs = length plugs \<Longrightarrow>
     (r = None \<longleftrightarrow> somes rs = [] \<and> somes cs = []) \<Longrightarrow>
     (stopErr = None \<longleftrightarrow> somes rs = []) \<Longrightarrow>
     \<forall>s \<in> set (somes rs) \<union> set (somes cs). \<exists>e. r = Some e \<and> errors_Is e s \<Longrightarrow>
     run_protocol rctx sctx plugs a
       (inits plugs @ concat (map (start_block rctx (beforeStart a)) (components a)) @
        map (\<lambda>h. AfterStartCall h rctx) (afterStart a) @ [Waited rctx] @
        map (\<lambda>h. BeforeStopCall h sctx) (beforeStop a) @
        stops sctx (rev (components a)) rs @
        map (\<lambda>h. AfterStopCall h sctx stopErr) (afterStop a) @
        map2 PluginClose (rev plugs) cs) r"

subsection \<open>The error results\<close>

lemma somes_map2_wrap:
  assumes "length rs = length xs"
  shows "somes (map2 (\<lambda>x. map_option (g x)) xs rs) = [] \<longleftrightarrow> somes rs = []"
    and "s \<in> set (somes rs) \<Longrightarrow> \<exists>x. g x s \<in> set (somes (map2 (\<lambda>x. map_option (g x)) xs rs))"
  using assms
proof (induction rs xs rule: list_induct2)
  case Nil
  { case 1 then show ?case by simp }
  { case 2 then show ?case by simp }
next
  case (Cons r rs x xs)
  { case 1 then show ?case using Cons.IH(1) by (cases r) (simp_all del: somes_eq_Nil set_somes) }
  { case 2 then show ?case using Cons.IH(2)
      by (cases r) (auto simp del: somes_eq_Nil set_somes) }
qed

lemma collect_errors:
  assumes rs: "length rs = length xs" and es: "es = somes (map2 (\<lambda>x. map_option (g x)) xs rs)"
    and g: "\<And>x s. errors_Is (g x s) s"
  shows "errors_Join (map Some es) = None \<longleftrightarrow> somes rs = []"
    and "s \<in> set (somes rs) \<Longrightarrow> \<exists>j. errors_Join (map Some es) = Some j \<and> errors_Is j s"
proof -
  have "es = [] \<longleftrightarrow> somes rs = []" unfolding es by (rule somes_map2_wrap(1)[OF rs])
  moreover have "errors_Join (map Some es) = None \<longleftrightarrow> es = []" by (cases es) simp_all
  ultimately show "errors_Join (map Some es) = None \<longleftrightarrow> somes rs = []" by (simp only:)
next
  assume "s \<in> set (somes rs)"
  from somes_map2_wrap(2)[OF rs this] obtain x where "g x s \<in> set es" unfolding es by blast
  then have "Some (g x s) \<in> set (map Some es)" by simp
  with g show "\<exists>j. errors_Join (map Some es) = Some j \<and> errors_Is j s"
    by (rule errors_Join_Some_Is[rotated])
qed

lemma errors_Is_wrap [intro]: "errors_Is (Errorf [Lit a, PQ n, Lit b, PW e]) e"
  by (rule errors_Is_PW[of e]) simp_all


subsection \<open>Run follows the protocol\<close>

lemma stopStarted_trace:
  assumes "stopStarted env ctx timeout started w = (r, w')"
  shows "\<exists>rs. length rs = length started \<and>
    w_trace w' = w_trace w @ stops (WithTimeout (WithoutCancel ctx) timeout) (rev started) rs \<and>
    (\<forall>s \<in> set (somes rs). \<exists>j. r = Some j \<and> errors_Is j s)"
proof -
  let ?sctx = "WithTimeout (WithoutCancel ctx) timeout"
  obtain es where run: "run_collect (stop_component env ?sctx) (rev started) w = (es, w')"
    and r: "r = errors_Join (map Some es)"
    using assms by (auto simp: stopStarted_def split: prod.splits)
  from traced_collect[OF traced_stop_component run] obtain rs where
    rs: "length rs = length (rev started)" and tr: "w_trace w' = w_trace w @ stops ?sctx (rev started) rs"
    and es: "es = somes (map2 (\<lambda>nc. map_option (\<lambda>err.
      Errorf [Lit ''platform: stop '', PQ (nc_name nc), Lit '': '', PW err])) (rev started) rs)"
    unfolding stops_def by blast
  have "\<forall>s \<in> set (somes rs). \<exists>j. r = Some j \<and> errors_Is j s"
    unfolding r using collect_errors(2)[OF rs es] by blast
  with rs tr show ?thesis by auto
qed

lemma start_components_ok:
  "start_components env ctx timeout hooks ncs started w = (None, started', w') \<Longrightarrow>
     started' = started @ ncs \<and> w_trace w' = w_trace w @ concat (map (start_block ctx hooks) ncs)"
proof (induction ncs arbitrary: started w)
  case Nil
  then show ?case by simp
next
  case (Cons nc ncs)
  from Cons.prems obtain w1 w2 where
    h: "run_until (before_start_hook env ctx (nc_name nc)) hooks w = (None, w1)" and
    s: "call (comp_start env (nc_component nc) ctx) (StartCall nc ctx) w1 = (None, w2)" and
    rest: "start_components env ctx timeout hooks ncs (started @ [nc]) w2 = (None, started', w')"
    by (auto split: prod.splits option.splits)
  have "w_trace w1 = w_trace w @ hooks_ok ctx hooks (nc_name nc)"
    using traced_until_None[OF traced_before_start_hook h] by (simp add: hooks_ok_def)
  moreover have "w_trace w2 = w_trace w1 @ [StartCall nc ctx None]"
    using s by (auto simp: call_def split: prod.splits)
  ultimately show ?case using Cons.IH[OF rest] by (simp add: start_block_def)
qed

text \<open>The roll-back after a failed start: what is stopped and what the joined error carries.\<close>

lemma rollback_trace:
  assumes stop: "stopStarted env ctx timeout started w = (stopErr, w')"
    and r: "errors_Join [Some (Errorf [Lit msg, PQ nm, Lit '': '', PW e]), stopErr] = Some r"
  shows "\<exists>rs. length rs = length started \<and>
    w_trace w' = w_trace w @ stops (WithTimeout (WithoutCancel ctx) timeout) (rev started) rs \<and>
    errors_Is r e \<and> (\<forall>s \<in> set (somes rs). errors_Is r s)"
proof -
  from stopStarted_trace[OF stop] obtain rs where rs: "length rs = length started"
    "w_trace w' = w_trace w @ stops (WithTimeout (WithoutCancel ctx) timeout) (rev started) rs"
    "\<forall>s \<in> set (somes rs). \<exists>j. stopErr = Some j \<and> errors_Is j s" by blast
  have is_r: "errors_Is r t"
    if "Some x \<in> set [Some (Errorf [Lit msg, PQ nm, Lit '': '', PW e]), stopErr]"
      "errors_Is x t" for x t
    using errors_Join_Some_Is[OF that] r by simp
  have "errors_Is r e" by (rule is_r[OF list.set_intros(1) errors_Is_wrap])
  moreover have "errors_Is r s" if "s \<in> set (somes rs)" for s
  proof -
    from that rs(3) obtain j where "stopErr = Some j" "errors_Is j s" by blast
    then show ?thesis by (intro is_r[of j]) simp_all
  qed
  ultimately show ?thesis using rs(1,2) by blast
qed

definition failed_start :: "ctx \<Rightarrow> ctx \<Rightarrow> href list \<Rightarrow> namedComponent list \<Rightarrow> namedComponent list \<Rightarrow>
    namedComponent list \<Rightarrow> event list \<Rightarrow> goerr \<Rightarrow> bool" where
  "failed_start rctx sctx hooks ncs started started' tr r \<longleftrightarrow>
     (\<exists>ys nc zs failed e rs. ncs = ys @ nc # zs \<and> started' = started @ ys \<and>
       failed_block rctx hooks nc failed e \<and> length rs = length started' \<and>
       errors_Is r e \<and> (\<forall>s \<in> set (somes rs). errors_Is r s) \<and>
       tr = concat (map (start_block rctx hooks) ys) @ failed @ stops sctx (rev started') rs)"

lemma failed_start_now:
  assumes "stopStarted env ctx timeout started w2 = (stopErr, w')"
    and "errors_Join [Some (Errorf [Lit msg, PQ nm, Lit '': '', PW e]), stopErr] = Some r"
    and "failed_block ctx hooks nc failed e" and "w_trace w2 = w_trace w @ failed"
  shows "\<exists>tr. w_trace w' = w_trace w @ tr \<and>
    failed_start ctx (WithTimeout (WithoutCancel ctx) timeout) hooks (nc # ncs) started started tr r"
proof -
  from rollback_trace[OF assms(1,2)] obtain rs where "length rs = length started"
    "w_trace w' = w_trace w2 @ stops (WithTimeout (WithoutCancel ctx) timeout) (rev started) rs"
    "errors_Is r e" "\<forall>s \<in> set (somes rs). errors_Is r s" by blast
  with assms(3,4) show ?thesis unfolding failed_start_def
    by (intro exI[of _ "failed @ stops (WithTimeout (WithoutCancel ctx) timeout) (rev started) rs"]
        conjI exI[of _ "[]"] exI[of _ nc] exI[of _ ncs] exI[of _ failed] exI[of _ e] exI[of _ rs])
      simp_all
qed

lemma failed_start_later:
  assumes "failed_start rctx sctx hooks ncs (started @ [nc]) started' tr r"
  shows "failed_start rctx sctx hooks (nc # ncs) started started' (start_block rctx hooks nc @ tr) r"
proof -
  from assms obtain ys nc' zs failed e rs where
    "ncs = ys @ nc' # zs" "started' = (started @ [nc]) @ ys" "failed_block rctx hooks nc' failed e"
    "length rs = length started'" "errors_Is r e" "\<forall>s \<in> set (somes rs). errors_Is r s"
    "tr = concat (map (start_block rctx hooks) ys) @ failed @ stops sctx (rev started') rs"
    unfolding failed_start_def by blast
  then show ?thesis unfolding failed_start_def
    by (intro exI[of _ "nc # ys"] exI[of _ nc'] exI[of _ zs] exI[of _ failed] exI[of _ e]
        exI[of _ rs]) simp
qed

lemma hook_refuses:
  assumes "run_until (before_start_hook env ctx (nc_name nc)) hooks w = (Some err, w1)"
    and "stopStarted env ctx timeout started w1 = (stopErr, w')"
    and "errors_Join [Some (Errorf [Lit msg, PQ (nc_name nc), Lit '': '', PW err]), stopErr] = Some r"
  shows "\<exists>tr. w_trace w' = w_trace w @ tr \<and>
    failed_start ctx (WithTimeout (WithoutCancel ctx) timeout) hooks (nc # ncs) started started tr r"
proof -
  from traced_until_Some[OF traced_before_start_hook assms(1)] obtain hs x hs' where
    "hooks = hs @ x # hs'" and "w_trace w1 = w_trace w @ hooks_ok ctx hs (nc_name nc) @
       [BeforeStartCall x ctx (nc_name nc) (Some err)]"
    unfolding hooks_ok_def by blast
  from failed_start_now[OF assms(2,3) failed_block.hook[OF this(1)] this(2)] show ?thesis .
qed

lemma hooks_trace:
  "run_until (before_start_hook env ctx nm) hooks w = (None, w1) \<Longrightarrow> w_trace w1 = w_trace w @ hooks_ok ctx hooks nm"
  using traced_until_None[OF traced_before_start_hook] by (simp add: hooks_ok_def)

lemma start_call_trace:
  "call (comp_start env (nc_component nc) ctx) (StartCall nc ctx) w1 = (q, w2) \<Longrightarrow> w_trace w2 = w_trace w1 @ [StartCall nc ctx q]"
  by (auto simp: call_def split: prod.splits)

lemma start_components_failed:
  "start_components env ctx timeout hooks ncs started w = (Some r, started', w') \<Longrightarrow>
     \<exists>tr. w_trace w' = w_trace w @ tr \<and>
       failed_start ctx (WithTimeout (WithoutCancel ctx) timeout) hooks ncs started started' tr r"
proof (induction ncs arbitrary: started w)
  case (Cons nc ncs)
  obtain q w1 where h: "run_until (before_start_hook env ctx (nc_name nc)) hooks w = (q, w1)"
    by (cases "run_until (before_start_hook env ctx (nc_name nc)) hooks w")
  obtain q2 w2 where s: "call (comp_start env (nc_component nc) ctx) (StartCall nc ctx) w1 = (q2, w2)"
    by (cases "call (comp_start env (nc_component nc) ctx) (StartCall nc ctx) w1")
  consider (hook) err where "q = Some err" | (start) err where "q = None" "q2 = Some err"
    | (ok) "q = None" "q2 = None" by (cases q; cases q2) auto
  then show ?case
  proof cases
    case hook
    with Cons.prems h hook_refuses[OF h[unfolded hook]] show ?thesis by (auto split: prod.splits)
  next
    case start
    have "w_trace w2 = w_trace w @ hooks_ok ctx hooks (nc_name nc) @ [StartCall nc ctx (Some err)]"
      using hooks_trace[OF h[unfolded start(1)]] start_call_trace[OF s] start(2) by simp
    from failed_start_now[OF _ _ failed_block.start this] Cons.prems h s start show ?thesis by (auto split: prod.splits)
  next
    case ok
    from Cons.prems h s ok have
      "start_components env ctx timeout hooks ncs (started @ [nc]) w2 = (Some r, started', w')" by simp
    from Cons.IH[OF this] obtain tr where "w_trace w' = w_trace w2 @ tr"
      "failed_start ctx (WithTimeout (WithoutCancel ctx) timeout) hooks ncs (started @ [nc]) started' tr r" by blast
    with hooks_trace[OF h[unfolded ok(1)]] start_call_trace[OF s] ok show ?thesis
      by (intro exI[of _ "start_block ctx hooks nc @ tr"] conjI failed_start_later) (simp_all add: start_block_def)
  qed
qed simp

lemma shutdown_trace:
  assumes "shutdown env ctx timeout plugs bstop astop started w = Some (r, w')"
  shows "\<exists>rs cs stopErr. length rs = length started \<and> length cs = length plugs \<and>
    (r = None \<longleftrightarrow> somes rs = [] \<and> somes cs = []) \<and> (stopErr = None \<longleftrightarrow> somes rs = []) \<and>
    (\<forall>s \<in> set (somes rs) \<union> set (somes cs). \<exists>e. r = Some e \<and> errors_Is e s) \<and>
    w_trace w' = w_trace w @ [Waited ctx] @
      map (\<lambda>h. BeforeStopCall h (WithTimeout (WithoutCancel ctx) timeout)) bstop @
      stops (WithTimeout (WithoutCancel ctx) timeout) (rev started) rs @
      map (\<lambda>h. AfterStopCall h (WithTimeout (WithoutCancel ctx) timeout) stopErr) astop @
      map2 PluginClose (rev plugs) cs"
proof -
  let ?sctx = "WithTimeout (WithoutCancel ctx) timeout"
  from assms obtain st es ces w2 w3 w4 stopErr closeErr where
    w2: "w2 = fold (\<lambda>h. call0 (hook_before_stop env h ?sctx) (BeforeStopCall h ?sctx)) bstop
      \<lparr>w_state = st, w_trace = w_trace w @ [Waited ctx]\<rparr>" and
    stop: "run_collect (stop_component env ?sctx) (rev started) w2 = (es, w3)" and
    w4: "w4 = fold (\<lambda>h. call0 (hook_after_stop env h ?sctx stopErr)
      (AfterStopCall h ?sctx stopErr)) astop w3" and
    close: "run_collect (close_plugin env) (rev plugs) w4 = (ces, w')" and
    errs: "stopErr = errors_Join (map Some es)" "closeErr = errors_Join (map Some ces)"
      "r = errors_Join [stopErr, closeErr]"
    by (auto simp: shutdown_def Let_def split: option.splits prod.splits)
  from traced_collect[OF traced_stop_component stop] obtain rs where rs: "length rs = length (rev started)"
    and tr3: "w_trace w3 = w_trace w2 @ stops ?sctx (rev started) rs"
    and es: "es = somes (map2 (\<lambda>nc. map_option (\<lambda>err.
      Errorf [Lit ''platform: stop '', PQ (nc_name nc), Lit '': '', PW err])) (rev started) rs)"
    unfolding stops_def by blast
  from traced_collect[OF traced_close_plugin close] obtain cs where cs: "length cs = length (rev plugs)"
    and tr5: "w_trace w' = w_trace w4 @ map2 PluginClose (rev plugs) cs"
    and ces: "ces = somes (map2 (\<lambda>p. map_option (\<lambda>err.
      Errorf [Lit ''platform: plugin close '', PQ (plugin_name env p), Lit '': '', PW err])) (rev plugs) cs)"
    by blast
  note stop_errs = collect_errors[OF rs es, folded errs, OF errors_Is_wrap]
  note close_errs = collect_errors[OF cs ces, folded errs, OF errors_Is_wrap]
  have nil: "r = None \<longleftrightarrow> somes rs = [] \<and> somes cs = []"
    unfolding errs(3) errors_Join_None using stop_errs(1) close_errs(1) by (simp del: somes_eq_Nil)
  have "\<exists>e. r = Some e \<and> errors_Is e s" if "s \<in> set (somes rs) \<union> set (somes cs)" for s
  proof -
    from that obtain j where j: "stopErr = Some j \<or> closeErr = Some j" "errors_Is j s"
      using stop_errs(2) close_errs(2) unfolding Un_iff by metis
    then have "Some j \<in> set [stopErr, closeErr]" by auto
    from errors_Join_Some_Is[OF this j(2)] show ?thesis by (simp add: errs(3))
  qed
  moreover have "w_trace w2 = w_trace w @ [Waited ctx] @ map (\<lambda>h. BeforeStopCall h ?sctx) bstop"
    and "w_trace w4 = w_trace w3 @ map (\<lambda>h. AfterStopCall h ?sctx stopErr) astop"
    unfolding w2 w4 trace_fold_call0 by simp_all
  ultimately show ?thesis using rs cs nil stop_errs(1) tr3 tr5 by (intro exI[of _ rs] exI[of _ cs]
      exI[of _ stopErr]) simp
qed

lemma inits_trace:
  "run_until (init_plugin env) plugs w = (None, w1) \<Longrightarrow> w_trace w1 = w_trace w @ inits plugs"
  using traced_until_None[OF traced_init_plugin] unfolding inits_def by blast

lemma init_failed_protocol:
  assumes "run_until (init_plugin env) plugs w = (Some e, w')"
  shows "\<exists>tr. w_trace w' = w_trace w @ tr \<and> run_protocol rctx sctx plugs a tr (Some e)"
proof -
  from traced_until_Some[OF traced_init_plugin assms] obtain ps p qs q where
    p: "plugs = ps @ p # qs" and
    e: "e = Errorf [Lit ''platform: plugin init '', PQ (plugin_name env p), Lit '': '', PW q]" and
    tr: "w_trace w' = w_trace w @ inits ps @ [PluginInit p (Some q)]"
    unfolding inits_def by blast
  have "errors_Is e q" unfolding e by (rule errors_Is_wrap)
  from run_protocol.init_failed[OF p this] tr show ?thesis by blast
qed

lemma start_failed_protocol:
  assumes "start_components env rctx timeout (beforeStart a) (components a) [] w1 = (Some e, sts, w2)"
    and "w_trace w1 = w_trace w @ inits plugs"
  shows "\<exists>tr. w_trace w2 = w_trace w @ tr \<and>
    run_protocol rctx (WithTimeout (WithoutCancel rctx) timeout) plugs a tr (Some e)"
proof -
  let ?sctx = "WithTimeout (WithoutCancel rctx) timeout"
  from start_components_failed[OF assms(1)] obtain ys nc zs failed e0 rs where
    f: "components a = ys @ nc # zs" "failed_block rctx (beforeStart a) nc failed e0" "length rs = length ys"
      "errors_Is e e0" "\<forall>s \<in> set (somes rs). errors_Is e s"
    and tr: "w_trace w2 = w_trace w1 @ concat (map (start_block rctx (beforeStart a)) ys) @ failed @ stops ?sctx (rev ys) rs"
    unfolding failed_start_def by auto
  from run_protocol.start_failed[OF f] tr assms(2) show ?thesis by force
qed

lemma completed_protocol:
  assumes "start_components env rctx timeout (beforeStart a) (components a) [] w1 = (None, sts, w2)"
    and "shutdown env rctx timeout plugs (beforeStop a) (afterStop a) sts
      (fold (\<lambda>h. call0 (hook_after_start env h rctx) (AfterStartCall h rctx)) (afterStart a) w2) = Some (r, w')"
    and "w_trace w1 = w_trace w @ inits plugs"
  shows "\<exists>tr. w_trace w' = w_trace w @ tr \<and>
    run_protocol rctx (WithTimeout (WithoutCancel rctx) timeout) plugs a tr r"
proof -
  let ?sctx = "WithTimeout (WithoutCancel rctx) timeout"
  let ?w3 = "fold (\<lambda>h. call0 (hook_after_start env h rctx) (AfterStartCall h rctx)) (afterStart a) w2"
  note ok = start_components_ok[OF assms(1)]
  then have sts: "sts = components a" by simp
  from shutdown_trace[OF assms(2)[unfolded sts]] obtain rs cs stopErr where
    f: "length rs = length (components a)" "length cs = length plugs"
      "r = None \<longleftrightarrow> somes rs = [] \<and> somes cs = []" "stopErr = None \<longleftrightarrow> somes rs = []"
      "\<forall>s \<in> set (somes rs) \<union> set (somes cs). \<exists>e. r = Some e \<and> errors_Is e s"
    and tr: "w_trace w' = w_trace ?w3 @ [Waited rctx] @ map (\<lambda>h. BeforeStopCall h ?sctx) (beforeStop a) @
      stops ?sctx (rev (components a)) rs @ map (\<lambda>h. AfterStopCall h ?sctx stopErr) (afterStop a) @
      map2 PluginClose (rev plugs) cs"
    by blast
  from run_protocol.completed[OF f] tr[unfolded trace_fold_call0] ok assms(3) show ?thesis by force
qed

lemma Run_follows_protocol:
  assumes run: "Run env ctx w = Some (r, w')"
    and init: "run_until (init_plugin env) (plugins (w_app w)) w = (q, w1)"
  shows "\<exists>tr. w_trace w' = w_trace w @ tr \<and>
    run_protocol (NotifyContext ctx)
      (WithTimeout (WithoutCancel (NotifyContext ctx)) (shutdownTimeout (w_app w)))
      (plugins (w_app w)) (w_app w1) tr r"
proof (cases q)
  case (Some e)
  with run init have "r = Some e" "w' = w1" by (simp_all add: Run_def)
  with init_failed_protocol[OF init[unfolded Some]] show ?thesis by blast
next
  case None
  let ?a = "w_app w1"
  obtain q2 sts w2 where
    st: "start_components env (NotifyContext ctx) (shutdownTimeout (w_app w)) (beforeStart ?a) (components ?a) [] w1 = (q2, sts, w2)"
    by (metis prod_cases3)
  note w1 = inits_trace[OF init[unfolded None]]
  show ?thesis
  proof (cases q2)
    case (Some e)
    with run init None st have "r = Some e" "w' = w2" by (simp_all add: Run_def)
    with start_failed_protocol[OF st[unfolded Some] w1] show ?thesis by blast
  next
    case None
    with run init \<open>q = None\<close> st show ?thesis by (intro completed_protocol[OF _ _ w1]) (simp_all add: Run_def Let_def)
  qed
qed


subsection \<open>What the protocol guarantees\<close>

text \<open>The components whose \<open>Start\<close> succeeded, and those \<open>Stop\<close> was called on, in call order.\<close>

fun started_of :: "event \<Rightarrow> namedComponent option" where
  "started_of (StartCall nc c None) = Some nc"
| "started_of _ = None"

fun stopped_of :: "event \<Rightarrow> namedComponent option" where
  "stopped_of (StopCall nc c r) = Some nc"
| "stopped_of _ = None"

definition started :: "event list \<Rightarrow> namedComponent list" where
  "started tr = somes (map started_of tr)"

definition stopped :: "event list \<Rightarrow> namedComponent list" where
  "stopped tr = somes (map stopped_of tr)"

lemma started_append [simp]: "started (xs @ ys) = started xs @ started ys"
  and stopped_append [simp]: "stopped (xs @ ys) = stopped xs @ stopped ys"
  and started_Nil [simp]: "started [] = []" and stopped_Nil [simp]: "stopped [] = []"
  by (simp_all add: started_def stopped_def)

lemma started_Cons [simp]:
  "started (e # es) = (case started_of e of None \<Rightarrow> started es | Some nc \<Rightarrow> nc # started es)"
  "stopped (e # es) = (case stopped_of e of None \<Rightarrow> stopped es | Some nc \<Rightarrow> nc # stopped es)"
  by (simp_all add: started_def stopped_def split: option.splits)

lemma quiet_blocks [simp]:
  "started (inits ps) = []" "stopped (inits ps) = []"
  "started (hooks_ok c hs nm) = []" "stopped (hooks_ok c hs nm) = []"
  "started (map (\<lambda>h. AfterStartCall h c) hs) = []" "stopped (map (\<lambda>h. AfterStartCall h c) hs) = []"
  "started (map (\<lambda>h. BeforeStopCall h c) hs) = []" "stopped (map (\<lambda>h. BeforeStopCall h c) hs) = []"
  "started (map (\<lambda>h. AfterStopCall h c x) hs) = []" "stopped (map (\<lambda>h. AfterStopCall h c x) hs) = []"
  unfolding inits_def hooks_ok_def by (induct ps, simp_all) (induct hs, simp_all)+

lemma closes_quiet [simp]:
  "started (map2 PluginClose ps cs) = []" "stopped (map2 PluginClose ps cs) = []"
  by (induct ps cs rule: list_induct2', simp_all)+

lemma started_blocks [simp]: "started (concat (map (start_block c hs) ncs)) = ncs"
  and stopped_blocks [simp]: "stopped (concat (map (start_block c hs) ncs)) = []"
  by (induction ncs) (simp_all add: start_block_def)

lemma started_stops [simp]: "started (stops c ncs rs) = []"
  unfolding stops_def by (induction ncs rs rule: list_induct2') simp_all

lemma stopped_stops [simp]: "length rs = length ncs \<Longrightarrow> stopped (stops c ncs rs) = ncs"
  unfolding stops_def by (induction rs ncs rule: list_induct2) simp_all

lemma failed_block_quiet [simp]:
  "failed_block c hs nc tr e \<Longrightarrow> started tr = []" "failed_block c hs nc tr e \<Longrightarrow> stopped tr = []"
  by (auto elim!: failed_block.cases)

lemma protocol_mirror: "run_protocol rctx sctx plugs a tr r \<Longrightarrow> stopped tr = rev (started tr)"
  by (induction rule: run_protocol.induct) simp_all

lemma stops_events: "ev \<in> set (stops c ncs rs) \<Longrightarrow> \<exists>nc r. ev = StopCall nc c r"
  unfolding stops_def by (auto simp: in_set_zip)

lemma start_block_events:
  "ev \<in> set (start_block c hs nc) \<Longrightarrow> (\<exists>h. ev = BeforeStartCall h c (nc_name nc) None) \<or> ev = StartCall nc c None"
  by (auto simp: start_block_def hooks_ok_def)

lemma failed_block_events:
  "failed_block c hs nc tr e \<Longrightarrow> ev \<in> set tr \<Longrightarrow>
     (\<exists>h r. ev = BeforeStartCall h c (nc_name nc) r) \<or> ev = StartCall nc c (Some e)"
  by (auto elim!: failed_block.cases simp: hooks_ok_def)

text \<open>Each callback's context: run context on the way up, shutdown context on the way down.\<close>

fun event_ctx :: "ctx \<Rightarrow> ctx \<Rightarrow> event \<Rightarrow> bool" where
  "event_ctx rctx sctx (BeforeStartCall h c nm r) = (c = rctx)"
| "event_ctx rctx sctx (StartCall nc c r) = (c = rctx)"
| "event_ctx rctx sctx (AfterStartCall h c) = (c = rctx)"
| "event_ctx rctx sctx (Waited c) = (c = rctx)"
| "event_ctx rctx sctx (BeforeStopCall h c) = (c = sctx)"
| "event_ctx rctx sctx (StopCall nc c r) = (c = sctx)"
| "event_ctx rctx sctx (AfterStopCall h c r) = (c = sctx)"
| "event_ctx rctx sctx (PluginInit p r) = True"
| "event_ctx rctx sctx (PluginClose p r) = True"

lemma protocol_ctx: "run_protocol rctx sctx plugs a tr r \<Longrightarrow> ev \<in> set tr \<Longrightarrow> event_ctx rctx sctx ev"
proof (induction rule: run_protocol.induct)
  case init_failed
  then show ?case by (auto simp: inits_def)
next
  case start_failed
  then show ?case
    by (auto simp: inits_def dest!: stops_events start_block_events failed_block_events)
next
  case completed
  then show ?case by (auto simp: inits_def in_set_zip dest!: stops_events start_block_events)
qed

text \<open>A start-up error is the result of a plugin's \<open>Init\<close>, a before-start hook or a \<open>Start\<close>.\<close>

fun startup_error :: "event \<Rightarrow> bool" where
  "startup_error (PluginInit p (Some e)) = True"
| "startup_error (BeforeStartCall h c nm (Some e)) = True"
| "startup_error (StartCall nc c (Some e)) = True"
| "startup_error _ = False"

lemma protocol_failed_no_close:
  "run_protocol rctx sctx plugs a tr r \<Longrightarrow> ev \<in> set tr \<Longrightarrow> startup_error ev \<Longrightarrow>
     PluginClose p q \<notin> set tr"
proof (induction rule: run_protocol.induct)
  case init_failed
  then show ?case by (auto simp: inits_def)
next
  case start_failed
  then show ?case
    by (auto simp: inits_def dest!: stops_events start_block_events failed_block_events)
next
  case completed
  then have False by (auto simp: inits_def in_set_zip dest!: stops_events start_block_events)
  then show ?case ..
qed

section \<open>Reachable applications\<close>

inductive reachable_app :: "(cref \<Rightarrow> string option) \<Rightarrow> app \<Rightarrow> bool" for named where
  new: "reachable_app named (New opts)"
| use_plugins: "reachable_app named a \<Longrightarrow> reachable_app named (Use ps a)"
| step: "reachable_app named a \<Longrightarrow> plugin_step named a b \<Longrightarrow> reachable_app named b"

lemma reachable_app_inv: "reachable_app named a \<Longrightarrow> app_inv a"
proof (induction rule: reachable_app.induct)
  case (use_plugins a ps)
  then show ?case by (simp add: app_inv_def Use_def)
qed (simp, rule plugin_step_app_inv)

lemma find_component_mem:
  "distinct (map nc_name ncs) \<Longrightarrow> nc \<in> set ncs \<Longrightarrow> find_component (nc_name nc) ncs = Some (nc_component nc)"
  by (induction ncs) auto

lemma HealthCheckers_fold:
  "distinct (map nc_name ncs) \<Longrightarrow>
   fold (\<lambda>nc m. if is_hc (nc_component nc) then m(nc_name nc \<mapsto> nc_component nc) else m) ncs m nm =
     (case find_component nm ncs of
        Some c \<Rightarrow> if is_hc c then Some c else m nm
      | None \<Rightarrow> m nm)"
proof (induction ncs arbitrary: m)
  case Nil
  then show ?case by simp
next
  case (Cons nc ncs)
  have "find_component (nc_name nc) ncs = None"
    using Cons.prems by (simp add: find_component_None)
  with Cons show ?case by (cases "nc_name nc = nm") (auto split: option.splits)
qed


section \<open>Properties\<close>

text \<open>A small application for the witnesses: every callback succeeds and changes nothing, and the
  context is cancelled when \<open>Run\<close> waits for it.\<close>

definition quiet_env :: "unit env" where
  "quiet_env = \<lparr>comp_start = (\<lambda>c x st. (None, st)), comp_stop = (\<lambda>c x st. (None, st)),
     plugin_name = (\<lambda>p. ''plugin''), plugin_init = (\<lambda>p st. (None, st)),
     plugin_close = (\<lambda>p st. (None, st)), hook_before_start = (\<lambda>h c n st. (None, st)),
     hook_after_start = (\<lambda>h c st. st), hook_before_stop = (\<lambda>h c st. st),
     hook_after_stop = (\<lambda>h c e st. st), await_done = (\<lambda>c st. Some st)\<rparr>"

definition two_components :: app where
  "two_components = Use [7] (snd (Register (\<lambda>c. None) ''server'' 2
     (snd (Register (\<lambda>c. None) ''db'' 1 (New [])))))"

definition failing_env :: "unit env" where
  "failing_env = quiet_env\<lparr>comp_start := (\<lambda>c x st. (if c = 2 then Some (ErrNew ''refused'') else None, st))\<rparr>"

definition start_world :: "unit world" where
  "start_world = \<lparr>w_state = ((), two_components), w_trace = []\<rparr>"

lemmas demo_defs = start_world_def two_components_def quiet_env_def failing_env_def New_def
  Register_def Use_def Run_def shutdown_def stopStarted_def init_plugin_def stop_component_def
  close_plugin_def before_start_hook_def call_def call0_def errors_Join_def

lemma quiet_run: "\<exists>w'. Run quiet_env Background start_world = Some (None, w')"
  by (simp add: demo_defs Let_def)

lemma failing_run: "\<exists>r w'. Run failing_env Background start_world = Some (Some r, w') \<and>
    w_trace w' = [PluginInit 7 None,
      StartCall \<lparr>nc_name = ''db'', nc_component = 1\<rparr> (NotifyContext Background) None,
      StartCall \<lparr>nc_name = ''server'', nc_component = 2\<rparr> (NotifyContext Background) (Some (ErrNew ''refused'')),
      StopCall \<lparr>nc_name = ''db'', nc_component = 1\<rparr>
        (WithTimeout (WithoutCancel (NotifyContext Background)) (30 * second)) None]"
  by (simp add: demo_defs Let_def)

text \<open>C1: \<open>App.Run\<close> implements its documented protocol. Whenever \<open>Run\<close> returns, the calls it made
  are one of the three runs \<open>run_protocol\<close> allows: plugins initialised in order and the first
  failing \<open>Init\<close> ends the run; or components started in registration order, each after all of its
  before-start hooks, the first failure followed by \<open>Stop\<close> of exactly the components started so
  far in reverse order; or the full run with its after-start hooks, the wait, the before-stop
  hooks, all components stopped in reverse order whatever their results, the after-stop hooks and
  the plugins closed in reverse order. The returned error is nil exactly when no callback of a
  full run failed, and \<open>errors.Is\<close> finds every collected error in it.\<close>

theorem Run_refines_protocol:
  assumes "Run env ctx w = Some (r, w')"
  shows "\<exists>q w1 tr. run_until (init_plugin env) (plugins (w_app w)) w = (q, w1) \<and>
    w_trace w' = w_trace w @ tr \<and>
    run_protocol (NotifyContext ctx)
      (WithTimeout (WithoutCancel (NotifyContext ctx)) (shutdownTimeout (w_app w)))
      (plugins (w_app w)) (w_app w1) tr r"
proof -
  obtain q w1 where init: "run_until (init_plugin env) (plugins (w_app w)) w = (q, w1)"
    by (cases "run_until (init_plugin env) (plugins (w_app w)) w")
  from Run_follows_protocol[OF assms init] init show ?thesis by blast
qed

theorem Run_refines_protocol_witness:
  "\<exists>w' q w1 tr. Run quiet_env Background start_world = Some (None, w') \<and>
     run_until (init_plugin quiet_env) (plugins (w_app start_world)) start_world = (q, w1) \<and>
     run_protocol (NotifyContext Background)
       (WithTimeout (WithoutCancel (NotifyContext Background)) (shutdownTimeout (w_app start_world)))
       (plugins (w_app start_world)) (w_app w1) tr None"
  using quiet_run Run_refines_protocol[of quiet_env Background start_world None] by blast

text \<open>C2: No component is leaked and none is stopped twice: whenever \<open>Run\<close> returns, with or
  without an error, the components it called \<open>Stop\<close> on are exactly those whose \<open>Start\<close> succeeded,
  each once, in reverse order of their starts.\<close>

theorem Run_stops_what_it_started:
  assumes "Run env ctx w = Some (r, w')"
  shows "\<exists>tr. w_trace w' = w_trace w @ tr \<and> stopped tr = rev (started tr)"
proof -
  obtain q w1 where init: "run_until (init_plugin env) (plugins (w_app w)) w = (q, w1)"
    by (cases "run_until (init_plugin env) (plugins (w_app w)) w")
  from Run_follows_protocol[OF assms init] show ?thesis using protocol_mirror by blast
qed

theorem Run_stops_what_it_started_witness:
  "\<exists>r w' tr. Run failing_env Background start_world = Some (Some r, w') \<and>
     w_trace w' = w_trace start_world @ tr \<and> stopped tr = rev (started tr)"
  using failing_run Run_stops_what_it_started[of failing_env Background start_world] by blast

text \<open>C20: Shutdown is not cut short by the signal that caused it: every \<open>Start\<close> gets the run
  context, which a signal or the caller can cancel, while every \<open>Stop\<close> and every stop hook gets a
  context that only the configured shutdown timeout can end.\<close>

theorem Run_shutdown_context:
  assumes "Run env ctx w = Some (r, w')"
  shows "\<exists>tr. w_trace w' = w_trace w @ tr \<and>
    (\<forall>nc c x. StartCall nc c x \<in> set tr \<longrightarrow>
       cancel_sources c = insert Signal (cancel_sources ctx)) \<and>
    (\<forall>nc c x h e. StopCall nc c x \<in> set tr \<or> BeforeStopCall h c \<in> set tr \<or> AfterStopCall h c e \<in> set tr \<longrightarrow>
       cancel_sources c = {Deadline (shutdownTimeout (w_app w))})"
proof -
  obtain q w1 where init: "run_until (init_plugin env) (plugins (w_app w)) w = (q, w1)"
    by (cases "run_until (init_plugin env) (plugins (w_app w)) w")
  from Run_follows_protocol[OF assms init] obtain tr where tr: "w_trace w' = w_trace w @ tr"
    "run_protocol (NotifyContext ctx)
      (WithTimeout (WithoutCancel (NotifyContext ctx)) (shutdownTimeout (w_app w)))
      (plugins (w_app w)) (w_app w1) tr r" by blast
  from protocol_ctx[OF tr(2)] have "StartCall nc c x \<in> set tr \<Longrightarrow> c = NotifyContext ctx"
    "StopCall nc c x \<in> set tr \<or> BeforeStopCall h c \<in> set tr \<or> AfterStopCall h c e \<in> set tr \<Longrightarrow>
      c = WithTimeout (WithoutCancel (NotifyContext ctx)) (shutdownTimeout (w_app w))"
    for nc c x h e by fastforce+
  with tr(1) show ?thesis by force
qed

theorem Run_shutdown_context_witness:
  "\<exists>w' tr. Run quiet_env Background start_world = Some (None, w') \<and>
    w_trace w' = w_trace start_world @ tr \<and>
    (\<forall>nc c x h e. StopCall nc c x \<in> set tr \<or> BeforeStopCall h c \<in> set tr \<or> AfterStopCall h c e \<in> set tr \<longrightarrow>
       cancel_sources c = {Deadline (shutdownTimeout (w_app start_world))})"
  using quiet_run Run_shutdown_context[of quiet_env Background start_world None] by blast

text \<open>C39: After a failed start-up no plugin is closed: in a run that recorded a failing plugin
  \<open>Init\<close>, before-start hook or \<open>Start\<close>, no plugin's \<open>Close\<close> is called, although every plugin before
  the failing one (or all of them) was initialised.\<close>

theorem Run_failed_startup_skips_plugin_close:
  assumes "Run env ctx w = Some (r, w')" and "w_trace w' = w_trace w @ tr"
    and "ev \<in> set tr" and "startup_error ev"
  shows "PluginClose p q \<notin> set tr"
proof -
  obtain q' w1 where init: "run_until (init_plugin env) (plugins (w_app w)) w = (q', w1)"
    by (cases "run_until (init_plugin env) (plugins (w_app w)) w")
  from Run_follows_protocol[OF assms(1) init] obtain tr' where "w_trace w' = w_trace w @ tr'"
    "run_protocol (NotifyContext ctx)
      (WithTimeout (WithoutCancel (NotifyContext ctx)) (shutdownTimeout (w_app w)))
      (plugins (w_app w)) (w_app w1) tr' r" by blast
  with assms(2-4) protocol_failed_no_close show ?thesis by (metis same_append_eq)
qed

theorem Run_failed_startup_skips_plugin_close_witness:
  "\<exists>r w'. Run failing_env Background start_world = Some (Some r, w') \<and>
     PluginInit 7 None \<in> set (w_trace w') \<and> PluginClose 7 None \<notin> set (w_trace w')"
proof -
  from failing_run obtain r w' where run: "Run failing_env Background start_world = Some (Some r, w')"
    and tr: "PluginInit 7 None \<in> set (w_trace w')"
    "StartCall \<lparr>nc_name = ''server'', nc_component = 2\<rparr> (NotifyContext Background)
       (Some (ErrNew ''refused'')) \<in> set (w_trace w')" by auto
  have "w_trace w' = w_trace start_world @ w_trace w'" by (simp add: start_world_def)
  from Run_failed_startup_skips_plugin_close[OF run this tr(2)] run tr(1) show ?thesis by auto
qed

text \<open>C21: In every application built with \<open>New\<close>, \<open>Register\<close>, \<open>Use\<close> and the hook registrations, by
  the caller or by plugins, component names are unique, \<open>Component\<close> finds every registered
  component under its name, and \<open>HealthCheckers\<close> is exactly the registered components that
  implement \<open>HealthChecker\<close>, under their names.\<close>

theorem reachable_app_registry:
  assumes "reachable_app named a"
  shows "distinct (map nc_name (components a)) \<and>
    (\<forall>nc \<in> set (components a). Component (nc_name nc) a = Some (nc_component nc)) \<and>
    HealthCheckers is_hc a =
      (\<lambda>nm. case Component nm a of Some c \<Rightarrow> if is_hc c then Some c else None | None \<Rightarrow> None)"
proof -
  from reachable_app_inv[OF assms] have d: "distinct (map nc_name (components a))"
    by (simp add: app_inv_def)
  then have "HealthCheckers is_hc a =
      (\<lambda>nm. case Component nm a of Some c \<Rightarrow> if is_hc c then Some c else None | None \<Rightarrow> None)"
    unfolding HealthCheckers_def Component_def by (intro ext) (simp add: HealthCheckers_fold)
  with d show ?thesis by (simp add: Component_def find_component_mem)
qed

theorem reachable_app_registry_witness:
  "distinct (map nc_name (components two_components)) \<and> Component ''db'' two_components = Some 1 \<and>
   HealthCheckers (\<lambda>c. c = 2) two_components = [''server'' \<mapsto> 2]"
proof -
  have r: "reachable_app (\<lambda>c. None) two_components" unfolding two_components_def
    by (intro reachable_app.use_plugins reachable_app.step[OF _ plugin_step.register] reachable_app.new)
  have c: "components two_components = [\<lparr>nc_name = ''db'', nc_component = 1\<rparr>, \<lparr>nc_name = ''server'', nc_component = 2\<rparr>]"
    by (simp add: two_components_def Use_def Register_def New_def)
  note p = reachable_app_registry[OF r, of "\<lambda>c. c = 2"]
  have f: "Component nm two_components = (if nm = ''db'' then Some 1 else if nm = ''server'' then Some 2 else None)" for nm
    by (simp add: Component_def c)
  have "HealthCheckers (\<lambda>c. c = 2) two_components =
      (\<lambda>nm. case Component nm two_components of Some c \<Rightarrow> if c = 2 then Some c else None | None \<Rightarrow> None)"
    using p by blast
  also have "\<dots> = [''server'' \<mapsto> 2]" by (rule ext) (simp add: f)
  finally show ?thesis using p f[of "''db''"] by simp
qed

text \<open>\<open>Register\<close> on both branches. On success the component is found under its resolved name
  (its declared name when it has one), every other lookup is unchanged; on a duplicate name the
  error is returned and the application is untouched.\<close>

lemma Register_lookup:
  "case Register named nm c a of
     (None, b) \<Rightarrow> Component (case named c of Some n \<Rightarrow> n | None \<Rightarrow> nm) a = None \<and>
       Component x b = (if x = (case named c of Some n \<Rightarrow> n | None \<Rightarrow> nm) then Some c else Component x a)
   | (Some e, b) \<Rightarrow> b = a \<and> Component (case named c of Some n \<Rightarrow> n | None \<Rightarrow> nm) a \<noteq> None"
proof -
  define n where "n = (case named c of Some n \<Rightarrow> n | None \<Rightarrow> nm)"
  have dup: "list_ex (\<lambda>nc. nc_name nc = n) (components a) \<longleftrightarrow> Component n a \<noteq> None"
    unfolding Component_def find_component_None by (auto simp: list_ex_iff)
  have reg: "Register named nm c a = (if Component n a \<noteq> None
      then (Some (Errorf [Lit ''platform: register: component '', PQ n, Lit '' already exists'']), a)
      else (None, a\<lparr>components := components a @ [\<lparr>nc_name = n, nc_component = c\<rparr>]\<rparr>))"
    unfolding Register_def Let_def n_def[symmetric] dup ..
  show ?thesis unfolding reg n_def[symmetric]
    by (auto simp: Component_def find_component_append split: option.splits)
qed

end
