(* ===== verification/Broker.thy ===== *)
theory Broker
  imports Lifecycle
begin

text \<open>
  The broker contract, \<open>src/pkg/broker/broker.go\<close> and \<open>errors.go\<close>: messages, handlers,
  middleware, publish hooks, and the \<open>Publisher\<close> interface as a locale. \<open>applyMiddleware\<close>, which
  the three implementations each carry, is here once.

  A \<open>Message.Headers\<close> map is the list of its entries in the order \<open>range\<close> visits them (Go leaves
  that order open; the theorems hold for every order). Byte slices and strings are both byte
  lists, so the conversions between them are identities.
\<close>

type_synonym bytes = string
type_synonym headers = "(string \<times> string) list"

record message =
  m_topic :: string
  m_key :: bytes
  m_value :: bytes
  m_headers :: headers
  m_partition :: int
  m_offset :: int

type_synonym 's handler = "ctx \<Rightarrow> message \<Rightarrow> 's fallible"
type_synonym 's middleware = "'s handler \<Rightarrow> 's handler"

text \<open>A hook gets a pointer to the message: it acts on the message and on the world.\<close>

type_synonym 's publish_hook = "ctx \<Rightarrow> (message \<times> 's) fallible"

definition ErrBrokerUnavailable :: goerr where
  "ErrBrokerUnavailable = ErrNew ''broker: unavailable''"

definition ErrDLQFailed :: goerr where
  "ErrDLQFailed = ErrNew ''broker: dlq publish failed''"

section \<open>Middleware and hooks\<close>

text \<open>The loop from the last middleware down to the first.\<close>

definition applyMiddleware :: "'s handler \<Rightarrow> 's middleware list \<Rightarrow> 's handler" where
  "applyMiddleware h mws = fold (\<lambda>mw h. mw h) (rev mws) h"

lemma applyMiddleware_simps [simp]:
  "applyMiddleware h [] = h"
  "applyMiddleware h (mw # mws) = mw (applyMiddleware h mws)"
  by (simp_all add: applyMiddleware_def)

definition run_hooks :: "'s publish_hook list \<Rightarrow> ctx \<Rightarrow> (message \<times> 's) fallible" where
  "run_hooks hooks ctx = run_until (\<lambda>hook. hook ctx) hooks"

text \<open>A middleware that acts before and after the handler it wraps.\<close>

definition around :: "('s \<Rightarrow> 's) \<times> ('s \<Rightarrow> 's) \<Rightarrow> 's middleware" where
  "around p h = (\<lambda>ctx m s. case h ctx m (fst p s) of (r, t) \<Rightarrow> (r, snd p t))"

section \<open>The Publisher interface\<close>

text \<open>
  The contract of a publisher without native batches: \<open>PublishBatch\<close> sends the messages one by one
  with \<open>Publish\<close>, returns at the first error and rolls nothing back.
\<close>

locale publisher =
  fixes publish :: "ctx \<Rightarrow> message \<Rightarrow> 's fallible"
    and publish_batch :: "ctx \<Rightarrow> message list \<Rightarrow> 's fallible"
  assumes batch_Nil: "publish_batch c [] s = (None, s)"
    and batch_Cons: "publish_batch c (m # ms) s =
      (case publish c m s of (Some e, t) \<Rightarrow> (Some e, t) | (None, t) \<Rightarrow> publish_batch c ms t)"
begin

lemma batch_run_until: "publish_batch c ms s = run_until (publish c) ms s"
  by (induction ms arbitrary: s) (simp_all add: batch_Nil batch_Cons split: prod.splits option.splits)

lemma batch_single: "publish_batch c [m] s = publish c m s"
  by (simp add: batch_run_until split: prod.splits option.splits)

text \<open>Two batches in a row are one batch.\<close>

lemma batch_append:
  "publish_batch c (ms @ ns) s =
     (case publish_batch c ms s of (Some e, t) \<Rightarrow> (Some e, t) | (None, t) \<Rightarrow> publish_batch c ns t)"
  by (simp add: batch_run_until run_until_append split: prod.splits option.splits)

text \<open>A failed batch has sent a prefix; the failing message is the one after it, the rest is unsent.\<close>

lemma batch_first_error:
  "publish_batch c ms s = (Some e, t) \<Longrightarrow>
     \<exists>sent m rest u. ms = sent @ m # rest \<and> publish_batch c sent s = (None, u) \<and> publish c m u = (Some e, t)"
  unfolding batch_run_until by (rule run_until_Some_split)

end

section \<open>Properties\<close>

text \<open>Middleware wraps like an onion: with middleware that acts before and after the handler it
  wraps, the first registered acts first on the way in and last on the way out, and the handler's
  result is returned unchanged.\<close>

lemma applyMiddleware_onion:
  "applyMiddleware h (map around ps) ctx m s =
     (case h ctx m (fold fst ps s) of (r, t) \<Rightarrow> (r, fold snd (rev ps) t))"
  by (induction ps arbitrary: s) (simp_all add: around_def split: prod.splits)

end
