(* ===== verification/Delivery.thy ===== *)
theory Delivery
  imports Broker "HOL-Library.Word"
begin

text \<open>
  What the Kafka consumer and the NATS subscriber share: the retry loop of their \<open>processMessage\<close>
  methods (the same text in \<open>src/pkg/broker/kafka/consumer.go\<close> and
  \<open>src/pkg/broker/nats/subscriber.go\<close>), the calls such a method makes as a trace, and the
  abstract specification \<open>delivery\<close> of one message's fate, with the facts that follow from it
  proved once in the locale \<open>delivery_contract\<close>.

  The type \<open>'k\<close> is what a message can be settled with: a commit for Kafka, ack or nak for NATS.
\<close>

datatype 'k mevent =
    HandlerCall ctx message "goerr option"
  | BackoffWait int bool                    \<comment> \<open>the pause, and whether the context ended it\<close>
  | DLQPublish ctx message "goerr option"
  | Settle 'k "goerr option"

datatype retry_result = Finished "goerr option" | Interrupted

text \<open>
  \<open>for i := range attempts\<close>: the first argument is \<open>attempts - i\<close>, so \<open>i == attempts-1\<close> is \<open>n = 0\<close>
  below. \<open>wait\<close> is the \<open>select\<close> between the context and the retry timer; \<open>err\<close> is \<open>handlerErr\<close>.
\<close>

fun retry_loop :: "nat \<Rightarrow> (ctx \<Rightarrow> int \<Rightarrow> 's \<Rightarrow> bool \<times> 's) \<Rightarrow> int \<Rightarrow> 's handler \<Rightarrow> ctx \<Rightarrow> message \<Rightarrow>
    goerr option \<Rightarrow> 's \<Rightarrow> retry_result \<times> 'k mevent list \<times> 's" where
  "retry_loop 0 wait backoff h ctx msg err s = (Finished err, [], s)"
| "retry_loop (Suc n) wait backoff h ctx msg err s =
     (case h ctx msg s of
        (None, s1) \<Rightarrow> (Finished None, [HandlerCall ctx msg None], s1)
      | (Some e, s1) \<Rightarrow>
          if n = 0 then (Finished (Some e), [HandlerCall ctx msg (Some e)], s1)
          else (case wait ctx backoff s1 of
                  (True, s2) \<Rightarrow>
                    (Interrupted, [HandlerCall ctx msg (Some e), BackoffWait backoff True], s2)
                | (False, s2) \<Rightarrow>
                    (case retry_loop n wait backoff h ctx msg (Some e) s2 of
                       (r, tr, s3) \<Rightarrow>
                         (r, HandlerCall ctx msg (Some e) # BackoffWait backoff False # tr, s3))))"

text \<open>\<open>attempts := 1 + maxRetries\<close> on 64-bit integers, and \<open>range\<close> over a possibly negative count.\<close>

definition attempts :: "64 word \<Rightarrow> nat" where
  "attempts maxRetries = nat (sint (1 + maxRetries))"

lemma attempts_simps [simp]: "attempts 0 = 1" "attempts (- 1) = 0"
  by (simp_all add: attempts_def)

lemma attempts_eq:
  assumes "0 \<le> sint maxRetries" and "sint maxRetries < 2 ^ 63 - 1"
  shows "attempts maxRetries = Suc (nat (sint maxRetries))"
proof -
  have "sint (1 + maxRetries) = 1 + sint maxRetries"
    using assms by (simp add: sint_word_ariths signed_take_bit_int_eq_self)
  with assms show ?thesis by (simp add: attempts_def nat_add_distrib)
qed

section \<open>The fate of a message\<close>

text \<open>The failed attempts before the last one, each followed by a full pause.\<close>

definition retried :: "int \<Rightarrow> ctx \<Rightarrow> message \<Rightarrow> goerr list \<Rightarrow> 'k mevent list" where
  "retried backoff ctx msg fs =
     concat (map (\<lambda>e. [HandlerCall ctx msg (Some e), BackoffWait backoff False]) fs)"

lemma retried_simps [simp]:
  "retried b ctx msg [] = []"
  "retried b ctx msg (e # fs) = HandlerCall ctx msg (Some e) # BackoffWait b False # retried b ctx msg fs"
  by (simp_all add: retried_def)

datatype fate = Handled | DeadLettered | DLQFailed | Dropped | Aborted | NotAttempted

text \<open>
  \<open>delivery n dlq b ctx msg dmsg k fate tr\<close>: with \<open>n\<close> attempts, \<open>tr\<close> is a trace of processing \<open>msg\<close>
  that ends in \<open>fate\<close>; \<open>dlq\<close> says whether a dead-letter publisher is configured, \<open>dmsg\<close> is the
  message it gets, and \<open>k\<close> says how each fate settles the message, if at all.
\<close>

definition settled :: "'k option \<Rightarrow> 'k mevent list \<Rightarrow> bool" where
  "settled k tr \<longleftrightarrow> (case k of None \<Rightarrow> tr = [] | Some a \<Rightarrow> (\<exists>r. tr = [Settle a r]))"

inductive delivery :: "nat \<Rightarrow> bool \<Rightarrow> int \<Rightarrow> ctx \<Rightarrow> message \<Rightarrow> message \<Rightarrow> (fate \<Rightarrow> 'k option) \<Rightarrow>
    fate \<Rightarrow> 'k mevent list \<Rightarrow> bool"
  for n :: nat and dlq :: bool and b :: int and ctx :: ctx and msg :: message and dmsg :: message
    and k :: "fate \<Rightarrow> 'k option" where
  handled: "length fs < n \<Longrightarrow> settled (k Handled) post \<Longrightarrow>
    delivery n dlq b ctx msg dmsg k Handled (retried b ctx msg fs @ HandlerCall ctx msg None # post)"
| dead_lettered: "Suc (length fs) = n \<Longrightarrow> dlq \<Longrightarrow> settled (k DeadLettered) post \<Longrightarrow>
    delivery n dlq b ctx msg dmsg k DeadLettered
      (retried b ctx msg fs @ HandlerCall ctx msg (Some e) # DLQPublish ctx dmsg None # post)"
| dlq_failed: "Suc (length fs) = n \<Longrightarrow> dlq \<Longrightarrow> settled (k DLQFailed) post \<Longrightarrow>
    delivery n dlq b ctx msg dmsg k DLQFailed
      (retried b ctx msg fs @ HandlerCall ctx msg (Some e) # DLQPublish ctx dmsg (Some e') # post)"
| dropped: "Suc (length fs) = n \<Longrightarrow> \<not> dlq \<Longrightarrow> settled (k Dropped) post \<Longrightarrow>
    delivery n dlq b ctx msg dmsg k Dropped
      (retried b ctx msg fs @ HandlerCall ctx msg (Some e) # post)"
| aborted: "Suc (length fs) < n \<Longrightarrow> settled (k Aborted) post \<Longrightarrow>
    delivery n dlq b ctx msg dmsg k Aborted
      (retried b ctx msg fs @ HandlerCall ctx msg (Some e) # BackoffWait b True # post)"
| not_attempted: "n = 0 \<Longrightarrow> settled (k NotAttempted) post \<Longrightarrow>
    delivery n dlq b ctx msg dmsg k NotAttempted post"

text \<open>The retry loop makes the calls the specification has before the message is settled.\<close>

fun retry_spec :: "nat \<Rightarrow> int \<Rightarrow> ctx \<Rightarrow> message \<Rightarrow> retry_result \<Rightarrow> 'k mevent list \<Rightarrow> bool" where
  "retry_spec n b ctx msg (Finished None) tr \<longleftrightarrow>
     (\<exists>fs. length fs < n \<and> tr = retried b ctx msg fs @ [HandlerCall ctx msg None])"
| "retry_spec n b ctx msg (Finished (Some e)) tr \<longleftrightarrow>
     (\<exists>fs. Suc (length fs) = n \<and> tr = retried b ctx msg fs @ [HandlerCall ctx msg (Some e)])"
| "retry_spec n b ctx msg Interrupted tr \<longleftrightarrow>
     (\<exists>fs e. Suc (length fs) < n \<and>
        tr = retried b ctx msg fs @ [HandlerCall ctx msg (Some e), BackoffWait b True])"

lemma retry_spec_first:
  "retry_spec (Suc n) b ctx msg (Finished None) [HandlerCall ctx msg None]"
  "retry_spec (Suc 0) b ctx msg (Finished (Some e)) [HandlerCall ctx msg (Some e)]"
  "0 < n \<Longrightarrow> retry_spec (Suc n) b ctx msg Interrupted [HandlerCall ctx msg (Some e), BackoffWait b True]"
  by (auto intro!: exI[of _ "[]"])

lemma retry_spec_again:
  assumes "retry_spec n b ctx msg r tr"
  shows "retry_spec (Suc n) b ctx msg r (HandlerCall ctx msg (Some e) # BackoffWait b False # tr)"
proof (cases r)
  case (Finished res)
  show ?thesis
  proof (cases res)
    case None
    with Finished assms obtain fs where "length fs < n" "tr = retried b ctx msg fs @ [HandlerCall ctx msg None]"
      by auto
    with Finished None show ?thesis by (auto intro!: exI[of _ "e # fs"])
  next
    case (Some e')
    with Finished assms obtain fs where "Suc (length fs) = n"
      "tr = retried b ctx msg fs @ [HandlerCall ctx msg (Some e')]" by auto
    with Finished Some show ?thesis by (auto intro!: exI[of _ "e # fs"])
  qed
next
  case Interrupted
  with assms obtain fs e' where "Suc (length fs) < n"
    "tr = retried b ctx msg fs @ [HandlerCall ctx msg (Some e'), BackoffWait b True]" by auto
  with Interrupted show ?thesis by (auto intro!: exI[of _ "e # fs"])
qed

lemma retry_loop_spec:
  fixes tr :: "'k mevent list"
  assumes "retry_loop n wait b h ctx msg err s = (r, tr, t)" and "0 < n"
  shows "retry_spec n b ctx msg r tr"
  using assms
proof (induction n arbitrary: err s r tr t)
  case (Suc n)
  obtain res s1 where h: "h ctx msg s = (res, s1)" by (cases "h ctx msg s")
  show ?case
  proof (cases res)
    case None
    with h Suc.prems show ?thesis by (auto intro: retry_spec_first)
  next
    case (Some e)
    obtain d s2 where w: "wait ctx b s1 = (d, s2)" by (cases "wait ctx b s1")
    obtain r' t' and tr' :: "'k mevent list" where l: "retry_loop n wait b h ctx msg (Some e) s2 = (r', tr', t')"
      by (rule prod_cases3)
    from h w l Some Suc.prems Suc.IH[OF l] show ?thesis
      by (cases "n = 0"; cases d) (auto simp del: retry_spec.simps intro: retry_spec_first retry_spec_again)
  qed
qed simp

text \<open>The calls after the retry loop, as the specification has them.\<close>

fun finish_spec :: "bool \<Rightarrow> ctx \<Rightarrow> message \<Rightarrow> (fate \<Rightarrow> 'k option) \<Rightarrow> goerr option \<Rightarrow> 'k mevent list \<Rightarrow> bool" where
  "finish_spec dlq ctx dmsg k None post \<longleftrightarrow> settled (k Handled) post"
| "finish_spec dlq ctx dmsg k (Some e) post \<longleftrightarrow>
     (if dlq then
        (\<exists>p. post = DLQPublish ctx dmsg None # p \<and> settled (k DeadLettered) p) \<or>
        (\<exists>e' p. post = DLQPublish ctx dmsg (Some e') # p \<and> settled (k DLQFailed) p)
      else settled (k Dropped) post)"

lemma finished_delivery:
  assumes sp: "retry_spec n b ctx msg (Finished hr) tr" and fin: "finish_spec dlq ctx dmsg k hr post"
  shows "\<exists>f. delivery n dlq b ctx msg dmsg k f (tr @ post)"
proof (cases hr)
  case None
  with sp obtain fs where "length fs < n" "tr = retried b ctx msg fs @ [HandlerCall ctx msg None]" by auto
  with fin None show ?thesis by (auto intro!: exI delivery.handled)
next
  case (Some e)
  with sp obtain fs where fs: "Suc (length fs) = n"
    "tr = retried b ctx msg fs @ [HandlerCall ctx msg (Some e)]" by auto
  from Some fin consider (dropped) "\<not> dlq" "settled (k Dropped) post"
    | (dead) p where "dlq" "post = DLQPublish ctx dmsg None # p" "settled (k DeadLettered) p"
    | (failed) e' p where "dlq" "post = DLQPublish ctx dmsg (Some e') # p" "settled (k DLQFailed) p"
    by (auto split: if_splits)
  then show ?thesis
  proof cases
    case dropped
    with delivery.dropped[OF fs(1), of dlq k post b ctx msg dmsg e] fs(2) show ?thesis by auto
  next
    case dead
    with delivery.dead_lettered[OF fs(1), of dlq k p b ctx msg dmsg e] fs(2) show ?thesis by auto
  next
    case failed
    with delivery.dlq_failed[OF fs(1), of dlq k p b ctx msg dmsg e e'] fs(2) show ?thesis by auto
  qed
qed

text \<open>
  A \<open>processMessage\<close> built from the retry loop and a finish that meets \<open>finish_spec\<close> meets the
  specification; an interrupted retry settles nothing, no attempt counts as a success.
\<close>

lemma deliver_fate:
  fixes tr :: "'k mevent list"
  assumes l: "retry_loop n wait b h ctx msg None s = (res, tr, s1)"
    and k: "k Aborted = None" "k NotAttempted = k Handled"
    and fin: "\<And>hr. res = Finished hr \<Longrightarrow> finish_spec dlq ctx dmsg k hr post"
  shows "\<exists>f. delivery n dlq b ctx msg dmsg k f (case res of Interrupted \<Rightarrow> tr | Finished hr \<Rightarrow> tr @ post)"
proof (cases "n = 0")
  case True
  with l fin[of None] k show ?thesis by (auto intro!: exI[of _ NotAttempted] delivery.not_attempted)
next
  case False
  with retry_loop_spec[OF l] have sp: "retry_spec n b ctx msg res tr" by simp
  show ?thesis
  proof (cases res)
    case (Finished hr)
    with sp fin finished_delivery show ?thesis by fastforce
  next
    case Interrupted
    with sp obtain fs e where "Suc (length fs) < n"
      "tr = retried b ctx msg fs @ [HandlerCall ctx msg (Some e), BackoffWait b True]" by auto
    with Interrupted k show ?thesis by (auto intro!: exI delivery.aborted[where post = "[]"] simp: settled_def)
  qed
qed

section \<open>Consequences, once for both brokers\<close>

definition handler_calls :: "'k mevent list \<Rightarrow> nat" where
  "handler_calls tr = length (filter (\<lambda>ev. case ev of HandlerCall _ _ _ \<Rightarrow> True | _ \<Rightarrow> False) tr)"

definition settlements :: "'k mevent list \<Rightarrow> 'k list" where
  "settlements tr = concat (map (\<lambda>ev. case ev of Settle a r \<Rightarrow> [a] | _ \<Rightarrow> []) tr)"

text \<open>The message was handled, or handed to the dead-letter topic.\<close>

definition taken_care_of :: "ctx \<Rightarrow> message \<Rightarrow> message \<Rightarrow> 'k mevent list \<Rightarrow> bool" where
  "taken_care_of ctx msg dmsg tr \<longleftrightarrow>
     HandlerCall ctx msg None \<in> set tr \<or> DLQPublish ctx dmsg None \<in> set tr"

lemma trace_simps [simp]:
  "handler_calls [] = 0"
  "handler_calls (HandlerCall c m r # tr) = Suc (handler_calls tr)"
  "handler_calls (BackoffWait b d # tr) = handler_calls tr"
  "handler_calls (DLQPublish c m r # tr) = handler_calls tr"
  "handler_calls (Settle a r # tr) = handler_calls tr"
  "settlements [] = []"
  "settlements (HandlerCall c m r # tr) = settlements tr"
  "settlements (BackoffWait b d # tr) = settlements tr"
  "settlements (DLQPublish c m r # tr) = settlements tr"
  "settlements (Settle a r # tr) = a # settlements tr"
  by (simp_all add: handler_calls_def settlements_def)

lemma trace_append [simp]:
  "handler_calls (tr @ tr') = handler_calls tr + handler_calls tr'"
  "settlements (tr @ tr') = settlements tr @ settlements tr'"
  by (simp_all add: handler_calls_def settlements_def)

lemma retried_trace [simp]:
  "handler_calls (retried b ctx msg fs) = length fs"
  "settlements (retried b ctx msg fs) = []"
  "HandlerCall c m None \<notin> set (retried b ctx msg fs)"
  "DLQPublish c m r \<notin> set (retried b ctx msg fs)"
  "BackoffWait b' True \<notin> set (retried b ctx msg fs)"
  by (induction fs) simp_all

lemma settled_trace:
  assumes "settled k tr"
  shows "handler_calls tr = 0" and "settlements tr = (case k of None \<Rightarrow> [] | Some a \<Rightarrow> [a])"
    and "HandlerCall c m r \<notin> set tr" and "DLQPublish c m r \<notin> set tr"
  using assms by (auto simp: settled_def split: option.splits)

text \<open>
  A broker client whose processing of a message has one of the fates of \<open>delivery\<close>, and settles the message
  according to one of the policies \<open>K\<close>: one for Kafka; for NATS the policy depends on what a shared field
  holds when the message is settled.
\<close>

locale delivery_contract =
  fixes process :: "'s \<Rightarrow> 'k mevent list \<times> 's"
    and n :: nat and dlq :: bool and b :: int and ctx :: ctx and msg :: message and dmsg :: message
    and K :: "(fate \<Rightarrow> 'k option) set"
  assumes process_delivery: "process s = (tr, t) \<Longrightarrow> \<exists>f. \<exists>k \<in> K. delivery n dlq b ctx msg dmsg k f tr"
begin

lemma handler_calls_le: "process s = (tr, t) \<Longrightarrow> handler_calls tr \<le> n"
  by (drule process_delivery) (auto elim!: delivery.cases simp: settled_trace)

lemma settlements_fate:
  assumes "process s = (tr, t)"
  obtains f k where "k \<in> K" and "delivery n dlq b ctx msg dmsg k f tr"
    and "settlements tr = (case k f of None \<Rightarrow> [] | Some a \<Rightarrow> [a])"
proof -
  from process_delivery[OF assms] obtain f k where k: "k \<in> K" and f: "delivery n dlq b ctx msg dmsg k f tr" by blast
  from f have "settlements tr = (case k f of None \<Rightarrow> [] | Some a \<Rightarrow> [a])"
    by cases (simp_all add: settled_trace)
  with k f that show thesis by blast
qed

lemma settled_at_most_once: "process s = (tr, t) \<Longrightarrow> length (settlements tr) \<le> 1"
  by (erule settlements_fate) (auto split: option.splits)

lemma taken_care_of_iff:
  assumes "process s = (tr, t)"
  shows "\<exists>f. \<exists>k \<in> K. delivery n dlq b ctx msg dmsg k f tr \<and>
    (taken_care_of ctx msg dmsg tr \<longleftrightarrow> f \<in> {Handled, DeadLettered}) \<and>
    settlements tr = (case k f of None \<Rightarrow> [] | Some a \<Rightarrow> [a])"
proof -
  from assms obtain f k where k: "k \<in> K" and f: "delivery n dlq b ctx msg dmsg k f tr"
    and st: "settlements tr = (case k f of None \<Rightarrow> [] | Some a \<Rightarrow> [a])" by (rule settlements_fate)
  from f have "taken_care_of ctx msg dmsg tr \<longleftrightarrow> f \<in> {Handled, DeadLettered}"
    by cases (auto simp: taken_care_of_def settled_trace)
  with k f st show ?thesis by blast
qed

end

end
