(* ===== verification/Kafka_Producer.thy ===== *)
theory Kafka_Producer
  imports Broker "HOL-Library.AList"
begin

text \<open>
  The Kafka publisher: \<open>src/pkg/broker/kafka/propagation.go\<close> and \<open>producer.go\<close>.

  The kafka-go writer and the OpenTelemetry propagator are not part of the repository. They are
  the fields of \<open>kafka_ops\<close>: what \<open>WriteMessages\<close> and \<open>Close\<close> do to the world, which header fields
  \<open>TraceContext.Inject\<close> sets for a context, which context \<open>Extract\<close> builds from the fields it
  reads, and the context a started span gives. Span attributes and logging are left out.
\<close>

section \<open>Header carriers\<close>

text \<open>
  What OpenTelemetry asks of a \<open>TextMapCarrier\<close>: a set field is read back, the other fields are
  unaffected, and a field is listed once it is set.
\<close>

locale text_map_carrier =
  fixes get :: "'c \<Rightarrow> string \<Rightarrow> string"
    and set_field :: "string \<Rightarrow> string \<Rightarrow> 'c \<Rightarrow> 'c"
    and keys :: "'c \<Rightarrow> string list"
  assumes get_set: "get (set_field k v c) k' = (if k' = k then v else get c k')"
    and keys_set: "set (keys (set_field k v c)) = insert k (set (keys c))"
    and get_absent: "k \<notin> set (keys c) \<Longrightarrow> get c k = ''''"
begin

definition inject :: "(string \<times> string) list \<Rightarrow> 'c \<Rightarrow> 'c" where
  "inject fs c = fold (\<lambda>(k, v). set_field k v) fs c"

text \<open>Injected fields are read back; of two values for one field the last wins.\<close>

lemma get_inject:
  "get (inject fs c) k = (case map_of (rev fs) k of Some v \<Rightarrow> v | None \<Rightarrow> get c k)"
proof (induction fs arbitrary: c)
  case (Cons f fs)
  then show ?case
    by (cases f) (auto simp: inject_def get_set map_add_def split: option.splits)
qed (simp add: inject_def)

lemma keys_inject: "set (keys (inject fs c)) = fst ` set fs \<union> set (keys c)"
  by (induction fs arbitrary: c) (auto simp: inject_def keys_set)

end

type_synonym kafka_header = "string \<times> bytes"

fun carrier_Get :: "kafka_header list \<Rightarrow> string \<Rightarrow> string" where
  "carrier_Get [] key = ''''"
| "carrier_Get (h # hs) key = (if fst h = key then snd h else carrier_Get hs key)"

fun carrier_Set :: "string \<Rightarrow> string \<Rightarrow> kafka_header list \<Rightarrow> kafka_header list" where
  "carrier_Set key val [] = [(key, val)]"
| "carrier_Set key val (h # hs) = (if fst h = key then (fst h, val) # hs else h # carrier_Set key val hs)"

definition carrier_Keys :: "kafka_header list \<Rightarrow> string list" where
  "carrier_Keys hs = map fst hs"

lemma carrier_Get_map_of: "carrier_Get hs k = (case map_of hs k of Some v \<Rightarrow> v | None \<Rightarrow> '''')"
  by (induction hs) auto

lemma map_of_carrier_Set: "map_of (carrier_Set k v hs) = (map_of hs)(k \<mapsto> v)"
  by (induction hs) (auto simp: fun_eq_iff)

lemma carrier_Keys_Set:
  "carrier_Keys (carrier_Set k v hs) = (if k \<in> set (carrier_Keys hs) then carrier_Keys hs else carrier_Keys hs @ [k])"
  by (induction hs) (auto simp: carrier_Keys_def)

interpretation kafka_carrier: text_map_carrier carrier_Get carrier_Set carrier_Keys
proof
  fix k v c k' show "carrier_Get (carrier_Set k v c) k' = (if k' = k then v else carrier_Get c k')"
    by (simp add: carrier_Get_map_of map_of_carrier_Set)
  fix k v c show "set (carrier_Keys (carrier_Set k v c)) = insert k (set (carrier_Keys c))"
    by (auto simp: carrier_Keys_Set)
  fix k and c :: "kafka_header list" assume "k \<notin> set (carrier_Keys c)"
  then have "map_of c k = None" by (simp add: map_of_eq_None_iff carrier_Keys_def)
  then show "carrier_Get c k = ''''" by (simp add: carrier_Get_map_of)
qed

section \<open>Producer\<close>

record kafka_writer =
  kw_addr :: "string list"
  kw_allow_auto_topic_creation :: bool

record kafka_message =
  km_topic :: string
  km_key :: bytes
  km_value :: bytes
  km_headers :: "kafka_header list"
  km_partition :: int
  km_offset :: int

record 's kafka_ops =
  write_messages :: "kafka_writer \<Rightarrow> ctx \<Rightarrow> kafka_message list \<Rightarrow> 's fallible"
  close_writer :: "kafka_writer \<Rightarrow> 's fallible"
  trace_fields :: "ctx \<Rightarrow> (string \<times> string) list"
  extract_fields :: "ctx \<Rightarrow> (string \<Rightarrow> string) \<Rightarrow> ctx"
  start_span :: "ctx \<Rightarrow> string \<Rightarrow> ctx"

definition InjectTraceContext :: "'s kafka_ops \<Rightarrow> ctx \<Rightarrow> kafka_header list \<Rightarrow> kafka_header list" where
  "InjectTraceContext ops ctx hs = fold (\<lambda>(k, v). carrier_Set k v) (trace_fields ops ctx) hs"

definition ExtractTraceContext :: "'s kafka_ops \<Rightarrow> ctx \<Rightarrow> kafka_header list \<Rightarrow> ctx" where
  "ExtractTraceContext ops ctx hs = extract_fields ops ctx (carrier_Get hs)"

record 's producer =
  pr_writer :: "kafka_writer option"
  pr_brokers :: "string list"
  pr_hooks :: "'s publish_hook list"
  pr_logger :: nat            \<comment> \<open>0 is the no-op logger\<close>
  pr_tracerProvider :: "nat option"

datatype 's producer_option =
    WithBrokers "string list"
  | WithPublishHook "'s publish_hook list"
  | WithProducerLogger nat
  | WithProducerTracerProvider nat

fun apply_producer_option :: "'s producer_option \<Rightarrow> 's producer \<Rightarrow> 's producer" where
  "apply_producer_option (WithBrokers addrs) p = p\<lparr>pr_brokers := addrs\<rparr>"
| "apply_producer_option (WithPublishHook hs) p = p\<lparr>pr_hooks := pr_hooks p @ hs\<rparr>"
| "apply_producer_option (WithProducerLogger l) p = p\<lparr>pr_logger := l\<rparr>"
| "apply_producer_option (WithProducerTracerProvider tp) p = p\<lparr>pr_tracerProvider := Some tp\<rparr>"

text \<open>\<open>global_tp\<close> is the provider \<open>otel.GetTracerProvider()\<close> returns.\<close>

definition NewProducer :: "nat \<Rightarrow> 's producer_option list \<Rightarrow> goerr + 's producer" where
  "NewProducer global_tp opts =
     (let p = fold apply_producer_option opts
                \<lparr>pr_writer = None, pr_brokers = [], pr_hooks = [], pr_logger = 0, pr_tracerProvider = None\<rparr>
      in if pr_brokers p = [] then Inl (Errorf [Lit ''kafka: producer requires at least one broker address''])
         else Inr (if pr_tracerProvider p = None then p\<lparr>pr_tracerProvider := Some global_tp\<rparr> else p))"

definition Producer_Start :: "('s producer \<times> 's) fallible" where
  "Producer_Start st =
     (let p = fst st in
      if pr_writer p \<noteq> None then (Some (Errorf [Lit ''kafka: producer already started'']), st)
      else (None, (p\<lparr>pr_writer := Some \<lparr>kw_addr = pr_brokers p, kw_allow_auto_topic_creation = False\<rparr>\<rparr>, snd st)))"

definition Producer_Stop :: "'s kafka_ops \<Rightarrow> ('s producer \<times> 's) fallible" where
  "Producer_Stop ops st =
     (case pr_writer (fst st) of
        None \<Rightarrow> (None, st)
      | Some w \<Rightarrow>
          (case close_writer ops w (snd st) of
             (err, s') \<Rightarrow> (map_option (\<lambda>e. Errorf [Lit ''kafka: producer close: '', PW e]) err,
                            ((fst st)\<lparr>pr_writer := None\<rparr>, s'))))"

definition Producer_Writer :: "'s producer \<Rightarrow> kafka_writer option" where
  "Producer_Writer p = pr_writer p"

text \<open>The kafka-go message built from a message the hooks have seen.\<close>

definition to_kafka :: "'s kafka_ops \<Rightarrow> ctx \<Rightarrow> message \<Rightarrow> kafka_message" where
  "to_kafka ops ctx msg =
     \<lparr>km_topic = m_topic msg, km_key = m_key msg, km_value = m_value msg,
      km_headers = InjectTraceContext ops ctx (m_headers msg), km_partition = 0, km_offset = 0\<rparr>"

definition Producer_Publish :: "'s kafka_ops \<Rightarrow> 's producer \<Rightarrow> ctx \<Rightarrow> message \<Rightarrow> 's fallible" where
  "Producer_Publish ops p ctx0 msg s =
     (let ctx = start_span ops ctx0 ''kafka.publish'' in
      case pr_writer p of
        None \<Rightarrow> (Some (Errorf [Lit ''kafka: producer not started'']), s)
      | Some w \<Rightarrow>
          (case run_hooks (pr_hooks p) ctx (msg, s) of
             (Some err, (_, s')) \<Rightarrow> (Some (Errorf [Lit ''kafka: publish hook: '', PW err]), s')
           | (None, (msg', s')) \<Rightarrow>
               (case write_messages ops w ctx [to_kafka ops ctx msg'] s' of
                  (Some err, s'') \<Rightarrow>
                    (Some (Errorf [Lit ''kafka: publish to '', PQ (m_topic msg'), Lit '': '', PW err]), s'')
                | (None, s'') \<Rightarrow> (None, s''))))"

text \<open>The first loop of \<open>PublishBatch\<close>: hooks and conversion, message by message.\<close>

fun build_batch :: "'s kafka_ops \<Rightarrow> 's producer \<Rightarrow> ctx \<Rightarrow> message list \<Rightarrow> kafka_message list \<Rightarrow> 's \<Rightarrow>
    (goerr + kafka_message list) \<times> 's" where
  "build_batch ops p ctx [] acc s = (Inr acc, s)"
| "build_batch ops p ctx (msg # msgs) acc s =
     (case run_hooks (pr_hooks p) ctx (msg, s) of
        (Some err, (_, s')) \<Rightarrow> (Inl (Errorf [Lit ''kafka: publish hook: '', PW err]), s')
      | (None, (msg', s')) \<Rightarrow> build_batch ops p ctx msgs (acc @ [to_kafka ops ctx msg']) s')"

definition Producer_PublishBatch :: "'s kafka_ops \<Rightarrow> 's producer \<Rightarrow> ctx \<Rightarrow> message list \<Rightarrow> 's fallible" where
  "Producer_PublishBatch ops p ctx msgs s =
     (case pr_writer p of
        None \<Rightarrow> (Some (Errorf [Lit ''kafka: producer not started'']), s)
      | Some w \<Rightarrow>
          (case build_batch ops p ctx msgs [] s of
             (Inl err, s') \<Rightarrow> (Some err, s')
           | (Inr kms, s') \<Rightarrow>
               apfst (map_option (\<lambda>err. Errorf [Lit ''kafka: publish batch: '', PW err]))
                 (write_messages ops w ctx kms s')))"

interpretation producer_lc: lifecycle Producer_Start "Producer_Stop ops"
  "\<lambda>st. pr_writer (fst st) \<noteq> None" for ops
proof
  show "pr_writer (fst s) \<noteq> None \<Longrightarrow> \<exists>e. Producer_Start s = (Some e, s)" for s
    by (simp add: Producer_Start_def)
  show "Producer_Start s = (None, t) \<Longrightarrow> pr_writer (fst t) \<noteq> None" for s t
    by (auto simp: Producer_Start_def Let_def split: if_splits)
  show "Producer_Start s = (Some e, t) \<Longrightarrow> (pr_writer (fst t) \<noteq> None) = (pr_writer (fst s) \<noteq> None)" for s e t
    by (auto simp: Producer_Start_def Let_def split: if_splits)
  show "\<not> pr_writer (fst s) \<noteq> None \<Longrightarrow> Producer_Stop ops s = (None, s)" for ops s
    by (simp add: Producer_Stop_def)
  show "Producer_Stop ops s = (r, t) \<Longrightarrow> \<not> pr_writer (fst t) \<noteq> None" for ops s r t
    by (auto simp: Producer_Stop_def split: option.splits prod.splits)
qed

lemma map_of_InjectTraceContext:
  "map_of (InjectTraceContext ops ctx hs) = map_of hs ++ map_of (rev (trace_fields ops ctx))"
proof -
  have "map_of (fold (\<lambda>(k, v). carrier_Set k v) fs hs) = map_of hs ++ map_of (rev fs)" for fs
  proof (induction fs arbitrary: hs)
    case (Cons f fs)
    then show ?case by (cases f) (auto simp: map_of_carrier_Set map_add_def fun_eq_iff split: option.splits)
  qed simp
  then show ?thesis by (simp add: InjectTraceContext_def)
qed

lemma distinct_carrier_Set: "distinct (map fst hs) \<Longrightarrow> distinct (map fst (carrier_Set k v hs))"
  using carrier_Keys_Set[of k v hs] by (auto simp: carrier_Keys_def)

lemma distinct_InjectTraceContext:
  "distinct (map fst hs) \<Longrightarrow> distinct (map fst (InjectTraceContext ops ctx hs))"
proof -
  have "distinct (map fst hs) \<Longrightarrow> distinct (map fst (fold (\<lambda>(k, v). carrier_Set k v) fs hs))" for fs
  proof (induction fs arbitrary: hs)
    case (Cons f fs)
    then show ?case by (cases f) (simp add: distinct_carrier_Set)
  qed simp
  then show "distinct (map fst hs) \<Longrightarrow> ?thesis" by (simp add: InjectTraceContext_def)
qed

text \<open>The messages of a batch as the hooks leave them, or the first hook error.\<close>

fun hook_all :: "'s publish_hook list \<Rightarrow> ctx \<Rightarrow> message list \<Rightarrow> 's \<Rightarrow> (goerr + message list) \<times> 's" where
  "hook_all hs ctx [] s = (Inr [], s)"
| "hook_all hs ctx (msg # msgs) s =
     (case run_hooks hs ctx (msg, s) of
        (Some e, (_, s1)) \<Rightarrow> (Inl e, s1)
      | (None, (msg', s1)) \<Rightarrow> apfst (map_sum id ((#) msg')) (hook_all hs ctx msgs s1))"

lemma build_batch_hook_all:
  "build_batch ops p ctx msgs acc s =
     apfst (map_sum (\<lambda>e. Errorf [Lit ''kafka: publish hook: '', PW e]) (\<lambda>ms. acc @ map (to_kafka ops ctx) ms))
       (hook_all (pr_hooks p) ctx msgs s)"
proof (induction msgs arbitrary: acc s)
  case (Cons msg msgs)
  show ?case
    by (simp add: Cons.IH apfst_compose sum.map_comp comp_def split: prod.splits option.splits)
qed simp

lemma to_kafka_writer: "to_kafka (ops\<lparr>write_messages := W\<rparr>) ctx = to_kafka ops ctx"
  by (rule ext) (simp add: to_kafka_def InjectTraceContext_def)

section \<open>Properties\<close>

text \<open>C25: A Kafka batch reaches the writer all at once or not at all. On a started producer, either
  every message passes the hooks and \<open>WriteMessages\<close> is called once, with all of them in order, each
  as the hooks left it and with the trace fields added; or some hook fails, the writer is never
  called (the result is the same whatever the writer would do) and the first hook error is returned
  wrapped.\<close>

theorem Producer_PublishBatch_all_or_nothing:
  assumes "pr_writer p = Some w"
  shows "case hook_all (pr_hooks p) ctx msgs s of
      (Inr ms, s') \<Rightarrow> (\<forall>W. Producer_PublishBatch (ops\<lparr>write_messages := W\<rparr>) p ctx msgs s =
        apfst (map_option (\<lambda>err. Errorf [Lit ''kafka: publish batch: '', PW err])) (W w ctx (map (to_kafka ops ctx) ms) s'))
    | (Inl e, s') \<Rightarrow> (\<forall>W. Producer_PublishBatch (ops\<lparr>write_messages := W\<rparr>) p ctx msgs s =
        (Some (Errorf [Lit ''kafka: publish hook: '', PW e]), s'))"
  using assms
  by (simp add: Producer_PublishBatch_def build_batch_hook_all to_kafka_writer split: prod.splits sum.splits)

definition demo_writer :: kafka_writer where
  "demo_writer = \<lparr>kw_addr = [''k:9092''], kw_allow_auto_topic_creation = False\<rparr>"

definition demo_producer :: "nat producer" where
  "demo_producer = \<lparr>pr_writer = Some demo_writer, pr_brokers = [''k:9092''],
     pr_hooks = [\<lambda>c st. (if m_value (fst st) = [] then Some (ErrNew ''empty'') else None, st)],
     pr_logger = 0, pr_tracerProvider = Some 1\<rparr>"

definition demo_kafka_ops :: "nat kafka_ops" where
  "demo_kafka_ops = \<lparr>write_messages = (\<lambda>w c ms n. (None, n + length ms)), close_writer = (\<lambda>w n. (None, n)),
     trace_fields = (\<lambda>c. [(''traceparent'', ''00-1'')]), extract_fields = (\<lambda>c f. c), start_span = (\<lambda>c n. c)\<rparr>"

definition kafka_demo_msg :: message where
  "kafka_demo_msg = \<lparr>m_topic = ''t'', m_key = ''k'', m_value = ''v'', m_headers = [], m_partition = 0, m_offset = 0\<rparr>"

theorem Producer_PublishBatch_all_or_nothing_witness:
  "Producer_PublishBatch (demo_kafka_ops\<lparr>write_messages := \<lambda>w c ms n. (Some ErrBrokerUnavailable, n + length ms)\<rparr>)
     demo_producer Background [kafka_demo_msg, kafka_demo_msg] 0 =
   (Some (Errorf [Lit ''kafka: publish batch: '', PW ErrBrokerUnavailable]), 2)"
proof -
  have w: "pr_writer demo_producer = Some demo_writer" by (simp add: demo_producer_def)
  have h: "hook_all (pr_hooks demo_producer) Background [kafka_demo_msg, kafka_demo_msg] 0 =
      (Inr [kafka_demo_msg, kafka_demo_msg], 0)"
    by (simp add: demo_producer_def kafka_demo_msg_def run_hooks_def)
  from Producer_PublishBatch_all_or_nothing[OF w, where ctx = Background and msgs = "[kafka_demo_msg, kafka_demo_msg]" and s = 0 and ops = demo_kafka_ops]
  show ?thesis unfolding h prod.case sum.case by simp
qed

end
