(* ===== verification/Kafka_Consumer.thy ===== *)
theory Kafka_Consumer
  imports Delivery Kafka_Producer
begin

text \<open>
  The Kafka subscriber, \<open>src/pkg/broker/kafka/consumer.go\<close>.

  The kafka-go reader is a handle; what \<open>NewReader\<close>, \<open>FetchMessage\<close>, \<open>CommitMessages\<close> and \<open>Close\<close>
  do is in \<open>reader_ops\<close>, with the cancellation of a context, the \<open>select\<close> between a context and the
  retry timer, and the wait for the goroutines. A \<open>Subscribe\<close> records the goroutine it spawns;
  the goroutine's body is \<open>consumeLoop\<close>.
\<close>

section \<open>The consumer and its options\<close>

type_synonym reader = nat

record loop =
  lp_ctx :: ctx
  lp_reader :: reader
  lp_topic :: string

record 's consumer =
  co_readers :: "reader list"
  co_cancels :: "ctx list"            \<comment> \<open>a cancel function is named by the context it ends\<close>
  co_brokers :: "string list"
  co_groupID :: string
  co_middlewares :: "'s middleware list"
  co_dlqPublisher :: "(ctx \<Rightarrow> message \<Rightarrow> 's fallible) option"
  co_dlqTopicSuffix :: string
  co_maxRetries :: "64 word"
  co_retryBackoff :: int
  co_logger :: nat                    \<comment> \<open>0 is the no-op logger\<close>
  co_tracerProvider :: "nat option"
  co_minBytes :: int
  co_maxBytes :: int
  co_maxWait :: int
  co_commitInterval :: int
  co_startOffset :: int
  co_startOffsetSet :: bool
  co_heartbeatInterval :: int
  co_sessionTimeout :: int
  co_rebalanceTimeout :: int
  co_partitionWatchInterval :: int

datatype 's consumer_option =
    WithConsumerBrokers "string list"
  | WithGroupID string
  | WithMiddleware "'s middleware list"
  | WithDLQ "ctx \<Rightarrow> message \<Rightarrow> 's fallible" string
  | WithRetry "64 word" int
  | WithConsumerLogger nat
  | WithConsumerTracerProvider nat
  | WithMinBytes int
  | WithMaxBytes int
  | WithMaxWait int
  | WithCommitInterval int
  | WithStartOffset int
  | WithHeartbeatInterval int
  | WithSessionTimeout int
  | WithRebalanceTimeout int
  | WithPartitionWatchInterval int

fun apply_consumer_option :: "'s consumer_option \<Rightarrow> 's consumer \<Rightarrow> 's consumer" where
  "apply_consumer_option (WithConsumerBrokers addrs) c = c\<lparr>co_brokers := addrs\<rparr>"
| "apply_consumer_option (WithGroupID gid) c = c\<lparr>co_groupID := gid\<rparr>"
| "apply_consumer_option (WithMiddleware mws) c = c\<lparr>co_middlewares := co_middlewares c @ mws\<rparr>"
| "apply_consumer_option (WithDLQ p sfx) c = c\<lparr>co_dlqPublisher := Some p, co_dlqTopicSuffix := sfx\<rparr>"
| "apply_consumer_option (WithRetry m b) c = c\<lparr>co_maxRetries := m, co_retryBackoff := b\<rparr>"
| "apply_consumer_option (WithConsumerLogger l) c = c\<lparr>co_logger := l\<rparr>"
| "apply_consumer_option (WithConsumerTracerProvider tp) c = c\<lparr>co_tracerProvider := Some tp\<rparr>"
| "apply_consumer_option (WithMinBytes n) c = c\<lparr>co_minBytes := n\<rparr>"
| "apply_consumer_option (WithMaxBytes n) c = c\<lparr>co_maxBytes := n\<rparr>"
| "apply_consumer_option (WithMaxWait d) c = c\<lparr>co_maxWait := d\<rparr>"
| "apply_consumer_option (WithCommitInterval d) c = c\<lparr>co_commitInterval := d\<rparr>"
| "apply_consumer_option (WithStartOffset off) c = c\<lparr>co_startOffset := off, co_startOffsetSet := True\<rparr>"
| "apply_consumer_option (WithHeartbeatInterval d) c = c\<lparr>co_heartbeatInterval := d\<rparr>"
| "apply_consumer_option (WithSessionTimeout d) c = c\<lparr>co_sessionTimeout := d\<rparr>"
| "apply_consumer_option (WithRebalanceTimeout d) c = c\<lparr>co_rebalanceTimeout := d\<rparr>"
| "apply_consumer_option (WithPartitionWatchInterval d) c = c\<lparr>co_partitionWatchInterval := d\<rparr>"

definition zero_consumer :: "'s consumer" where
  "zero_consumer =
     \<lparr>co_readers = [], co_cancels = [], co_brokers = [], co_groupID = [], co_middlewares = [],
      co_dlqPublisher = None, co_dlqTopicSuffix = [], co_maxRetries = 0, co_retryBackoff = 0,
      co_logger = 0, co_tracerProvider = None, co_minBytes = 0, co_maxBytes = 0, co_maxWait = 0,
      co_commitInterval = 0, co_startOffset = 0, co_startOffsetSet = False,
      co_heartbeatInterval = 0, co_sessionTimeout = 0, co_rebalanceTimeout = 0,
      co_partitionWatchInterval = 0\<rparr>"

definition NewConsumer :: "nat \<Rightarrow> 's consumer_option list \<Rightarrow> goerr + 's consumer" where
  "NewConsumer global_tp opts =
     (let c = fold apply_consumer_option opts zero_consumer in
      if co_brokers c = [] then Inl (Errorf [Lit ''kafka: consumer requires at least one broker address''])
      else Inr (if co_tracerProvider c = None then c\<lparr>co_tracerProvider := Some global_tp\<rparr> else c))"

definition Consumer_Readers :: "'s consumer \<Rightarrow> reader list" where
  "Consumer_Readers c = co_readers c"

definition Consumer_Start :: "('s consumer \<times> 's) fallible" where
  "Consumer_Start st = (None, st)"

section \<open>Subscribing\<close>

record reader_config =
  rc_brokers :: "string list"
  rc_topic :: string
  rc_groupID :: string
  rc_minBytes :: int
  rc_maxBytes :: int
  rc_maxWait :: int
  rc_commitInterval :: int
  rc_startOffset :: int
  rc_heartbeatInterval :: int
  rc_sessionTimeout :: int
  rc_rebalanceTimeout :: int
  rc_partitionWatchInterval :: int

text \<open>\<open>new_reader\<close> is \<open>None\<close> where \<open>NewReader\<close> panics on a configuration it rejects.\<close>

record 's reader_ops =
  new_reader :: "reader_config \<Rightarrow> 's \<Rightarrow> reader option \<times> 's"
  fetch_message :: "reader \<Rightarrow> ctx \<Rightarrow> 's \<Rightarrow> (goerr + kafka_message) \<times> 's"
  commit_messages :: "reader \<Rightarrow> ctx \<Rightarrow> kafka_message \<Rightarrow> 's fallible"
  close_reader :: "reader \<Rightarrow> 's fallible"
  cancel_context :: "ctx \<Rightarrow> 's \<Rightarrow> 's"
  wait_backoff :: "ctx \<Rightarrow> int \<Rightarrow> 's \<Rightarrow> bool \<times> 's"
  wait_loops :: "'s \<Rightarrow> 's"

definition set_positive :: "int \<Rightarrow> ((int \<Rightarrow> int) \<Rightarrow> 'r \<Rightarrow> 'r) \<Rightarrow> 'r \<Rightarrow> 'r" where
  "set_positive v update cfg = (if v > 0 then update (\<lambda>_. v) cfg else cfg)"

definition readerConfig :: "'s consumer \<Rightarrow> string \<Rightarrow> reader_config" where
  "readerConfig c topic =
     (let cfg0 = \<lparr>rc_brokers = co_brokers c, rc_topic = topic, rc_groupID = co_groupID c,
                  rc_minBytes = 0, rc_maxBytes = 0, rc_maxWait = 0, rc_commitInterval = 0,
                  rc_startOffset = 0, rc_heartbeatInterval = 0, rc_sessionTimeout = 0,
                  rc_rebalanceTimeout = 0, rc_partitionWatchInterval = 0\<rparr>;
          cfg1 = set_positive (co_minBytes c) rc_minBytes_update cfg0;
          cfg2 = set_positive (co_maxBytes c) rc_maxBytes_update cfg1;
          cfg3 = set_positive (co_maxWait c) rc_maxWait_update cfg2;
          cfg4 = set_positive (co_commitInterval c) rc_commitInterval_update cfg3;
          cfg5 = (if co_startOffsetSet c then cfg4\<lparr>rc_startOffset := co_startOffset c\<rparr> else cfg4);
          cfg6 = set_positive (co_heartbeatInterval c) rc_heartbeatInterval_update cfg5;
          cfg7 = set_positive (co_sessionTimeout c) rc_sessionTimeout_update cfg6;
          cfg8 = set_positive (co_rebalanceTimeout c) rc_rebalanceTimeout_update cfg7
      in set_positive (co_partitionWatchInterval c) rc_partitionWatchInterval_update cfg8)"

text \<open>
  The result is \<open>None\<close> when \<open>NewReader\<close> panics; otherwise the nil error, the consumer with its new
  reader and cancel function, and the goroutine that runs \<open>consumeLoop\<close> with the wrapped handler.
\<close>

definition Consumer_Subscribe :: "'s reader_ops \<Rightarrow> ctx \<Rightarrow> string \<Rightarrow> 's handler \<Rightarrow> 's consumer \<times> 's \<Rightarrow>
    (goerr option \<times> (loop \<times> 's handler) \<times> 's consumer) option \<times> 's" where
  "Consumer_Subscribe ops ctx topic h st =
     (let c = fst st in
      case new_reader ops (readerConfig c topic) (snd st) of
        (None, s') \<Rightarrow> (None, s')
      | (Some r, s') \<Rightarrow>
          let loopCtx = WithCancel ctx;
              c' = c\<lparr>co_readers := co_readers c @ [r], co_cancels := co_cancels c @ [loopCtx]\<rparr>;
              wrapped = applyMiddleware h (co_middlewares c)
          in (Some (None, (\<lparr>lp_ctx = loopCtx, lp_reader = r, lp_topic = topic\<rparr>, wrapped), c'), s'))"

section \<open>Stopping\<close>

datatype stop_event = CancelLoop ctx | CloseReader reader "goerr option" | WaitLoops

fun close_readers :: "'s reader_ops \<Rightarrow> reader list \<Rightarrow> goerr option \<Rightarrow> 's \<Rightarrow>
    goerr option \<times> stop_event list \<times> 's" where
  "close_readers ops [] firstErr s = (firstErr, [], s)"
| "close_readers ops (r # rs) firstErr s =
     (case close_reader ops r s of
        (err, s1) \<Rightarrow>
          let firstErr' = (if err \<noteq> None \<and> firstErr = None then err else firstErr) in
          case close_readers ops rs firstErr' s1 of
            (res, tr, s2) \<Rightarrow> (res, CloseReader r err # tr, s2))"

definition Consumer_Stop :: "'s reader_ops \<Rightarrow> 's consumer \<Rightarrow> 's \<Rightarrow> goerr option \<times> stop_event list \<times> 's" where
  "Consumer_Stop ops c s =
     (let s1 = fold (cancel_context ops) (co_cancels c) s in
      case close_readers ops (co_readers c) None s1 of
        (firstErr, tr, s2) \<Rightarrow>
          (map_option (\<lambda>e. Errorf [Lit ''kafka: consumer close: '', PW e]) firstErr,
           map CancelLoop (co_cancels c) @ tr @ [WaitLoops], wait_loops ops s2))"

section \<open>Processing a message\<close>

definition kafkaHeadersToMap :: "kafka_header list \<Rightarrow> headers" where
  "kafkaHeadersToMap hs = fold (\<lambda>h m. AList.update (fst h) (snd h) m) hs []"

text \<open>Settling a Kafka message is committing its offset.\<close>

datatype kafka_settle = Commit ctx kafka_message

definition message_context :: "'s kafka_ops \<Rightarrow> ctx \<Rightarrow> kafka_message \<Rightarrow> ctx" where
  "message_context kops ctx km = start_span kops (ExtractTraceContext kops ctx (km_headers km)) ''kafka.consume''"

definition from_kafka :: "string \<Rightarrow> kafka_message \<Rightarrow> message" where
  "from_kafka topic km =
     \<lparr>m_topic = topic, m_key = km_key km, m_value = km_value km, m_headers = kafkaHeadersToMap (km_headers km),
      m_partition = km_partition km, m_offset = km_offset km\<rparr>"

definition dlq_message :: "'s consumer \<Rightarrow> string \<Rightarrow> kafka_message \<Rightarrow> message" where
  "dlq_message c topic km =
     \<lparr>m_topic = topic @ co_dlqTopicSuffix c, m_key = km_key km, m_value = km_value km, m_headers = [],
      m_partition = 0, m_offset = 0\<rparr>"

definition commit_offset :: "'s reader_ops \<Rightarrow> reader \<Rightarrow> ctx \<Rightarrow> kafka_message \<Rightarrow> 's \<Rightarrow>
    kafka_settle mevent list \<times> 's" where
  "commit_offset ops r ctx km s = (case commit_messages ops r ctx km s of (err, s') \<Rightarrow> ([Settle (Commit ctx km) err], s'))"

text \<open>The code after the retry loop: dead-letter routing, then the commit.\<close>

definition finish_message :: "'s reader_ops \<Rightarrow> 's consumer \<Rightarrow> reader \<Rightarrow> string \<Rightarrow> kafka_message \<Rightarrow> ctx \<Rightarrow>
    goerr option \<Rightarrow> 's \<Rightarrow> kafka_settle mevent list \<times> 's" where
  "finish_message ops c r topic fetchMsg msgCtx handlerErr s =
     (case (handlerErr, co_dlqPublisher c) of
        (Some err, Some publish) \<Rightarrow>
          let dmsg = dlq_message c topic fetchMsg in
          (case publish msgCtx dmsg s of
             (Some dlqErr, s1) \<Rightarrow> ([DLQPublish msgCtx dmsg (Some dlqErr)], s1)
           | (None, s1) \<Rightarrow>
               apfst ((#) (DLQPublish msgCtx dmsg None)) (commit_offset ops r msgCtx fetchMsg s1))
      | _ \<Rightarrow> commit_offset ops r msgCtx fetchMsg s)"

definition processMessage :: "'s kafka_ops \<Rightarrow> 's reader_ops \<Rightarrow> 's consumer \<Rightarrow> ctx \<Rightarrow> reader \<Rightarrow> string \<Rightarrow>
    kafka_message \<Rightarrow> 's handler \<Rightarrow> 's \<Rightarrow> kafka_settle mevent list \<times> 's" where
  "processMessage kops ops c ctx r topic fetchMsg h s =
     (let msgCtx = message_context kops ctx fetchMsg;
          msg = from_kafka topic fetchMsg
      in case retry_loop (attempts (co_maxRetries c)) (wait_backoff ops) (co_retryBackoff c) h msgCtx msg None s of
           (Interrupted, tr, s1) \<Rightarrow> (tr, s1)
         | (Finished handlerErr, tr, s1) \<Rightarrow>
             apfst ((@) tr) (finish_message ops c r topic fetchMsg msgCtx handlerErr s1))"

text \<open>The loop ends at the first fetch error; \<open>None\<close> is a loop that never ends.\<close>

partial_function (option) consumeLoop :: "'s kafka_ops \<Rightarrow> 's reader_ops \<Rightarrow> 's consumer \<Rightarrow> ctx \<Rightarrow> reader \<Rightarrow>
    string \<Rightarrow> 's handler \<Rightarrow> 's \<Rightarrow> (kafka_settle mevent list \<times> 's) option" where
  "consumeLoop kops ops c ctx r topic h s =
     (case fetch_message ops r ctx s of
        (Inl err, s1) \<Rightarrow> Some ([], s1)
      | (Inr km, s1) \<Rightarrow>
          (case processMessage kops ops c ctx r topic km h s1 of
             (tr, s2) \<Rightarrow>
               Option.bind (consumeLoop kops ops c ctx r topic h s2) (\<lambda>(tr', s3). Some (tr @ tr', s3))))"

section \<open>What happens to a message\<close>

fun kafka_policy :: "ctx \<Rightarrow> kafka_message \<Rightarrow> fate \<Rightarrow> kafka_settle option" where
  "kafka_policy ctx km DLQFailed = None"
| "kafka_policy ctx km Aborted = None"
| "kafka_policy ctx km _ = Some (Commit ctx km)"

lemma commit_offset_settled:
  "commit_offset ops r ctx km s = (tr, t) \<Longrightarrow> settled (Some (Commit ctx km)) tr"
  by (auto simp: commit_offset_def settled_def split: prod.splits)

lemma finish_message_spec:
  assumes "finish_message ops c r topic km mc hr s = (post, t)"
  shows "finish_spec (co_dlqPublisher c \<noteq> None) mc (dlq_message c topic km) (kafka_policy mc km) hr post"
  using assms
  by (cases hr; cases "co_dlqPublisher c")
    (auto simp: finish_message_def Let_def apfst_def map_prod_def commit_offset_settled settled_def[of None]
      split: prod.splits option.splits dest: commit_offset_settled)

lemma processMessage_no_attempts:
  assumes "attempts (co_maxRetries c) = 0"
  shows "processMessage kops ops c ctx r topic km h s =
    finish_message ops c r topic km (message_context kops ctx km) None s"
  using assms by (simp add: processMessage_def apfst_def map_prod_def split: prod.splits)

text \<open>The specification of a message's fate, applied to a Kafka message.\<close>

abbreviation kafka_delivery :: "'s kafka_ops \<Rightarrow> 's consumer \<Rightarrow> ctx \<Rightarrow> string \<Rightarrow> kafka_message \<Rightarrow> fate \<Rightarrow>
    kafka_settle mevent list \<Rightarrow> bool" where
  "kafka_delivery kops c ctx topic km \<equiv>
     delivery (attempts (co_maxRetries c)) (co_dlqPublisher c \<noteq> None) (co_retryBackoff c)
       (message_context kops ctx km) (from_kafka topic km) (dlq_message c topic km)
       (kafka_policy (message_context kops ctx km) km)"

lemma processMessage_fate:
  assumes p: "processMessage kops ops c ctx r topic km h s = (tr, t)"
  shows "\<exists>f. kafka_delivery kops c ctx topic km f tr"
proof -
  define mc where "mc = message_context kops ctx km"
  obtain res s1 and tr1 :: "kafka_settle mevent list" where
    l: "retry_loop (attempts (co_maxRetries c)) (wait_backoff ops) (co_retryBackoff c) h mc
          (from_kafka topic km) None s = (res, tr1, s1)" by (rule prod_cases3)
  define hr where "hr = (case res of Finished hr \<Rightarrow> hr | Interrupted \<Rightarrow> None)"
  obtain post t' where fm: "finish_message ops c r topic km mc hr s1 = (post, t')"
    by (cases "finish_message ops c r topic km mc hr s1")
  from p l fm have "tr = (case res of Interrupted \<Rightarrow> tr1 | Finished hr \<Rightarrow> tr1 @ post)"
    by (auto simp: processMessage_def mc_def hr_def split: retry_result.splits)
  moreover have "\<And>hr'. res = Finished hr' \<Longrightarrow>
      finish_spec (co_dlqPublisher c \<noteq> None) mc (dlq_message c topic km) (kafka_policy mc km) hr' post"
    using finish_message_spec[OF fm] by (simp add: hr_def)
  ultimately show ?thesis using deliver_fate[OF l, of "kafka_policy mc km"] by (simp add: mc_def)
qed

interpretation kafka_msg: delivery_contract "processMessage kops ops c ctx r topic km h"
  "attempts (co_maxRetries c)" "co_dlqPublisher c \<noteq> None" "co_retryBackoff c"
  "message_context kops ctx km" "from_kafka topic km" "dlq_message c topic km"
  "{kafka_policy (message_context kops ctx km) km}" for kops ops c ctx r topic km h
proof
  show "\<exists>f. \<exists>k \<in> {kafka_policy (message_context kops ctx km) km}.
      delivery (attempts (co_maxRetries c)) (co_dlqPublisher c \<noteq> None) (co_retryBackoff c)
        (message_context kops ctx km) (from_kafka topic km) (dlq_message c topic km) k f tr"
    if "processMessage kops ops c ctx r topic km h s = (tr, t)" for s tr t
    using processMessage_fate[OF that] by simp
qed

section \<open>The consume loop\<close>

lemma processMessage_fate_fst:
  "\<exists>f. kafka_delivery kops c ctx topic km f (fst (processMessage kops ops c ctx r topic km h s))"
  by (rule processMessage_fate[of kops ops c ctx r topic km h s _ "snd (processMessage kops ops c ctx r topic km h s)"])
    simp

lemma consumeLoop_all:
  assumes fetch_err: "\<And>s. pending s = [] \<Longrightarrow> \<exists>e. fetch_message ops r ctx s = (Inl e, s)"
    and fetch_ok: "\<And>s km kms. pending s = km # kms \<Longrightarrow>
      \<exists>s1. fetch_message ops r ctx s = (Inr km, s1) \<and> pending s1 = kms"
    and proc: "\<And>km s. pending (snd (processMessage kops ops c ctx r topic km h s)) = pending s"
  shows "\<exists>trs t. consumeLoop kops ops c ctx r topic h s = Some (concat trs, t) \<and> pending t = [] \<and>
    list_all2 (\<lambda>km tr. \<exists>f. kafka_delivery kops c ctx topic km f tr) (pending s) trs"
proof (induction "pending s" arbitrary: s)
  case Nil
  then obtain e where "fetch_message ops r ctx s = (Inl e, s)" using fetch_err by metis
  with Nil have "consumeLoop kops ops c ctx r topic h s = Some (concat [], s)"
    by (subst consumeLoop.simps) simp
  with Nil show ?case by (intro exI[of _ "[]"] exI[of _ s]) simp
next
  case (Cons km kms)
  then obtain s1 where f: "fetch_message ops r ctx s = (Inr km, s1)" "pending s1 = kms" using fetch_ok by metis
  obtain tr s2 where p: "processMessage kops ops c ctx r topic km h s1 = (tr, s2)"
    by (cases "processMessage kops ops c ctx r topic km h s1")
  with f proc[of km s1] have k: "kms = pending s2" by simp
  from Cons(1)[OF k] obtain trs t where
    IH: "consumeLoop kops ops c ctx r topic h s2 = Some (concat trs, t)" "pending t = []"
      "list_all2 (\<lambda>km tr. \<exists>f. kafka_delivery kops c ctx topic km f tr) (pending s2) trs" by blast
  from f p IH have "consumeLoop kops ops c ctx r topic h s = Some (concat (tr # trs), t)"
    by (subst consumeLoop.simps) simp
  moreover have "pending s = km # pending s2" using Cons(2) k by simp
  then have "list_all2 (\<lambda>km tr. \<exists>f. kafka_delivery kops c ctx topic km f tr) (pending s) (tr # trs)"
    using IH(3) processMessage_fate[OF p] by simp
  ultimately show ?case using IH(2) by blast
qed

text \<open>Commits are made in fetch order, at most one per message.\<close>

lemma delivery_settlements:
  "kafka_delivery kops c ctx topic km f tr \<Longrightarrow> settlements tr \<in> {[], [Commit (message_context kops ctx km) km]}"
  by (erule delivery.cases) (simp_all add: settled_trace)

lemma settlements_concat:
  "list_all2 (\<lambda>km tr. \<exists>f. kafka_delivery kops c ctx topic km f tr) kms trs \<Longrightarrow>
     subseq (settlements (concat trs)) (map (\<lambda>km. Commit (message_context kops ctx km) km) kms)"
proof (induction rule: list_all2_induct)
  case (Cons km kms tr trs)
  then have "settlements tr \<in> {[], [Commit (message_context kops ctx km) km]}"
    using delivery_settlements by blast
  with Cons show ?case by auto
qed simp

section \<open>Runs of the loop\<close>

text \<open>A run of the loop, message by message: what was fetched and the calls made for it.\<close>

inductive loop_run :: "'s kafka_ops \<Rightarrow> 's reader_ops \<Rightarrow> 's consumer \<Rightarrow> ctx \<Rightarrow> reader \<Rightarrow> string \<Rightarrow> 's handler \<Rightarrow> 's \<Rightarrow>
    (kafka_message \<times> kafka_settle mevent list) list \<Rightarrow> 's \<Rightarrow> bool"
  for kops ops c ctx r topic h where
  ended: "fetch_message ops r ctx s = (Inl err, t) \<Longrightarrow> loop_run kops ops c ctx r topic h s [] t"
| fetched: "fetch_message ops r ctx s = (Inr km, s1) \<Longrightarrow> processMessage kops ops c ctx r topic km h s1 = (tr, s2) \<Longrightarrow>
    loop_run kops ops c ctx r topic h s2 runs t \<Longrightarrow> loop_run kops ops c ctx r topic h s ((km, tr) # runs) t"


text \<open>Every loop that returns has such a run.\<close>

lemma consumeLoop_loop_run:
  assumes "consumeLoop kops ops c ctx r topic h s = Some (tr, t)"
  shows "\<exists>runs. loop_run kops ops c ctx r topic h s runs t \<and> tr = concat (map snd runs)"
proof -
  have "\<exists>runs. loop_run kops ops c ctx r topic h s runs (snd y) \<and> fst y = concat (map snd runs)"
    if "consumeLoop kops ops c ctx r topic h s = Some y" for y
  proof (rule consumeLoop.raw_induct[OF _ that], goal_cases)
    case (1 loop kops ops c ctx r topic h s y)
    show ?case
    proof (cases "fetch_message ops r ctx s")
      case (Pair f s1)
      show ?thesis
      proof (cases f)
        case (Inl err)
        with 1(2) Pair loop_run.ended[of ops r ctx s err s1 kops c topic h] show ?thesis by fastforce
      next
        case (Inr km)
        obtain tr s2 where p: "processMessage kops ops c ctx r topic km h s1 = (tr, s2)" by fastforce
        from 1(2) Pair Inr p obtain y' where l: "loop kops ops c ctx r topic h s2 = Some y'" "y = (tr @ fst y', snd y')"
          by (auto simp: bind_eq_Some_conv)
        from 1(1)[OF l(1)] obtain runs where "loop_run kops ops c ctx r topic h s2 runs (snd y')" "fst y' = concat (map snd runs)" by blast
        with loop_run.fetched[of ops r ctx s km s1] Pair Inr p l(2) show ?thesis by (intro exI[of _ "(km, tr) # runs"]) simp
      qed
    qed
  qed
  with assms show ?thesis by force
qed








section \<open>Closing\<close>

lemma close_readers_trace:
  "case close_readers ops rs fe s of (res, tr, t) \<Rightarrow>
     \<exists>ress. length ress = length rs \<and> tr = map2 CloseReader rs ress \<and>
       res = (case fe of Some e \<Rightarrow> Some e | None \<Rightarrow> (case somes ress of [] \<Rightarrow> None | e # _ \<Rightarrow> Some e))"
proof (induction rs arbitrary: fe s)
  case (Cons r rs)
  obtain err s1 where c: "close_reader ops r s = (err, s1)" by (cases "close_reader ops r s")
  define fe' where "fe' = (if err \<noteq> None \<and> fe = None then err else fe)"
  obtain res tr t where l: "close_readers ops rs fe' s1 = (res, tr, t)" by (rule prod_cases3)
  with Cons.IH[of fe' s1] obtain ress where "length ress = length rs" "tr = map2 CloseReader rs ress"
    "res = (case fe' of Some e \<Rightarrow> Some e | None \<Rightarrow> (case somes ress of [] \<Rightarrow> None | e # _ \<Rightarrow> Some e))" by auto
  with c l show ?case
    by (auto simp: fe'_def[symmetric] Let_def simp del: somes_eq_Nil intro!: exI[of _ "err # ress"])
      (auto simp: fe'_def split: option.splits if_splits)
qed (simp split: option.splits)

section \<open>Headers\<close>

lemma map_of_kafkaHeadersToMap: "map_of (kafkaHeadersToMap hs) = map_of (rev hs)"
proof -
  have "map_of (fold (\<lambda>h m. AList.update (fst h) (snd h) m) hs m) = map_of m ++ map_of (rev hs)" for m
  proof (induction hs arbitrary: m)
    case (Cons h hs)
    then show ?case by (cases h) (auto simp: update_conv' map_add_def fun_eq_iff split: option.splits)
  qed simp
  then show ?thesis by (simp add: kafkaHeadersToMap_def)
qed

section \<open>Properties\<close>

text \<open>
  A consumer to run the theorems on: the world is the queue of messages the reader has left; the
  handler refuses the value \<open>bad\<close>, the dead-letter publisher of \<open>demo_consumer down\<close> fails when
  \<open>down\<close> holds.
\<close>

definition demo_consumer :: "64 word \<Rightarrow> bool \<Rightarrow> kafka_message list consumer" where
  "demo_consumer retries down =
     zero_consumer\<lparr>co_brokers := [''k:9092''], co_maxRetries := retries, co_retryBackoff := second,
       co_dlqPublisher := Some (\<lambda>ctx m s. (if down then Some ErrBrokerUnavailable else None, s)),
       co_dlqTopicSuffix := ''.dlq''\<rparr>"

definition demo_handler :: "kafka_message list handler" where
  "demo_handler ctx m s = (if m_value m = ''bad'' then Some (ErrNew ''bad'') else None, s)"

definition demo_reader :: "kafka_message list reader_ops" where
  "demo_reader =
     \<lparr>new_reader = (\<lambda>cfg s. (Some 0, s)),
      fetch_message = (\<lambda>r ctx s. case s of [] \<Rightarrow> (Inl (ErrNew ''EOF''), []) | km # kms \<Rightarrow> (Inr km, kms)),
      commit_messages = (\<lambda>r ctx km s. (None, s)), close_reader = (\<lambda>r s. (None, s)),
      cancel_context = (\<lambda>c s. s), wait_backoff = (\<lambda>c b s. (False, s)), wait_loops = (\<lambda>s. s)\<rparr>"

definition demo_kops :: "kafka_message list kafka_ops" where
  "demo_kops = \<lparr>write_messages = (\<lambda>w c ms s. (None, s @ ms)), close_writer = (\<lambda>w s. (None, s)),
     trace_fields = (\<lambda>c. [(''traceparent'', ''00-1'')]), extract_fields = (\<lambda>c f. c), start_span = (\<lambda>c n. c)\<rparr>"

definition demo_km :: "string \<Rightarrow> int \<Rightarrow> kafka_message" where
  "demo_km v off = \<lparr>km_topic = ''t'', km_key = ''k'', km_value = v, km_headers = [], km_partition = 0, km_offset = off\<rparr>"

lemmas demo_defs = demo_consumer_def demo_handler_def demo_reader_def demo_kops_def demo_km_def zero_consumer_def


lemma demo_process_world:
  "snd (processMessage demo_kops demo_reader (demo_consumer 0 down) ctx r topic km demo_handler s) = s"
  by (simp add: processMessage_def finish_message_def commit_offset_def message_context_def
      ExtractTraceContext_def from_kafka_def demo_defs Let_def)

text \<open>C5: Every Kafka message meets one of the six fates of the delivery specification: handled after
  at most \<open>maxRetries\<close> retries, dead-lettered after the last failure, left uncommitted because the
  dead-letter publish failed or the context ended during a pause, dropped with no dead-letter
  publisher, or not attempted at all when the retry count is negative. The offset is committed as
  the last call, exactly in the fates the policy names, and the handler, the publisher and the
  commit all get the message's own context and content.\<close>

theorem processMessage_refines_delivery:
  "\<exists>f. delivery (attempts (co_maxRetries c)) (co_dlqPublisher c \<noteq> None) (co_retryBackoff c)
     (message_context kops ctx km) (from_kafka topic km) (dlq_message c topic km)
     (kafka_policy (message_context kops ctx km) km) f (fst (processMessage kops ops c ctx r topic km h s))"
  by (rule processMessage_fate_fst)

text \<open>A message is committed unless its context ended during a retry pause or its dead-letter
  publish failed; it is committed at most once, and the handler is called at most \<open>1 + maxRetries\<close>
  times.\<close>

lemma processMessage_commit_decision:
  "let tr = fst (processMessage kops ops c ctx r topic km h s); mc = message_context kops ctx km in
     settlements tr =
       (if BackoffWait (co_retryBackoff c) True \<in> set tr \<or>
           (\<exists>e. DLQPublish mc (dlq_message c topic km) (Some e) \<in> set tr) then [] else [Commit mc km]) \<and>
     handler_calls tr \<le> attempts (co_maxRetries c)"
proof -
  obtain tr t where p: "processMessage kops ops c ctx r topic km h s = (tr, t)"
    by (cases "processMessage kops ops c ctx r topic km h s")
  from processMessage_fate[OF p] obtain f where "kafka_delivery kops c ctx topic km f tr" ..
  then have "settlements tr =
      (if BackoffWait (co_retryBackoff c) True \<in> set tr \<or>
          (\<exists>e. DLQPublish (message_context kops ctx km) (dlq_message c topic km) (Some e) \<in> set tr)
       then [] else [Commit (message_context kops ctx km) km])"
    by cases (auto simp: settled_trace settled_def)
  with kafka_msg.handler_calls_le[OF p] p show ?thesis by simp
qed

text \<open>With a dead-letter publisher and a retry count in range, a committed message has been taken
  care of: the handler accepted it, or the dead-letter topic did.\<close>

lemma processMessage_committed_taken_care_of:
  assumes "co_dlqPublisher c = Some publish" and "0 \<le> sint (co_maxRetries c)"
    and "sint (co_maxRetries c) < 2 ^ 63 - 1"
    and "Commit cc km' \<in> set (settlements (fst (processMessage kops ops c ctx r topic km h s)))"
  shows "km' = km \<and> taken_care_of (message_context kops ctx km) (from_kafka topic km) (dlq_message c topic km)
     (fst (processMessage kops ops c ctx r topic km h s))"
proof -
  obtain tr t where p: "processMessage kops ops c ctx r topic km h s = (tr, t)"
    by (cases "processMessage kops ops c ctx r topic km h s")
  from kafka_msg.taken_care_of_iff[OF p] obtain f where f: "kafka_delivery kops c ctx topic km f tr"
    "taken_care_of (message_context kops ctx km) (from_kafka topic km) (dlq_message c topic km) tr \<longleftrightarrow>
       f \<in> {Handled, DeadLettered}"
    "settlements tr = (case kafka_policy (message_context kops ctx km) km f of None \<Rightarrow> [] | Some a \<Rightarrow> [a])" by blast
  from f(1) assms(1) attempts_eq[OF assms(2,3)] have "f \<notin> {Dropped, NotAttempted}"
    by (auto elim: delivery.cases)
  with f assms(4) p show ?thesis by (cases f) auto
qed

text \<open>A negative retry count (or the largest one, which wraps around) makes zero attempts: the
  handler is never called and the offset is committed all the same.\<close>

lemma processMessage_negative_retries_lose_message:
  assumes "sint (1 + co_maxRetries c) \<le> 0"
  shows "handler_calls (fst (processMessage kops ops c ctx r topic km h s)) = 0 \<and>
    settlements (fst (processMessage kops ops c ctx r topic km h s)) = [Commit (message_context kops ctx km) km]"
proof -
  have a: "attempts (co_maxRetries c) = 0" using assms by (simp add: attempts_def)
  obtain tr t where p: "processMessage kops ops c ctx r topic km h s = (tr, t)"
    by (cases "processMessage kops ops c ctx r topic km h s")
  with a have "settled (Some (Commit (message_context kops ctx km) km)) tr"
    using finish_message_spec by (fastforce simp: processMessage_no_attempts)
  with p show ?thesis by (simp add: settled_trace)
qed

text \<open>C17: The consume loop ends when the reader reports an error, and by then every message the reader
  returned has been processed, in order, once, with a fate of the delivery specification; the
  commits are a subsequence of the fetch order. The hypotheses say what the reader returns: the
  messages \<open>pending\<close>, one by one, then an error; processing does not disturb that.\<close>

theorem consumeLoop_processes_all:
  assumes "\<And>s. pending s = [] \<Longrightarrow> \<exists>e. fetch_message ops r ctx s = (Inl e, s)"
    and "\<And>s km kms. pending s = km # kms \<Longrightarrow>
      \<exists>s1. fetch_message ops r ctx s = (Inr km, s1) \<and> pending s1 = kms"
    and "\<And>km s. pending (snd (processMessage kops ops c ctx r topic km h s)) = pending s"
  shows "\<exists>trs t. consumeLoop kops ops c ctx r topic h s = Some (concat trs, t) \<and> pending t = [] \<and>
    list_all2 (\<lambda>km tr. \<exists>f. delivery (attempts (co_maxRetries c)) (co_dlqPublisher c \<noteq> None) (co_retryBackoff c)
      (message_context kops ctx km) (from_kafka topic km) (dlq_message c topic km)
      (kafka_policy (message_context kops ctx km) km) f tr) (pending s) trs \<and>
    subseq (settlements (concat trs)) (map (\<lambda>km. Commit (message_context kops ctx km) km) (pending s))"
  using consumeLoop_all[OF assms] settlements_concat by blast

theorem consumeLoop_processes_all_witness:
  "\<exists>trs t. consumeLoop demo_kops demo_reader (demo_consumer 0 True) Background 0 ''t'' demo_handler
     [demo_km ''bad'' 0, demo_km ''ok'' 1] = Some (concat trs, t) \<and> length trs = 2"
proof -
  have "\<exists>trs t. consumeLoop demo_kops demo_reader (demo_consumer 0 True) Background 0 ''t'' demo_handler
     [demo_km ''bad'' 0, demo_km ''ok'' 1] = Some (concat trs, t) \<and> id t = [] \<and>
     list_all2 (\<lambda>km tr. \<exists>f. kafka_delivery demo_kops (demo_consumer 0 True) Background ''t'' km f tr)
       (id [demo_km ''bad'' 0, demo_km ''ok'' 1]) trs \<and>
     subseq (settlements (concat trs))
       (map (\<lambda>km. Commit (message_context demo_kops Background km) km) (id [demo_km ''bad'' 0, demo_km ''ok'' 1]))"
    by (rule consumeLoop_processes_all) (simp_all add: demo_process_world, simp_all add: demo_reader_def)
  then obtain trs t where r: "consumeLoop demo_kops demo_reader (demo_consumer 0 True) Background 0 ''t'' demo_handler
     [demo_km ''bad'' 0, demo_km ''ok'' 1] = Some (concat trs, t)"
    and l: "list_all2 (\<lambda>km tr. \<exists>f. kafka_delivery demo_kops (demo_consumer 0 True) Background ''t'' km f tr)
       (id [demo_km ''bad'' 0, demo_km ''ok'' 1]) trs" by blast
  from list_all2_lengthD[OF l] have "length trs = 2" by simp
  with r show ?thesis by blast
qed



text \<open>\<open>Stop\<close> cancels every loop, then closes every reader whatever the earlier closes returned, then
  waits; the first close error, if any, is returned wrapped.\<close>

lemma Consumer_Stop_closes_all:
  "case Consumer_Stop ops c s of (err, tr, t) \<Rightarrow>
     \<exists>ress. length ress = length (co_readers c) \<and>
       tr = map CancelLoop (co_cancels c) @ map2 CloseReader (co_readers c) ress @ [WaitLoops] \<and>
       err = (case somes ress of [] \<Rightarrow> None
              | e # _ \<Rightarrow> Some (Errorf [Lit ''kafka: consumer close: '', PW e]))"
  using close_readers_trace[where ops = ops and rs = "co_readers c" and fe = None
      and s = "fold (cancel_context ops) (co_cancels c) s"]
  by (auto simp: Consumer_Stop_def Let_def simp del: somes_eq_Nil split: prod.splits list.splits)

text \<open>C26: What a producer sends a consumer gets: key and value unchanged, and the user's headers with
  the trace fields added.\<close>

theorem kafka_round_trip:
  assumes "distinct (map fst (m_headers msg))"
  shows "m_key (from_kafka topic (to_kafka kops ctx msg)) = m_key msg \<and>
    m_value (from_kafka topic (to_kafka kops ctx msg)) = m_value msg \<and>
    map_of (m_headers (from_kafka topic (to_kafka kops ctx msg))) =
      map_of (m_headers msg) ++ map_of (rev (trace_fields kops ctx))"
  using assms
  by (simp add: from_kafka_def to_kafka_def map_of_kafkaHeadersToMap map_of_rev_distinct
      distinct_InjectTraceContext map_of_InjectTraceContext)

theorem kafka_round_trip_witness:
  "map_of (m_headers (from_kafka ''t'' (to_kafka demo_kops Background
      \<lparr>m_topic = ''t'', m_key = ''k'', m_value = ''v'', m_headers = [(''a'', ''1'')], m_partition = 0, m_offset = 0\<rparr>))) =
    [''a'' \<mapsto> ''1'', ''traceparent'' \<mapsto> ''00-1'']"
  using kafka_round_trip[of "\<lparr>m_topic = ''t'', m_key = ''k'', m_value = ''v'', m_headers = [(''a'', ''1'')],
      m_partition = 0, m_offset = 0\<rparr>" "''t''" demo_kops Background]
  by (simp add: demo_kops_def)


text \<open>Tuning options reach kafka-go only when positive; otherwise its default (zero) is left.\<close>

lemma readerConfig_tuning:
  "rc_brokers (readerConfig c topic) = co_brokers c \<and> rc_topic (readerConfig c topic) = topic \<and>
   rc_groupID (readerConfig c topic) = co_groupID c \<and>
   rc_minBytes (readerConfig c topic) = max 0 (co_minBytes c) \<and>
   rc_maxBytes (readerConfig c topic) = max 0 (co_maxBytes c) \<and>
   rc_maxWait (readerConfig c topic) = max 0 (co_maxWait c) \<and>
   rc_commitInterval (readerConfig c topic) = max 0 (co_commitInterval c) \<and>
   rc_startOffset (readerConfig c topic) = (if co_startOffsetSet c then co_startOffset c else 0) \<and>
   rc_heartbeatInterval (readerConfig c topic) = max 0 (co_heartbeatInterval c) \<and>
   rc_sessionTimeout (readerConfig c topic) = max 0 (co_sessionTimeout c) \<and>
   rc_rebalanceTimeout (readerConfig c topic) = max 0 (co_rebalanceTimeout c) \<and>
   rc_partitionWatchInterval (readerConfig c topic) = max 0 (co_partitionWatchInterval c)"
  by (simp add: readerConfig_def set_positive_def Let_def)

end
