(* ===== verification/Nats.thy ===== *)
theory Nats
  imports Delivery Kafka_Producer
begin

text \<open>
  The NATS publisher and subscriber: \<open>src/pkg/broker/nats/propagation.go\<close>, \<open>publisher.go\<close> and
  \<open>subscriber.go\<close>.

  nats.go and OpenTelemetry are the fields of \<open>nats_ops\<close>. The header accessors \<open>Get\<close> and \<open>Set\<close> of
  \<open>natsgo.Header\<close> (a \<open>map[string][]string\<close>) belong to nats.go too; \<open>nats_header_laws\<close> states what
  their documentation promises. A subscriber's connection is read under its lock when a message
  arrives; the JetStream context is read again, without the lock, whenever a message is settled, and \<open>Stop\<close> may
  have cleared it by then: the reads are a parameter of \<open>nats_processMessage\<close>.
\<close>

section \<open>Messages, headers and the client library\<close>

type_synonym nats_header = "(string \<times> string list) list"
type_synonym conn = nat
type_synonym jscontext = nat
type_synonym subscription = nat

record nats_msg =
  nm_subject :: string
  nm_data :: bytes
  nm_header :: "nats_header option"      \<comment> \<open>\<open>None\<close> is the nil header\<close>

datatype sub_request =
    CoreSubscribe conn string
  | CoreQueueSubscribe conn string string
  | JSSubscribe jscontext string "string option"          \<comment> \<open>manual ack; the durable name, if any\<close>
  | JSQueueSubscribe jscontext string string "string option"

record 's nats_ops =
  connect :: "string \<Rightarrow> nat list \<Rightarrow> 's \<Rightarrow> (goerr + conn) \<times> 's"
  jetstream :: "conn \<Rightarrow> 's \<Rightarrow> (goerr + jscontext) \<times> 's"
  conn_close :: "conn \<Rightarrow> 's \<Rightarrow> 's"
  conn_drain :: "conn \<Rightarrow> 's fallible"
  conn_publish :: "conn \<Rightarrow> nats_msg \<Rightarrow> 's fallible"
  js_publish :: "jscontext \<Rightarrow> nats_msg \<Rightarrow> string \<Rightarrow> 's fallible"
  request_sub :: "sub_request \<Rightarrow> 's \<Rightarrow> (goerr + subscription) \<times> 's"
  sub_drain :: "subscription \<Rightarrow> 's fallible"
  wait_handlers :: "'s \<Rightarrow> 's"
  msg_ack :: "nats_msg \<Rightarrow> 's fallible"
  msg_nak :: "nats_msg \<Rightarrow> 's fallible"
  nats_wait :: "ctx \<Rightarrow> int \<Rightarrow> 's \<Rightarrow> bool \<times> 's"
  hdr_get :: "nats_header \<Rightarrow> string \<Rightarrow> string"
  hdr_set :: "string \<Rightarrow> string \<Rightarrow> nats_header \<Rightarrow> nats_header"
  nats_fields :: "ctx \<Rightarrow> (string \<times> string) list"
  nats_extract :: "ctx \<Rightarrow> (string \<Rightarrow> string) \<Rightarrow> ctx"
  nats_span :: "ctx \<Rightarrow> string \<Rightarrow> ctx"

text \<open>nats.go: \<open>Set\<close> replaces the values of a key by one value, \<open>Get\<close> returns a key's first value.\<close>

definition nats_header_laws :: "'s nats_ops \<Rightarrow> bool" where
  "nats_header_laws ops \<longleftrightarrow>
     (\<forall>k v h. map_of (hdr_set ops k v h) = (map_of h)(k \<mapsto> [v])) \<and>
     (\<forall>h k. hdr_get ops h k = (case map_of h k of Some (v # _) \<Rightarrow> v | _ \<Rightarrow> []))"

section \<open>Propagation\<close>

definition natsCarrier_Get :: "'s nats_ops \<Rightarrow> nats_header \<Rightarrow> string \<Rightarrow> string" where
  "natsCarrier_Get ops h key = hdr_get ops h key"

definition natsCarrier_Set :: "'s nats_ops \<Rightarrow> string \<Rightarrow> string \<Rightarrow> nats_header \<Rightarrow> nats_header" where
  "natsCarrier_Set ops key value h = hdr_set ops key value h"

definition natsCarrier_Keys :: "nats_header \<Rightarrow> string list" where
  "natsCarrier_Keys h = map fst h"

definition nats_InjectTraceContext :: "'s nats_ops \<Rightarrow> ctx \<Rightarrow> nats_header option \<Rightarrow> nats_header" where
  "nats_InjectTraceContext ops ctx header =
     fold (\<lambda>(k, v). natsCarrier_Set ops k v) (nats_fields ops ctx) (case header of None \<Rightarrow> [] | Some h \<Rightarrow> h)"

definition nats_ExtractTraceContext :: "'s nats_ops \<Rightarrow> ctx \<Rightarrow> nats_header option \<Rightarrow> ctx" where
  "nats_ExtractTraceContext ops ctx header =
     (case header of None \<Rightarrow> ctx | Some h \<Rightarrow> nats_extract ops ctx (natsCarrier_Get ops h))"

section \<open>Publisher\<close>

record 's nats_publisher =
  np_conn :: "conn option"
  np_js :: "jscontext option"
  np_url :: string
  np_jetStream :: bool
  np_hooks :: "'s publish_hook list"
  np_logger :: nat
  np_tracerProvider :: "nat option"
  np_natsOpts :: "nat list"

datatype 's publisher_option =
    WithURL string
  | WithJetStream
  | WithNatsPublishHook "'s publish_hook list"
  | WithPublisherLogger nat
  | WithPublisherTracerProvider nat
  | WithNATSOptions "nat list"

fun apply_publisher_option :: "'s publisher_option \<Rightarrow> 's nats_publisher \<Rightarrow> 's nats_publisher" where
  "apply_publisher_option (WithURL url) p = p\<lparr>np_url := url\<rparr>"
| "apply_publisher_option WithJetStream p = p\<lparr>np_jetStream := True\<rparr>"
| "apply_publisher_option (WithNatsPublishHook hs) p = p\<lparr>np_hooks := np_hooks p @ hs\<rparr>"
| "apply_publisher_option (WithPublisherLogger l) p = p\<lparr>np_logger := l\<rparr>"
| "apply_publisher_option (WithPublisherTracerProvider tp) p = p\<lparr>np_tracerProvider := Some tp\<rparr>"
| "apply_publisher_option (WithNATSOptions os) p = p\<lparr>np_natsOpts := np_natsOpts p @ os\<rparr>"

text \<open>\<open>default_url\<close> is \<open>natsgo.DefaultURL\<close>, \<open>global_tp\<close> what \<open>otel.GetTracerProvider()\<close> returns.\<close>

definition NewPublisher :: "string \<Rightarrow> nat \<Rightarrow> 's publisher_option list \<Rightarrow> goerr + 's nats_publisher" where
  "NewPublisher default_url global_tp opts =
     (let p = fold apply_publisher_option opts
                \<lparr>np_conn = None, np_js = None, np_url = default_url, np_jetStream = False, np_hooks = [],
                 np_logger = 0, np_tracerProvider = None, np_natsOpts = []\<rparr>
      in Inr (if np_tracerProvider p = None then p\<lparr>np_tracerProvider := Some global_tp\<rparr> else p))"

definition Publisher_Start :: "'s nats_ops \<Rightarrow> ('s nats_publisher \<times> 's) fallible" where
  "Publisher_Start ops st =
     (let p = fst st in
      if np_conn p \<noteq> None then (Some (Errorf [Lit ''nats: publisher already started'']), st)
      else (case connect ops (np_url p) (np_natsOpts p) (snd st) of
              (Inl err, s1) \<Rightarrow> (Some (Errorf [Lit ''nats: publisher connect: '', PW err]), (p, s1))
            | (Inr conn, s1) \<Rightarrow>
                let p1 = p\<lparr>np_conn := Some conn\<rparr> in
                if np_jetStream p then
                  (case jetstream ops conn s1 of
                     (Inl jsErr, s2) \<Rightarrow>
                       (Some (Errorf [Lit ''nats: publisher jetstream: '', PW jsErr]),
                        (p1\<lparr>np_conn := None\<rparr>, conn_close ops conn s2))
                   | (Inr js, s2) \<Rightarrow> (None, (p1\<lparr>np_js := Some js\<rparr>, s2)))
                else (None, (p1, s1))))"

definition Publisher_Stop :: "'s nats_ops \<Rightarrow> ('s nats_publisher \<times> 's) fallible" where
  "Publisher_Stop ops st =
     (case np_conn (fst st) of
        None \<Rightarrow> (None, st)
      | Some conn \<Rightarrow>
          (case conn_drain ops conn (snd st) of
             (err, s1) \<Rightarrow> (map_option (\<lambda>e. Errorf [Lit ''nats: publisher drain: '', PW e]) err,
                            ((fst st)\<lparr>np_conn := None, np_js := None\<rparr>, s1))))"

definition Publisher_Conn :: "'s nats_publisher \<Rightarrow> conn option" where
  "Publisher_Conn p = np_conn p"

definition Publisher_JetStream :: "'s nats_publisher \<Rightarrow> jscontext option" where
  "Publisher_JetStream p = np_js p"

text \<open>The NATS message built from a message the hooks have seen.\<close>

definition to_nats :: "'s nats_ops \<Rightarrow> ctx \<Rightarrow> message \<Rightarrow> nats_msg" where
  "to_nats ops ctx msg =
     \<lparr>nm_subject = m_topic msg, nm_data = m_value msg,
      nm_header = Some (hdr_set ops ''key'' (m_key msg) (nats_InjectTraceContext ops ctx None))\<rparr>"

definition Publisher_Publish :: "'s nats_ops \<Rightarrow> 's nats_publisher \<Rightarrow> ctx \<Rightarrow> message \<Rightarrow> 's fallible" where
  "Publisher_Publish ops p ctx0 bMsg s =
     (let ctx = nats_span ops ctx0 ''nats.publish'' in
      case np_conn p of
        None \<Rightarrow> (Some (Errorf [Lit ''nats: publisher not started'']), s)
      | Some conn \<Rightarrow>
          (case run_hooks (np_hooks p) ctx (bMsg, s) of
             (Some err, (_, s1)) \<Rightarrow> (Some (Errorf [Lit ''nats: publish hook: '', PW err]), s1)
           | (None, (msg, s1)) \<Rightarrow>
               (case np_js p of
                  Some js \<Rightarrow>
                    apfst (map_option (\<lambda>err. Errorf [Lit ''nats: jetstream publish to '', PQ (m_topic msg), Lit '': '', PW err]))
                      (js_publish ops js (to_nats ops ctx msg) (m_key msg) s1)
                | None \<Rightarrow>
                    apfst (map_option (\<lambda>err. Errorf [Lit ''nats: publish to '', PQ (m_topic msg), Lit '': '', PW err]))
                      (conn_publish ops conn (to_nats ops ctx msg) s1))))"

fun Publisher_PublishBatch :: "'s nats_ops \<Rightarrow> 's nats_publisher \<Rightarrow> ctx \<Rightarrow> message list \<Rightarrow> 's fallible" where
  "Publisher_PublishBatch ops p ctx [] s = (None, s)"
| "Publisher_PublishBatch ops p ctx (msg # msgs) s =
     (case Publisher_Publish ops p ctx msg s of
        (Some err, s1) \<Rightarrow> (Some err, s1)
      | (None, s1) \<Rightarrow> Publisher_PublishBatch ops p ctx msgs s1)"

section \<open>Subscriber\<close>

record 's subscriber =
  ns_conn :: "conn option"
  ns_js :: "jscontext option"
  ns_subs :: "subscription list"
  ns_url :: string
  ns_jetStream :: bool
  ns_durable :: string
  ns_queueGroup :: string
  ns_middlewares :: "'s middleware list"
  ns_dlqPublisher :: "(ctx \<Rightarrow> message \<Rightarrow> 's fallible) option"
  ns_dlqTopicSuffix :: string
  ns_maxRetries :: "64 word"
  ns_retryBackoff :: int
  ns_logger :: nat
  ns_tracerProvider :: "nat option"
  ns_natsOpts :: "nat list"

datatype 's subscriber_option =
    WithSubscriberURL string
  | WithSubscriberJetStream
  | WithDurable string
  | WithQueueGroup string
  | WithNatsMiddleware "'s middleware list"
  | WithNatsDLQ "ctx \<Rightarrow> message \<Rightarrow> 's fallible" string
  | WithNatsRetry "64 word" int
  | WithSubscriberLogger nat
  | WithSubscriberTracerProvider nat
  | WithSubscriberNATSOptions "nat list"

fun apply_subscriber_option :: "'s subscriber_option \<Rightarrow> 's subscriber \<Rightarrow> 's subscriber" where
  "apply_subscriber_option (WithSubscriberURL url) x = x\<lparr>ns_url := url\<rparr>"
| "apply_subscriber_option WithSubscriberJetStream x = x\<lparr>ns_jetStream := True\<rparr>"
| "apply_subscriber_option (WithDurable name) x = x\<lparr>ns_durable := name\<rparr>"
| "apply_subscriber_option (WithQueueGroup grp) x = x\<lparr>ns_queueGroup := grp\<rparr>"
| "apply_subscriber_option (WithNatsMiddleware mws) x = x\<lparr>ns_middlewares := ns_middlewares x @ mws\<rparr>"
| "apply_subscriber_option (WithNatsDLQ p sfx) x = x\<lparr>ns_dlqPublisher := Some p, ns_dlqTopicSuffix := sfx\<rparr>"
| "apply_subscriber_option (WithNatsRetry m b) x = x\<lparr>ns_maxRetries := m, ns_retryBackoff := b\<rparr>"
| "apply_subscriber_option (WithSubscriberLogger l) x = x\<lparr>ns_logger := l\<rparr>"
| "apply_subscriber_option (WithSubscriberTracerProvider tp) x = x\<lparr>ns_tracerProvider := Some tp\<rparr>"
| "apply_subscriber_option (WithSubscriberNATSOptions os) x = x\<lparr>ns_natsOpts := ns_natsOpts x @ os\<rparr>"

definition NewSubscriber :: "string \<Rightarrow> nat \<Rightarrow> 's subscriber_option list \<Rightarrow> goerr + 's subscriber" where
  "NewSubscriber default_url global_tp opts =
     (let x = fold apply_subscriber_option opts
                \<lparr>ns_conn = None, ns_js = None, ns_subs = [], ns_url = default_url, ns_jetStream = False,
                 ns_durable = [], ns_queueGroup = [], ns_middlewares = [], ns_dlqPublisher = None,
                 ns_dlqTopicSuffix = [], ns_maxRetries = 0, ns_retryBackoff = 0, ns_logger = 0,
                 ns_tracerProvider = None, ns_natsOpts = []\<rparr>
      in Inr (if ns_tracerProvider x = None then x\<lparr>ns_tracerProvider := Some global_tp\<rparr> else x))"

definition Subscriber_Start :: "'s nats_ops \<Rightarrow> ('s subscriber \<times> 's) fallible" where
  "Subscriber_Start ops st =
     (let x = fst st in
      if ns_conn x \<noteq> None then (Some (Errorf [Lit ''nats: subscriber already started'']), st)
      else (case connect ops (ns_url x) (ns_natsOpts x) (snd st) of
              (Inl err, s1) \<Rightarrow> (Some (Errorf [Lit ''nats: subscriber connect: '', PW err]), (x, s1))
            | (Inr conn, s1) \<Rightarrow>
                let x1 = x\<lparr>ns_conn := Some conn\<rparr> in
                if ns_jetStream x then
                  (case jetstream ops conn s1 of
                     (Inl jsErr, s2) \<Rightarrow>
                       (Some (Errorf [Lit ''nats: subscriber jetstream: '', PW jsErr]),
                        (x1\<lparr>ns_conn := None\<rparr>, conn_close ops conn s2))
                   | (Inr js, s2) \<Rightarrow> (None, (x1\<lparr>ns_js := Some js\<rparr>, s2)))
                else (None, (x1, s1))))"

text \<open>The errors of draining a subscription are only logged.\<close>

definition Subscriber_Stop :: "'s nats_ops \<Rightarrow> ('s subscriber \<times> 's) fallible" where
  "Subscriber_Stop ops st =
     (case ns_conn (fst st) of
        None \<Rightarrow> (None, st)
      | Some conn \<Rightarrow>
          let s1 = fold (\<lambda>sub s. snd (sub_drain ops sub s)) (ns_subs (fst st)) (snd st);
              s2 = wait_handlers ops s1
          in (case conn_drain ops conn s2 of
                (err, s3) \<Rightarrow> (map_option (\<lambda>e. Errorf [Lit ''nats: subscriber drain: '', PW e]) err,
                               ((fst st)\<lparr>ns_conn := None, ns_js := None, ns_subs := []\<rparr>, s3))))"

definition Subscriber_Conn :: "'s subscriber \<Rightarrow> conn option" where
  "Subscriber_Conn x = ns_conn x"

definition Subscriber_JetStream :: "'s subscriber \<Rightarrow> jscontext option" where
  "Subscriber_JetStream x = ns_js x"

definition subscribe_request :: "'s subscriber \<Rightarrow> conn \<Rightarrow> string \<Rightarrow> sub_request" where
  "subscribe_request x conn topic =
     (case ns_js x of
        Some js \<Rightarrow>
          let durable = (if ns_durable x \<noteq> [] then Some (ns_durable x) else None) in
          if ns_queueGroup x \<noteq> [] then JSQueueSubscribe js topic (ns_queueGroup x) durable
          else JSSubscribe js topic durable
      | None \<Rightarrow>
          if ns_queueGroup x \<noteq> [] then CoreQueueSubscribe conn topic (ns_queueGroup x)
          else CoreSubscribe conn topic)"

text \<open>On success the handler registered with NATS is the wrapped one, returned beside the result.\<close>

definition Subscriber_Subscribe :: "'s nats_ops \<Rightarrow> string \<Rightarrow> 's handler \<Rightarrow> 's subscriber \<times> 's \<Rightarrow>
    (goerr option \<times> (subscription \<times> string \<times> 's handler) option) \<times> ('s subscriber \<times> 's)" where
  "Subscriber_Subscribe ops topic h st =
     (let x = fst st in
      case ns_conn x of
        None \<Rightarrow> ((Some (Errorf [Lit ''nats: subscriber not started'']), None), st)
      | Some conn \<Rightarrow>
          let wh = applyMiddleware h (ns_middlewares x) in
          (case request_sub ops (subscribe_request x conn topic) (snd st) of
             (Inl err, s1) \<Rightarrow>
               ((Some (Errorf [Lit ''nats: subscribe to '', PQ topic, Lit '': '', PW err]), None), (x, s1))
           | (Inr sub, s1) \<Rightarrow>
               ((None, Some (sub, topic, wh)), (x\<lparr>ns_subs := ns_subs x @ [sub]\<rparr>, s1))))"

section \<open>Processing a message\<close>

datatype nats_settle = Ack | Nak

definition natsHeadersToMap :: "nats_header option \<Rightarrow> headers" where
  "natsHeadersToMap header =
     (case header of None \<Rightarrow> []
      | Some h \<Rightarrow> concat (map (\<lambda>(k, vs). case vs of [] \<Rightarrow> [] | v # _ \<Rightarrow> [(k, v)]) h))"

definition nats_context :: "'s nats_ops \<Rightarrow> nats_msg \<Rightarrow> ctx" where
  "nats_context ops nm = nats_span ops (nats_ExtractTraceContext ops Background (nm_header nm)) ''nats.consume''"

definition from_nats :: "'s nats_ops \<Rightarrow> string \<Rightarrow> nats_msg \<Rightarrow> message" where
  "from_nats ops topic nm =
     \<lparr>m_topic = topic,
      m_key = hdr_get ops (case nm_header nm of None \<Rightarrow> [] | Some h \<Rightarrow> h) ''key'',
      m_value = nm_data nm, m_headers = natsHeadersToMap (nm_header nm), m_partition = 0, m_offset = 0\<rparr>"

definition nats_dlq_message :: "'s nats_ops \<Rightarrow> 's subscriber \<Rightarrow> string \<Rightarrow> nats_msg \<Rightarrow> message" where
  "nats_dlq_message ops x topic nm =
     \<lparr>m_topic = topic @ ns_dlqTopicSuffix x, m_key = m_key (from_nats ops topic nm), m_value = nm_data nm,
      m_headers = [], m_partition = 0, m_offset = 0\<rparr>"

text \<open>
  Ack or nak, in JetStream mode only. \<open>processMessage\<close> looks at the field \<open>s.js\<close> each time, without the lock, while
  \<open>Start\<close> and \<open>Stop\<close> may be writing it: \<open>js\<close> is that read, which gives whether the field is set, and the world
  in which it was seen. \<open>own_js\<close> is the read of a subscriber that nobody starts or stops meanwhile.
\<close>

type_synonym 's js_read = "'s \<Rightarrow> bool \<times> 's"

definition own_js :: "'s subscriber \<Rightarrow> 's js_read" where
  "own_js x s = (ns_js x \<noteq> None, s)"

definition settle_call :: "'s nats_ops \<Rightarrow> nats_settle \<Rightarrow> nats_msg \<Rightarrow> 's \<Rightarrow> nats_settle mevent list \<times> 's" where
  "settle_call ops a nm s =
     (case (case a of Ack \<Rightarrow> msg_ack ops nm s | Nak \<Rightarrow> msg_nak ops nm s) of (err, s1) \<Rightarrow> ([Settle a err], s1))"

definition settle_nats :: "'s nats_ops \<Rightarrow> 's js_read \<Rightarrow> nats_settle \<Rightarrow> nats_msg \<Rightarrow> 's \<Rightarrow>
    nats_settle mevent list \<times> 's" where
  "settle_nats ops js a nm s =
     (case js s of
        (True, s1) \<Rightarrow> settle_call ops a nm s1
      | (False, s1) \<Rightarrow> ([], s1))"

text \<open>Without a dead-letter publisher, a field seen unset is read once more at the end, where the message is acked.\<close>

definition nats_finish_message :: "'s nats_ops \<Rightarrow> 's js_read \<Rightarrow> 's subscriber \<Rightarrow> string \<Rightarrow> nats_msg \<Rightarrow> ctx \<Rightarrow>
    goerr option \<Rightarrow> 's \<Rightarrow> nats_settle mevent list \<times> 's" where
  "nats_finish_message ops js x topic nm ctx handlerErr s =
     (case (handlerErr, ns_dlqPublisher x) of
        (None, _) \<Rightarrow> settle_nats ops js Ack nm s
      | (Some err, None) \<Rightarrow>
          (case js s of
             (True, s1) \<Rightarrow> settle_call ops Nak nm s1
           | (False, s1) \<Rightarrow> settle_nats ops js Ack nm s1)
      | (Some err, Some publish) \<Rightarrow>
          let dmsg = nats_dlq_message ops x topic nm in
          (case publish ctx dmsg s of
             (Some dlqErr, s1) \<Rightarrow> apfst ((#) (DLQPublish ctx dmsg (Some dlqErr))) (settle_nats ops js Nak nm s1)
           | (None, s1) \<Rightarrow> apfst ((#) (DLQPublish ctx dmsg None)) (settle_nats ops js Ack nm s1)))"

definition nats_processMessage :: "'s nats_ops \<Rightarrow> 's js_read \<Rightarrow> 's subscriber \<Rightarrow> string \<Rightarrow> nats_msg \<Rightarrow> 's handler \<Rightarrow> 's \<Rightarrow>
    nats_settle mevent list \<times> 's" where
  "nats_processMessage ops js x topic nm h s =
     (let ctx = nats_context ops nm;
          msg = from_nats ops topic nm
      in case retry_loop (attempts (ns_maxRetries x)) (nats_wait ops) (ns_retryBackoff x) h ctx msg None s of
           (Interrupted, tr, s1) \<Rightarrow> (tr, s1)
         | (Finished handlerErr, tr, s1) \<Rightarrow>
             apfst ((@) tr) (nats_finish_message ops js x topic nm ctx handlerErr s1))"

text \<open>The callback \<open>Subscribe\<close> registers: a message that arrives after \<open>Stop\<close> is ignored.\<close>

definition msgHandler :: "'s nats_ops \<Rightarrow> 's js_read \<Rightarrow> string \<Rightarrow> 's handler \<Rightarrow> nats_msg \<Rightarrow> 's subscriber \<times> 's \<Rightarrow>
    nats_settle mevent list \<times> ('s subscriber \<times> 's)" where
  "msgHandler ops js topic h nm st =
     (if ns_conn (fst st) = None then ([], st)
      else (case nats_processMessage ops js (fst st) topic nm h (snd st) of
              (tr, s1) \<Rightarrow> (tr, (fst st, s1))))"

section \<open>Contracts met\<close>

interpretation nats_pub: publisher "Publisher_Publish ops p" "Publisher_PublishBatch ops p" for ops p
  by unfold_locales simp_all

interpretation nats_publisher_lc: lifecycle "Publisher_Start ops" "Publisher_Stop ops"
  "\<lambda>st. np_conn (fst st) \<noteq> None" for ops
proof
  show "np_conn (fst s) \<noteq> None \<Longrightarrow> \<exists>e. Publisher_Start ops s = (Some e, s)" for s
    by (simp add: Publisher_Start_def)
  show "Publisher_Start ops s = (None, t) \<Longrightarrow> np_conn (fst t) \<noteq> None" for s t
    by (auto simp: Publisher_Start_def Let_def split: if_splits prod.splits sum.splits)
  show "Publisher_Start ops s = (Some e, t) \<Longrightarrow> (np_conn (fst t) \<noteq> None) = (np_conn (fst s) \<noteq> None)" for s e t
    by (auto simp: Publisher_Start_def Let_def split: if_splits prod.splits sum.splits)
  show "\<not> np_conn (fst s) \<noteq> None \<Longrightarrow> Publisher_Stop ops s = (None, s)" for s
    by (simp add: Publisher_Stop_def)
  show "Publisher_Stop ops s = (r, t) \<Longrightarrow> \<not> np_conn (fst t) \<noteq> None" for s r t
    by (auto simp: Publisher_Stop_def split: option.splits prod.splits)
qed

interpretation nats_subscriber_lc: lifecycle "Subscriber_Start ops" "Subscriber_Stop ops"
  "\<lambda>st. ns_conn (fst st) \<noteq> None" for ops
proof
  show "ns_conn (fst s) \<noteq> None \<Longrightarrow> \<exists>e. Subscriber_Start ops s = (Some e, s)" for s
    by (simp add: Subscriber_Start_def)
  show "Subscriber_Start ops s = (None, t) \<Longrightarrow> ns_conn (fst t) \<noteq> None" for s t
    by (auto simp: Subscriber_Start_def Let_def split: if_splits prod.splits sum.splits)
  show "Subscriber_Start ops s = (Some e, t) \<Longrightarrow> (ns_conn (fst t) \<noteq> None) = (ns_conn (fst s) \<noteq> None)" for s e t
    by (auto simp: Subscriber_Start_def Let_def split: if_splits prod.splits sum.splits)
  show "\<not> ns_conn (fst s) \<noteq> None \<Longrightarrow> Subscriber_Stop ops s = (None, s)" for s
    by (simp add: Subscriber_Stop_def)
  show "Subscriber_Stop ops s = (r, t) \<Longrightarrow> \<not> ns_conn (fst t) \<noteq> None" for s r t
    by (auto simp: Subscriber_Stop_def Let_def split: option.splits prod.splits)
qed

lemma hdr_set_map_of: "nats_header_laws ops \<Longrightarrow> map_of (hdr_set ops k v h) = (map_of h)(k \<mapsto> [v])"
  by (simp add: nats_header_laws_def)

lemma hdr_get_map_of:
  "nats_header_laws ops \<Longrightarrow> hdr_get ops h k = (case map_of h k of Some (v # _) \<Rightarrow> v | _ \<Rightarrow> [])"
  by (simp add: nats_header_laws_def)

text \<open>With nats.go's header accessors as documented, the NATS carrier is a text-map carrier.\<close>

lemma nats_text_map_carrier:
  assumes "nats_header_laws ops"
  shows "text_map_carrier (natsCarrier_Get ops) (natsCarrier_Set ops) natsCarrier_Keys"
proof
  note laws = hdr_set_map_of[OF assms] hdr_get_map_of[OF assms]
  show "natsCarrier_Get ops (natsCarrier_Set ops k v c) k' = (if k' = k then v else natsCarrier_Get ops c k')" for k v c k'
    by (simp add: natsCarrier_Get_def natsCarrier_Set_def laws)
  have keys: "set (natsCarrier_Keys h) = dom (map_of h)" for h
    by (simp add: natsCarrier_Keys_def dom_map_of_conv_image_fst)
  show "set (natsCarrier_Keys (natsCarrier_Set ops k v c)) = insert k (set (natsCarrier_Keys c))" for k v c
    unfolding keys natsCarrier_Set_def laws(1) by simp
  show "k \<notin> set (natsCarrier_Keys c) \<Longrightarrow> natsCarrier_Get ops c k = []" for k c
    unfolding keys by (simp add: natsCarrier_Get_def laws(2) domIff)
qed

lemma map_of_nats_Inject:
  assumes "nats_header_laws ops"
  shows "map_of (nats_InjectTraceContext ops ctx None) = map_option (\<lambda>v. [v]) \<circ> map_of (rev (nats_fields ops ctx))"
proof -
  have "map_of (fold (\<lambda>(k, v). natsCarrier_Set ops k v) fs h) =
      map_of h ++ (map_option (\<lambda>v. [v]) \<circ> map_of (rev fs))" for fs h
  proof (induction fs arbitrary: h)
    case (Cons f fs)
    then show ?case
      by (cases f) (auto simp: natsCarrier_Set_def hdr_set_map_of[OF assms] map_add_def fun_eq_iff split: option.splits)
  qed (simp add: fun_eq_iff map_add_def)
  from this[of "nats_fields ops ctx" "[]"] show ?thesis
    by (simp add: nats_InjectTraceContext_def fun_eq_iff map_add_def split: option.splits)
qed

lemma map_of_natsHeadersToMap:
  "distinct (map fst h) \<Longrightarrow>
     map_of (natsHeadersToMap (Some h)) k = (case map_of h k of Some (v # _) \<Rightarrow> Some v | _ \<Rightarrow> None)"
proof (induction h)
  case (Cons e h)
  then have "fst e = k \<Longrightarrow> map_of h k = None" by (auto simp: map_of_eq_None_iff)
  with Cons show ?case
    by (cases e; cases "fst e = k") (auto simp: natsHeadersToMap_def split: list.splits)
qed (simp add: natsHeadersToMap_def)

section \<open>The fate of a NATS message\<close>

text \<open>
  When the field \<open>s.js\<close> is seen set, a message is acked, nak'd or left to be redelivered; otherwise nothing is
  settled. \<open>again\<close> is what the second look gives, which only a failed message without a dead-letter publisher has.
\<close>

definition nats_policy :: "bool \<Rightarrow> bool \<Rightarrow> fate \<Rightarrow> nats_settle option" where
  "nats_policy seen again f =
     (case f of
        Aborted \<Rightarrow> None
      | Dropped \<Rightarrow> if seen then Some Nak else if again then Some Ack else None
      | DLQFailed \<Rightarrow> if seen then Some Nak else None
      | _ \<Rightarrow> if seen then Some Ack else None)"

definition read_policy :: "'s js_read \<Rightarrow> 's \<Rightarrow> fate \<Rightarrow> nats_settle option" where
  "read_policy js s = nats_policy (fst (js s)) (fst (js (snd (js s))))"

lemma settle_call_settled: "settle_call ops a nm s = (tr, t) \<Longrightarrow> settled (Some a) tr"
  by (auto simp: settle_call_def settled_def split: prod.splits)

lemma settle_nats_settled:
  "settle_nats ops js a nm s = (tr, t) \<Longrightarrow> settled (if fst (js s) then Some a else None) tr"
  by (auto simp: settle_nats_def settled_def[of None] split: prod.splits bool.splits dest: settle_call_settled)

abbreviation nats_delivery :: "'s nats_ops \<Rightarrow> 's subscriber \<Rightarrow> string \<Rightarrow> nats_msg \<Rightarrow> (fate \<Rightarrow> nats_settle option) \<Rightarrow> fate \<Rightarrow>
    nats_settle mevent list \<Rightarrow> bool" where
  "nats_delivery ops x topic nm \<equiv>
     delivery (attempts (ns_maxRetries x)) (ns_dlqPublisher x \<noteq> None) (ns_retryBackoff x)
       (nats_context ops nm) (from_nats ops topic nm) (nats_dlq_message ops x topic nm)"

text \<open>
  The state in which a message is settled: the calls in the trace are made again, up to the settlement, and must give
  the results recorded there.
\<close>

fun msg_replay :: "(int \<Rightarrow> 's \<Rightarrow> bool \<times> 's) \<Rightarrow> 's handler \<Rightarrow> 's handler option \<Rightarrow> nats_settle mevent list \<Rightarrow> 's \<Rightarrow> 's option" where
  "msg_replay wait h pub [] s = Some s"
| "msg_replay wait h pub (HandlerCall c m r # tr) s =
     (case h c m s of (r', s1) \<Rightarrow> if r' = r then msg_replay wait h pub tr s1 else None)"
| "msg_replay wait h pub (BackoffWait b i # tr) s =
     (case wait b s of (i', s1) \<Rightarrow> if i' = i then msg_replay wait h pub tr s1 else None)"
| "msg_replay wait h pub (DLQPublish c m r # tr) s =
     (case pub of None \<Rightarrow> None
      | Some publish \<Rightarrow> (case publish c m s of (r', s1) \<Rightarrow> if r' = r then msg_replay wait h pub tr s1 else None))"
| "msg_replay wait h pub (Settle a r # tr) s = Some s"

lemma settled_replay: "settled k tr \<Longrightarrow> msg_replay wait h pub tr s = Some s"
  by (cases k) (auto simp: settled_def)

lemma retry_loop_replay:
  "retry_loop n wait b h ctx msg err s = (res, tr, t) \<Longrightarrow>
     msg_replay (wait ctx) h pub (tr @ post) s = msg_replay (wait ctx) h pub post t"
proof (induction n arbitrary: err s tr)
  case (Suc n)
  from Suc.prems show ?case
    by (auto simp: Suc.IH split: prod.splits option.splits if_splits bool.splits)
qed auto

lemma nats_finish_spec:
  assumes "nats_finish_message ops js x topic nm ctx hr s = (post, t)"
  shows "\<exists>s1. msg_replay wait h (ns_dlqPublisher x) post s = Some s1 \<and>
    finish_spec (ns_dlqPublisher x \<noteq> None) ctx (nats_dlq_message ops x topic nm) (read_policy js s1) hr post"
proof (cases hr)
  case None
  with assms show ?thesis
    by (intro exI[of _ s]) (auto simp: nats_finish_message_def read_policy_def nats_policy_def settled_replay dest!: settle_nats_settled split: if_splits)
next
  case (Some err)
  show ?thesis
  proof (cases "ns_dlqPublisher x")
    case None
    with assms Some show ?thesis
      by (intro exI[of _ s]) (auto simp: nats_finish_message_def read_policy_def nats_policy_def
          settled_replay dest!: settle_nats_settled settle_call_settled split: prod.splits bool.splits if_splits)
  next
    case (Some publish)
    obtain r s1 where p: "publish ctx (nats_dlq_message ops x topic nm) s = (r, s1)" by fastforce
    with assms Some \<open>hr = Some err\<close> show ?thesis
      by (intro exI[of _ s1]) (auto simp: nats_finish_message_def read_policy_def nats_policy_def Let_def apfst_def map_prod_def
          settled_replay dest!: settle_nats_settled split: prod.splits option.splits if_splits)
  qed
qed

abbreviation nats_replay :: "'s nats_ops \<Rightarrow> 's subscriber \<Rightarrow> nats_msg \<Rightarrow> 's handler \<Rightarrow> nats_settle mevent list \<Rightarrow> 's \<Rightarrow> 's option" where
  "nats_replay ops x nm h \<equiv> msg_replay (nats_wait ops (nats_context ops nm)) h (ns_dlqPublisher x)"

lemma nats_processMessage_fate:
  assumes p: "nats_processMessage ops js x topic nm h s = (tr, t)"
  shows "\<exists>f s1. nats_replay ops x nm h tr s = Some s1 \<and> nats_delivery ops x topic nm (read_policy js s1) f tr"
proof -
  obtain res s1 and tr1 :: "nats_settle mevent list" where
    l: "retry_loop (attempts (ns_maxRetries x)) (nats_wait ops) (ns_retryBackoff x) h (nats_context ops nm)
          (from_nats ops topic nm) None s = (res, tr1, s1)" by (rule prod_cases3)
  have k: "read_policy js u Aborted = None" "read_policy js u NotAttempted = read_policy js u Handled" for u
    by (simp_all add: read_policy_def nats_policy_def)
  have fate: "\<exists>f. nats_delivery ops x topic nm (read_policy js u) f (case res of Interrupted \<Rightarrow> tr1 | Finished hr \<Rightarrow> tr1 @ post)"
    if "\<And>hr. res = Finished hr \<Longrightarrow>
      finish_spec (ns_dlqPublisher x \<noteq> None) (nats_context ops nm) (nats_dlq_message ops x topic nm) (read_policy js u) hr post" for u post
    by (rule deliver_fate[OF l k]) (rule that)
  note replay = retry_loop_replay[OF l, where pub = "ns_dlqPublisher x"]
  show ?thesis
  proof (cases res)
    case Interrupted
    with p l have "tr = tr1" by (auto simp: nats_processMessage_def)
    with fate[of s1 "[]"] replay[of "[]"] Interrupted show ?thesis by auto
  next
    case (Finished hr)
    obtain post t' where fm: "nats_finish_message ops js x topic nm (nats_context ops nm) hr s1 = (post, t')" by fastforce
    with p l Finished have tr: "tr = tr1 @ post" by (auto simp: nats_processMessage_def)
    from nats_finish_spec[OF fm] obtain s2 where
      "msg_replay (nats_wait ops (nats_context ops nm)) h (ns_dlqPublisher x) post s1 = Some s2"
      "finish_spec (ns_dlqPublisher x \<noteq> None) (nats_context ops nm) (nats_dlq_message ops x topic nm) (read_policy js s2) hr post"
      by blast
    with fate[of s2 post] replay[of post] Finished tr show ?thesis by auto
  qed
qed

interpretation nats_delivered: delivery_contract "nats_processMessage ops js x topic nm h"
  "attempts (ns_maxRetries x)" "ns_dlqPublisher x \<noteq> None" "ns_retryBackoff x"
  "nats_context ops nm" "from_nats ops topic nm" "nats_dlq_message ops x topic nm"
  "range (read_policy js)" for ops js x topic nm h
proof
  show "\<exists>f. \<exists>k \<in> range (read_policy js). nats_delivery ops x topic nm k f tr"
    if "nats_processMessage ops js x topic nm h s = (tr, t)" for s tr t
    using nats_processMessage_fate[OF that] by blast
qed

text \<open>If no pause is interrupted, none shows in the trace.\<close>

lemma retry_loop_uninterrupted:
  assumes "\<And>b s. fst (wait ctx b s) = False"
    and "retry_loop n wait b h ctx msg err s = (res, tr, t)"
  shows "BackoffWait b' True \<notin> set tr \<and> res \<noteq> Interrupted"
  using assms(2)
proof (induction n arbitrary: err s tr)
  case (Suc n)
  have "wait ctx b u = (False, snd (wait ctx b u))" for u using assms(1)[of b u] by (simp add: prod_eq_iff)
  then have w: "wait ctx b u = (False, v) \<longleftrightarrow> v = snd (wait ctx b u)" "wait ctx b u \<noteq> (True, v)" for u v
    by (metis prod.inject)+
  from Suc.prems show ?case
    by (auto simp: w dest!: Suc.IH split: prod.splits option.splits if_splits bool.splits)
qed auto

lemma nats_uninterrupted:
  assumes w: "\<And>b s. fst (nats_wait ops (nats_context ops nm) b s) = False"
    and p: "nats_processMessage ops js x topic nm h s = (tr, t)"
  shows "BackoffWait b True \<notin> set tr"
proof -
  obtain res s1 and tr1 :: "nats_settle mevent list" where
    l: "retry_loop (attempts (ns_maxRetries x)) (nats_wait ops) (ns_retryBackoff x) h (nats_context ops nm)
          (from_nats ops topic nm) None s = (res, tr1, s1)" by (rule prod_cases3)
  from retry_loop_uninterrupted[of "nats_wait ops", OF w l] p l show ?thesis
    by (auto simp: nats_processMessage_def nats_finish_message_def settle_nats_def settle_call_def Let_def apfst_def map_prod_def
        split: retry_result.splits option.splits prod.splits if_splits bool.splits)
qed

section \<open>Properties\<close>

text \<open>
  A JetStream subscriber to run the theorems on: no wait is interrupted, the handler refuses the
  value \<open>bad\<close>, there is no dead-letter publisher.
\<close>

definition demo_nats :: "nat nats_ops" where
  "demo_nats =
     \<lparr>connect = (\<lambda>u os s. (Inr 1, s)), jetstream = (\<lambda>c s. (Inr 2, s)), conn_close = (\<lambda>c s. s),
      conn_drain = (\<lambda>c s. (None, s)), conn_publish = (\<lambda>c m s. (None, Suc s)),
      js_publish = (\<lambda>j m i s. (None, Suc s)), request_sub = (\<lambda>r s. (Inr 3, s)), sub_drain = (\<lambda>x s. (None, s)),
      wait_handlers = (\<lambda>s. s), msg_ack = (\<lambda>m s. (None, s)), msg_nak = (\<lambda>m s. (None, s)),
      nats_wait = (\<lambda>c b s. (False, s)),
      hdr_get = (\<lambda>h k. case map_of h k of Some (v # _) \<Rightarrow> v | _ \<Rightarrow> []),
      hdr_set = (\<lambda>k v h. AList.update k [v] h),
      nats_fields = (\<lambda>c. [(''traceparent'', ''00-1'')]), nats_extract = (\<lambda>c f. c), nats_span = (\<lambda>c n. c)\<rparr>"

lemma demo_nats_laws: "nats_header_laws demo_nats"
  by (simp add: nats_header_laws_def demo_nats_def update_conv')

definition demo_subscriber :: "64 word \<Rightarrow> nat subscriber" where
  "demo_subscriber retries =
     \<lparr>ns_conn = Some 1, ns_js = Some 2, ns_subs = [3], ns_url = ''nats://n:4222'', ns_jetStream = True,
      ns_durable = ''d'', ns_queueGroup = [], ns_middlewares = [], ns_dlqPublisher = None,
      ns_dlqTopicSuffix = [], ns_maxRetries = retries, ns_retryBackoff = second, ns_logger = 0,
      ns_tracerProvider = Some 1, ns_natsOpts = []\<rparr>"

definition demo_nats_handler :: "nat handler" where
  "demo_nats_handler ctx m n = (if m_value m = ''bad'' then Some (ErrNew ''bad'') else None, Suc n)"

definition demo_nm :: "string \<Rightarrow> nats_msg" where
  "demo_nm v = \<lparr>nm_subject = ''t'', nm_data = v, nm_header = None\<rparr>"

text \<open>C13: Every NATS message meets one of the fates of the delivery specification, and is settled accordingly. What
  counts is whether the field \<open>s.js\<close> is set when \<open>processMessage\<close> looks at it, in the state after the calls of the
  handler, the pauses and the dead-letter publish. If it is, a message is acked when handled or dead-lettered (and when a negative retry count made no attempt),
  nak'd when the dead-letter publish failed or there is no dead-letter publisher, left unsettled when a retry pause was
  interrupted. If it is not (core mode, or a \<open>Stop\<close> that has cleared it meanwhile) nothing is settled, except that
  without a dead-letter publisher a failed message is acked when a second look finds it set. Where nobody starts or
  stops the subscriber during the message, its own mode decides: JetStream settles as above, core settles nothing.\<close>

theorem nats_processMessage_refines_delivery:
  "(\<exists>f s1. msg_replay (nats_wait ops (nats_context ops nm)) h (ns_dlqPublisher x)
        (fst (nats_processMessage ops js x topic nm h s)) s = Some s1 \<and>
      delivery (attempts (ns_maxRetries x)) (ns_dlqPublisher x \<noteq> None) (ns_retryBackoff x)
        (nats_context ops nm) (from_nats ops topic nm) (nats_dlq_message ops x topic nm)
        (nats_policy (fst (js s1)) (fst (js (snd (js s1))))) f (fst (nats_processMessage ops js x topic nm h s))) \<and>
   (\<exists>f. delivery (attempts (ns_maxRetries x)) (ns_dlqPublisher x \<noteq> None) (ns_retryBackoff x)
      (nats_context ops nm) (from_nats ops topic nm) (nats_dlq_message ops x topic nm)
      (nats_policy (ns_js x \<noteq> None) (ns_js x \<noteq> None)) f (fst (nats_processMessage ops (own_js x) x topic nm h s)))"
proof -
  have "\<exists>f s1. nats_replay ops x nm h (fst (nats_processMessage ops js x topic nm h s)) s = Some s1 \<and>
      nats_delivery ops x topic nm (read_policy js s1) f (fst (nats_processMessage ops js x topic nm h s))" for js
    by (rule nats_processMessage_fate[of ops js x topic nm h s _ "snd (nats_processMessage ops js x topic nm h s)"]) simp
  from this[of js] this[of "own_js x"] show ?thesis by (auto simp: read_policy_def own_js_def)
qed

text \<open>A handled JetStream message is not acked when \<open>Stop\<close> has cleared the field before \<open>processMessage\<close> looks at it
  (\<open>Stop\<close> can return while a handler runs): the server delivers it again.\<close>

lemma nats_handled_not_acked:
  "\<exists>tr t. nats_processMessage demo_nats (\<lambda>s. (s = 0, s)) (demo_subscriber 0) ''t'' (demo_nm ''ok'') demo_nats_handler 0 = (tr, t) \<and>
     taken_care_of (nats_context demo_nats (demo_nm ''ok'')) (from_nats demo_nats ''t'' (demo_nm ''ok''))
       (nats_dlq_message demo_nats (demo_subscriber 0) ''t'' (demo_nm ''ok'')) tr \<and> settlements tr = []"
  by (simp add: nats_processMessage_def nats_finish_message_def settle_nats_def demo_nats_def demo_subscriber_def
      demo_nats_handler_def demo_nm_def from_nats_def taken_care_of_def)

text \<open>With a JetStream context that stays set and at least one attempt, a message is acked only if the handler or
  the dead-letter topic took it, nak'd only if neither did, and never both. Since \<open>processMessage\<close>
  starts from \<open>context.Background()\<close>, no cancellation can interrupt a pause (the hypotheses: deriving
  a span or a remote parent adds no way to cancel, and a pause is only cut short by a context that
  something can cancel), so every message is settled exactly once.\<close>

lemma nats_settled_exactly_once:
  assumes js: "\<And>s. fst (js s)" and n: "0 < attempts (ns_maxRetries x)"
    and ctxs: "\<And>c f. cancel_sources (nats_extract ops c f) = cancel_sources c"
      "\<And>c n. cancel_sources (nats_span ops c n) = cancel_sources c"
    and wait: "\<And>c b s t. nats_wait ops c b s = (True, t) \<Longrightarrow> cancel_sources c \<noteq> {}"
  shows "settlements (fst (nats_processMessage ops js x topic nm h s)) =
    [if taken_care_of (nats_context ops nm) (from_nats ops topic nm) (nats_dlq_message ops x topic nm)
          (fst (nats_processMessage ops js x topic nm h s)) then Ack else Nak]"
proof -
  obtain tr t where p: "nats_processMessage ops js x topic nm h s = (tr, t)"
    by (cases "nats_processMessage ops js x topic nm h s")
  from nats_delivered.taken_care_of_iff[OF p] obtain f s1 where f: "nats_delivery ops x topic nm (read_policy js s1) f tr"
    "taken_care_of (nats_context ops nm) (from_nats ops topic nm) (nats_dlq_message ops x topic nm) tr \<longleftrightarrow>
       f \<in> {Handled, DeadLettered}"
    "settlements tr = (case read_policy js s1 f of None \<Rightarrow> [] | Some a \<Rightarrow> [a])" by blast
  have "cancel_sources (nats_context ops nm) = {}"
    by (simp add: nats_context_def nats_ExtractTraceContext_def ctxs split: option.splits)
  with wait have w: "fst (nats_wait ops (nats_context ops nm) b s) = False" for b s
    by (cases "nats_wait ops (nats_context ops nm) b s") auto
  from f(1) nats_uninterrupted[OF w p, of "ns_retryBackoff x"] have "f \<noteq> Aborted" by cases simp_all
  moreover have "f \<noteq> NotAttempted" using f(1) n by (auto elim: delivery.cases)
  ultimately show ?thesis using f js p by (cases f) (auto simp: read_policy_def nats_policy_def)
qed

text \<open>What the NATS publisher sends a subscriber gets: key and value unchanged. The headers are the
  trace fields and the key only: the headers of the published message are not sent.\<close>

lemma nats_round_trip_drops_headers:
  assumes "nats_header_laws ops" and "distinct (map fst (the (nm_header (to_nats ops ctx msg))))"
  shows "m_key (from_nats ops topic (to_nats ops ctx msg)) = m_key msg \<and>
    m_value (from_nats ops topic (to_nats ops ctx msg)) = m_value msg \<and>
    map_of (m_headers (from_nats ops topic (to_nats ops ctx msg))) =
      (map_of (rev (nats_fields ops ctx)))(''key'' \<mapsto> m_key msg)"
  using assms
  by (auto simp: from_nats_def to_nats_def hdr_get_map_of hdr_set_map_of map_of_natsHeadersToMap
      map_of_nats_Inject fun_eq_iff split: option.splits)

text \<open>The trace context survives the trip: a subscriber extracts exactly the fields the publisher
  injected (a later value for the same field wins; the field \<open>key\<close> is taken by the message key).\<close>

lemma nats_trace_propagation:
  assumes "nats_header_laws ops" and "''key'' \<notin> fst ` set (nats_fields ops ctx)"
  shows "nats_ExtractTraceContext ops ctx' (nm_header (to_nats ops ctx msg)) =
    nats_extract ops ctx' (\<lambda>k. case map_of (rev (nats_fields ops ctx)) k of Some v \<Rightarrow> v
                             | None \<Rightarrow> if k = ''key'' then m_key msg else [])"
proof -
  have "map_of (rev (nats_fields ops ctx)) ''key'' = None" using assms(2) by (simp add: map_of_eq_None_iff)
  then have "natsCarrier_Get ops (hdr_set ops ''key'' (m_key msg) (nats_InjectTraceContext ops ctx None)) =
    (\<lambda>k. case map_of (rev (nats_fields ops ctx)) k of Some v \<Rightarrow> v | None \<Rightarrow> if k = ''key'' then m_key msg else [])"
    by (auto simp: natsCarrier_Get_def hdr_get_map_of[OF assms(1)] hdr_set_map_of[OF assms(1)]
        map_of_nats_Inject[OF assms(1)] fun_eq_iff split: option.splits)
  then show ?thesis by (simp add: nats_ExtractTraceContext_def to_nats_def)
qed

end
