(* ===== verification/Workflow.thy ===== *)
theory Workflow
  imports Lifecycle
begin

text \<open>
  The Temporal client and worker components, \<open>src/pkg/workflow/client.go\<close> and \<open>worker.go\<close>.

  The Temporal SDK is the record \<open>temporal_sdk\<close>. A worker keeps a pointer to its client, so both
  live in one state \<open>wf_state\<close>, beside the world \<open>'s\<close>.
\<close>

record dial_options =
  do_hostPort :: string
  do_namespace :: string
  do_interceptors :: "nat list"

record wf_client =
  wc_hostPort :: string
  wc_namespace :: string
  wc_logger :: nat
  wc_tracerProvider :: "nat option"
  wc_temporalClient :: "nat option"

record wf_worker =
  ww_taskQueue :: string
  ww_workflows :: "nat list"
  ww_activities :: "nat list"
  ww_temporalWorker :: "nat option"

record wf_state =
  wf_cl :: wf_client
  wf_wk :: wf_worker

datatype reg_call = RegisterWorkflow nat | RegisterActivity nat

record ('v, 's) temporal_sdk =
  new_interceptor :: "nat \<Rightarrow> 's \<Rightarrow> (goerr + nat) \<times> 's"
  dial :: "dial_options \<Rightarrow> 's \<Rightarrow> (goerr + nat) \<times> 's"
  client_close :: "nat \<Rightarrow> 's \<Rightarrow> 's"
  execute_workflow :: "nat \<Rightarrow> ctx \<Rightarrow> string \<Rightarrow> string \<Rightarrow> 'v \<Rightarrow> 'v list \<Rightarrow> 's \<Rightarrow> (goerr + nat) \<times> 's"
  signal_workflow :: "nat \<Rightarrow> ctx \<Rightarrow> string \<Rightarrow> string \<Rightarrow> string \<Rightarrow> 'v \<Rightarrow> 's fallible"
  worker_new :: "nat \<Rightarrow> string \<Rightarrow> 's \<Rightarrow> nat \<times> 's"
  worker_register :: "nat \<Rightarrow> reg_call \<Rightarrow> 's \<Rightarrow> 's"
  worker_start :: "nat \<Rightarrow> 's fallible"
  worker_stop_within :: "nat \<Rightarrow> ctx \<Rightarrow> 's fallible"
    \<comment> \<open>\<open>Stop\<close> in a goroutine against the context: the context's error if that is first\<close>

section \<open>Client\<close>

datatype client_option =
    WithHostPort string
  | WithNamespace string
  | WithClientLogger nat
  | WithTracerProvider nat

fun apply_client_option :: "client_option \<Rightarrow> wf_client \<Rightarrow> wf_client" where
  "apply_client_option (WithHostPort hp) c = c\<lparr>wc_hostPort := hp\<rparr>"
| "apply_client_option (WithNamespace ns) c = c\<lparr>wc_namespace := ns\<rparr>"
| "apply_client_option (WithClientLogger l) c = c\<lparr>wc_logger := l\<rparr>"
| "apply_client_option (WithTracerProvider tp) c = c\<lparr>wc_tracerProvider := Some tp\<rparr>"

definition NewClient :: "client_option list \<Rightarrow> goerr + wf_client" where
  "NewClient opts = Inr (fold apply_client_option opts
     \<lparr>wc_hostPort = ''localhost:7233'', wc_namespace = ''default'', wc_logger = 0,
      wc_tracerProvider = None, wc_temporalClient = None\<rparr>)"

text \<open>The part of \<open>Start\<close> that builds the dial options, with the tracing interceptor if configured.\<close>

definition client_dial_options :: "('v, 's) temporal_sdk \<Rightarrow> wf_client \<Rightarrow> 's \<Rightarrow> (goerr + dial_options) \<times> 's" where
  "client_dial_options sdk c s =
     (let base = \<lparr>do_hostPort = wc_hostPort c, do_namespace = wc_namespace c, do_interceptors = []\<rparr> in
      case wc_tracerProvider c of
        None \<Rightarrow> (Inr base, s)
      | Some tp \<Rightarrow>
          (case new_interceptor sdk tp s of
             (Inl err, s1) \<Rightarrow> (Inl (Errorf [Lit ''workflow: create tracing interceptor: '', PW err]), s1)
           | (Inr i, s1) \<Rightarrow> (Inr (base\<lparr>do_interceptors := do_interceptors base @ [i]\<rparr>), s1)))"

definition Client_Start :: "('v, 's) temporal_sdk \<Rightarrow> (wf_state \<times> 's) fallible" where
  "Client_Start sdk st =
     (let c = wf_cl (fst st) in
      if wc_temporalClient c \<noteq> None then (Some (Errorf [Lit ''workflow: client already started'']), st)
      else (case client_dial_options sdk c (snd st) of
              (Inl err, s1) \<Rightarrow> (Some err, (fst st, s1))
            | (Inr dopts, s1) \<Rightarrow>
                (case dial sdk dopts s1 of
                   (Inl err, s2) \<Rightarrow> (Some (Errorf [Lit ''workflow: dial temporal server: '', PW err]), (fst st, s2))
                 | (Inr tc, s2) \<Rightarrow> (None, ((fst st)\<lparr>wf_cl := c\<lparr>wc_temporalClient := Some tc\<rparr>\<rparr>, s2)))))"

definition Client_Stop :: "('v, 's) temporal_sdk \<Rightarrow> (wf_state \<times> 's) fallible" where
  "Client_Stop sdk st =
     (case wc_temporalClient (wf_cl (fst st)) of
        None \<Rightarrow> (None, st)
      | Some tc \<Rightarrow>
          (None, ((fst st)\<lparr>wf_cl := (wf_cl (fst st))\<lparr>wc_temporalClient := None\<rparr>\<rparr>, client_close sdk tc (snd st))))"

definition ExecuteWorkflow :: "('v, 's) temporal_sdk \<Rightarrow> ctx \<Rightarrow> string \<times> string \<Rightarrow> 'v \<Rightarrow> 'v list \<Rightarrow>
    wf_client \<Rightarrow> 's \<Rightarrow> (goerr + nat) \<times> 's" where
  "ExecuteWorkflow sdk ctx opts wfn args c s =
     (case wc_temporalClient c of
        None \<Rightarrow> (Inl (Errorf [Lit ''workflow: client not started'']), s)
      | Some tc \<Rightarrow>
          (case execute_workflow sdk tc ctx (fst opts) (snd opts) wfn args s of
             (Inl err, s1) \<Rightarrow> (Inl (Errorf [Lit ''workflow: execute workflow: '', PW err]), s1)
           | (Inr run, s1) \<Rightarrow> (Inr run, s1)))"

definition SignalWorkflow :: "('v, 's) temporal_sdk \<Rightarrow> ctx \<Rightarrow> string \<Rightarrow> string \<Rightarrow> 'v \<Rightarrow> wf_client \<Rightarrow> 's fallible" where
  "SignalWorkflow sdk ctx workflowID signalName arg c s =
     (case wc_temporalClient c of
        None \<Rightarrow> (Some (Errorf [Lit ''workflow: client not started'']), s)
      | Some tc \<Rightarrow>
          apfst (map_option (\<lambda>err. Errorf [Lit ''workflow: signal workflow '', PQ workflowID, Lit '': '', PW err]))
            (signal_workflow sdk tc ctx workflowID [] signalName arg s))"

text \<open>\<open>workflowRun\<close>, the handle \<open>ExecuteWorkflow\<close> returns, forwards to the SDK's run of the same number.\<close>

record ('v, 's) run_api =
  api_GetID :: "nat \<Rightarrow> string"
  api_GetRunID :: "nat \<Rightarrow> string"
  api_Get :: "nat \<Rightarrow> ctx \<Rightarrow> 's \<Rightarrow> (goerr + 'v) \<times> 's"

definition workflowRun_GetID :: "('v, 's) run_api \<Rightarrow> nat \<Rightarrow> string" where
  "workflowRun_GetID api run = api_GetID api run"

definition workflowRun_GetRunID :: "('v, 's) run_api \<Rightarrow> nat \<Rightarrow> string" where
  "workflowRun_GetRunID api run = api_GetRunID api run"

definition workflowRun_Get :: "('v, 's) run_api \<Rightarrow> nat \<Rightarrow> ctx \<Rightarrow> 's \<Rightarrow> (goerr + 'v) \<times> 's" where
  "workflowRun_Get api run ctx s = api_Get api run ctx s"

definition TemporalClient :: "wf_client \<Rightarrow> nat option" where
  "TemporalClient c = wc_temporalClient c"

section \<open>Worker\<close>

record worker_config =
  cfg_taskQueue :: string
  cfg_workflows :: "nat list"
  cfg_activities :: "nat list"

text \<open>\<open>None\<close> as the client is the nil pointer.\<close>

definition NewWorker :: "wf_client option \<Rightarrow> worker_config \<Rightarrow> goerr + wf_state" where
  "NewWorker client cfg =
     (case client of
        None \<Rightarrow> Inl (Errorf [Lit ''workflow: client must not be nil''])
      | Some c \<Rightarrow>
          if cfg_taskQueue cfg = [] then Inl (Errorf [Lit ''workflow: task queue must not be empty''])
          else Inr \<lparr>wf_cl = c,
                    wf_wk = \<lparr>ww_taskQueue = cfg_taskQueue cfg, ww_workflows = cfg_workflows cfg,
                             ww_activities = cfg_activities cfg, ww_temporalWorker = None\<rparr>\<rparr>)"

definition registrations :: "wf_worker \<Rightarrow> reg_call list" where
  "registrations w = map RegisterWorkflow (ww_workflows w) @ map RegisterActivity (ww_activities w)"

definition Worker_Start :: "('v, 's) temporal_sdk \<Rightarrow> (wf_state \<times> 's) fallible" where
  "Worker_Start sdk st =
     (let w = wf_wk (fst st) in
      if ww_temporalWorker w \<noteq> None then (Some (Errorf [Lit ''workflow: worker already started'']), st)
      else (case TemporalClient (wf_cl (fst st)) of
              None \<Rightarrow> (Some (Errorf [Lit ''workflow: client not started; start the client before the worker'']), st)
            | Some tc \<Rightarrow>
                (case worker_new sdk tc (ww_taskQueue w) (snd st) of
                   (tw, s1) \<Rightarrow>
                     (case worker_start sdk tw (fold (worker_register sdk tw) (registrations w) s1) of
                        (Some err, s2) \<Rightarrow> (Some (Errorf [Lit ''workflow: start worker: '', PW err]), (fst st, s2))
                      | (None, s2) \<Rightarrow> (None, ((fst st)\<lparr>wf_wk := w\<lparr>ww_temporalWorker := Some tw\<rparr>\<rparr>, s2))))))"

definition Worker_Stop :: "('v, 's) temporal_sdk \<Rightarrow> ctx \<Rightarrow> (wf_state \<times> 's) fallible" where
  "Worker_Stop sdk ctx st =
     (case ww_temporalWorker (wf_wk (fst st)) of
        None \<Rightarrow> (None, st)
      | Some tw \<Rightarrow>
          (case worker_stop_within sdk tw ctx (snd st) of
             (err, s1) \<Rightarrow> (map_option (\<lambda>e. Errorf [Lit ''workflow: worker stop timed out: '', PW e]) err,
                            ((fst st)\<lparr>wf_wk := (wf_wk (fst st))\<lparr>ww_temporalWorker := None\<rparr>\<rparr>, s1))))"

section \<open>The component contract\<close>

interpretation client_lc: lifecycle "Client_Start sdk" "Client_Stop sdk"
  "\<lambda>st. wc_temporalClient (wf_cl (fst st)) \<noteq> None" for sdk
proof
  show "wc_temporalClient (wf_cl (fst s)) \<noteq> None \<Longrightarrow> \<exists>e. Client_Start sdk s = (Some e, s)" for s
    by (simp add: Client_Start_def)
  show "Client_Start sdk s = (None, t) \<Longrightarrow> wc_temporalClient (wf_cl (fst t)) \<noteq> None" for s t
    by (auto simp: Client_Start_def Let_def split: if_splits prod.splits sum.splits)
  show "Client_Start sdk s = (Some e, t) \<Longrightarrow>
      (wc_temporalClient (wf_cl (fst t)) \<noteq> None) = (wc_temporalClient (wf_cl (fst s)) \<noteq> None)" for s e t
    by (auto simp: Client_Start_def Let_def split: if_splits prod.splits sum.splits)
  show "\<not> wc_temporalClient (wf_cl (fst s)) \<noteq> None \<Longrightarrow> Client_Stop sdk s = (None, s)" for s
    by (simp add: Client_Stop_def)
  show "Client_Stop sdk s = (r, t) \<Longrightarrow> \<not> wc_temporalClient (wf_cl (fst t)) \<noteq> None" for s r t
    by (auto simp: Client_Stop_def split: option.splits)
qed

interpretation worker_lc: lifecycle "Worker_Start sdk" "Worker_Stop sdk ctx"
  "\<lambda>st. ww_temporalWorker (wf_wk (fst st)) \<noteq> None" for sdk ctx
proof
  show "ww_temporalWorker (wf_wk (fst s)) \<noteq> None \<Longrightarrow> \<exists>e. Worker_Start sdk s = (Some e, s)" for s
    by (simp add: Worker_Start_def)
  show "Worker_Start sdk s = (None, t) \<Longrightarrow> ww_temporalWorker (wf_wk (fst t)) \<noteq> None" for s t
    by (auto simp: Worker_Start_def Let_def split: if_splits prod.splits option.splits)
  show "Worker_Start sdk s = (Some e, t) \<Longrightarrow>
      (ww_temporalWorker (wf_wk (fst t)) \<noteq> None) = (ww_temporalWorker (wf_wk (fst s)) \<noteq> None)" for s e t
    by (auto simp: Worker_Start_def Let_def split: if_splits prod.splits option.splits)
  show "\<not> ww_temporalWorker (wf_wk (fst s)) \<noteq> None \<Longrightarrow> Worker_Stop sdk ctx s = (None, s)" for s
    by (simp add: Worker_Stop_def)
  show "Worker_Stop sdk ctx s = (r, t) \<Longrightarrow> \<not> ww_temporalWorker (wf_wk (fst t)) \<noteq> None" for s r t
    by (auto simp: Worker_Stop_def split: option.splits prod.splits)
qed

text \<open>A running worker implies a started client, as long as the worker is stopped before the client.\<close>

definition worker_has_client :: "wf_state \<Rightarrow> bool" where
  "worker_has_client w \<longleftrightarrow> (ww_temporalWorker (wf_wk w) \<noteq> None \<longrightarrow> wc_temporalClient (wf_cl w) \<noteq> None)"

datatype wf_call = StartClient | StartWorker | StopWorker | StopClient

definition wf_step :: "('v, 's) temporal_sdk \<Rightarrow> ctx \<Rightarrow> wf_call \<Rightarrow> wf_state \<times> 's \<Rightarrow> wf_state \<times> 's" where
  "wf_step sdk ctx c st =
     (case c of StartClient \<Rightarrow> snd (Client_Start sdk st) | StartWorker \<Rightarrow> snd (Worker_Start sdk st)
      | StopWorker \<Rightarrow> snd (Worker_Stop sdk ctx st) | StopClient \<Rightarrow> snd (Client_Stop sdk st))"

text \<open>States reached by starts and stops, the client being stopped only while the worker is not running.\<close>

inductive wf_reachable :: "('v, 's) temporal_sdk \<Rightarrow> ctx \<Rightarrow> wf_state \<times> 's \<Rightarrow> bool" for sdk ctx where
  created: "NewWorker (Some c) cfg = Inr w \<Longrightarrow> wf_reachable sdk ctx (w, s)"
| called: "wf_reachable sdk ctx st \<Longrightarrow>
    call = StopClient \<Longrightarrow> ww_temporalWorker (wf_wk (fst st)) = None \<Longrightarrow>
    wf_reachable sdk ctx (wf_step sdk ctx call st)"
| called_other: "wf_reachable sdk ctx st \<Longrightarrow> call \<noteq> StopClient \<Longrightarrow>
    wf_reachable sdk ctx (wf_step sdk ctx call st)"

lemma client_ops_keep_worker:
  "wf_wk (fst (snd (Client_Start sdk st))) = wf_wk (fst st)"
  "wf_wk (fst (snd (Client_Stop sdk st))) = wf_wk (fst st)"
  by (auto simp: Client_Start_def Client_Stop_def Let_def split: prod.splits sum.splits option.splits)

lemma worker_ops_keep_client:
  "wf_cl (fst (snd (Worker_Start sdk st))) = wf_cl (fst st)"
  "wf_cl (fst (snd (Worker_Stop sdk ctx st))) = wf_cl (fst st)"
  by (auto simp: Worker_Start_def Worker_Stop_def Let_def split: prod.splits option.splits)

lemma Client_Start_keeps_started:
  "wc_temporalClient (wf_cl (fst st)) \<noteq> None \<Longrightarrow> wc_temporalClient (wf_cl (fst (snd (Client_Start sdk st)))) \<noteq> None"
  by (simp add: Client_Start_def)

lemma Worker_Start_started:
  "ww_temporalWorker (wf_wk (fst (snd (Worker_Start sdk st)))) \<noteq> None \<Longrightarrow>
     ww_temporalWorker (wf_wk (fst st)) \<noteq> None \<or> wc_temporalClient (wf_cl (fst st)) \<noteq> None"
  by (auto simp: Worker_Start_def TemporalClient_def Let_def split: if_splits option.splits)

lemma Worker_Stop_stopped: "ww_temporalWorker (wf_wk (fst (snd (Worker_Stop sdk ctx st)))) = None"
  by (auto simp: Worker_Stop_def split: option.splits prod.splits)

lemma wf_step_keeps:
  assumes "worker_has_client (fst st)"
    and "c = StopClient \<Longrightarrow> ww_temporalWorker (wf_wk (fst st)) = None"
  shows "worker_has_client (fst (wf_step sdk ctx c st))"
  using assms Client_Start_keeps_started[of st sdk] Worker_Start_started[of sdk st]
  by (cases c) (auto simp: wf_step_def worker_has_client_def client_ops_keep_worker
      worker_ops_keep_client Worker_Stop_stopped)

lemma wf_reachable_keeps: "wf_reachable sdk ctx st \<Longrightarrow> worker_has_client (fst st)"
  by (induction rule: wf_reachable.induct)
    (auto simp: NewWorker_def worker_has_client_def[of "\<lparr>wf_cl = c, wf_wk = w\<rparr>" for c w]
      intro!: wf_step_keeps split: if_splits)

section \<open>Properties\<close>

text \<open>A worker never runs without its client: starting the worker first fails and changes nothing,
  and over any sequence of starts and stops in which the client is only stopped while the worker is
  not running (the reverse of registration order, which \<open>App.Run\<close> uses), a running worker has a
  connected client.\<close>

lemma worker_never_without_client:
  assumes "wf_reachable sdk ctx st"
  shows "(ww_temporalWorker (wf_wk (fst st)) \<noteq> None \<longrightarrow> wc_temporalClient (wf_cl (fst st)) \<noteq> None) \<and>
    (wc_temporalClient (wf_cl (fst st)) = None \<longrightarrow> (\<exists>e. Worker_Start sdk st = (Some e, st)))"
  using wf_reachable_keeps[OF assms] by (simp add: worker_has_client_def Worker_Start_def TemporalClient_def Let_def)

definition demo_sdk :: "(unit, nat) temporal_sdk" where
  "demo_sdk = \<lparr>new_interceptor = (\<lambda>tp s. (Inr 1, s)), dial = (\<lambda>d s. (Inr 2, s)), client_close = (\<lambda>c s. s),
     execute_workflow = (\<lambda>c x i q w as s. (Inr 3, s)), signal_workflow = (\<lambda>c x w r n a s. (None, s)),
     worker_new = (\<lambda>c q s. (4, s)), worker_register = (\<lambda>w r s. Suc s), worker_start = (\<lambda>w s. (None, s)),
     worker_stop_within = (\<lambda>w x s. (None, s))\<rparr>"

definition demo_wf :: wf_state where
  "demo_wf = \<lparr>wf_cl = \<lparr>wc_hostPort = ''localhost:7233'', wc_namespace = ''default'', wc_logger = 0,
       wc_tracerProvider = None, wc_temporalClient = None\<rparr>,
     wf_wk = \<lparr>ww_taskQueue = ''q'', ww_workflows = [7], ww_activities = [8], ww_temporalWorker = None\<rparr>\<rparr>"

end
