(* ===== verification/Http.thy ===== *)
theory Http
  imports Lifecycle "HOL-Library.AList"
begin

text \<open>
  The parts of Go's standard library the HTTP packages use: \<open>net/http\<close> headers with canonical
  keys, requests, JSON values, and the response writer.

  JSON texts are kept as the values they denote; a \<open>[]byte\<close> field, which \<open>encoding/json\<close> writes
  in base64, is \<open>JBytes\<close>.
\<close>

section \<open>Header maps\<close>

text \<open>
  \<open>textproto.CanonicalMIMEHeaderKey\<close>: the first letter and every letter after a hyphen in upper
  case, the rest in lower case; keys with bytes that are not token characters are left alone.
\<close>

definition upper :: "char \<Rightarrow> char" where
  "upper c = (let n = of_char c :: nat in if 97 \<le> n \<and> n \<le> 122 then char_of (n - 32) else c)"

definition lower :: "char \<Rightarrow> char" where
  "lower c = (let n = of_char c :: nat in if 65 \<le> n \<and> n \<le> 90 then char_of (n + 32) else c)"

definition token_char :: "char \<Rightarrow> bool" where
  "token_char c \<longleftrightarrow>
     (let n = of_char c :: nat in
      (48 \<le> n \<and> n \<le> 57) \<or> (65 \<le> n \<and> n \<le> 90) \<or> (97 \<le> n \<and> n \<le> 122) \<or>
      c \<in> set ''!#$%&*+-.^_`|~'' \<or> n = 39)"

fun canon_from :: "bool \<Rightarrow> string \<Rightarrow> string" where
  "canon_from up [] = []"
| "canon_from up (c # cs) = (if up then upper c else lower c) # canon_from (c = CHR ''-'') cs"

definition CanonicalKey :: "string \<Rightarrow> string" where
  "CanonicalKey k = (if list_all token_char k then canon_from True k else k)"

type_synonym header = "(string \<times> string list) list"

definition Header_Set :: "string \<Rightarrow> string \<Rightarrow> header \<Rightarrow> header" where
  "Header_Set k v h = AList.update (CanonicalKey k) [v] h"

definition Header_Get :: "header \<Rightarrow> string \<Rightarrow> string" where
  "Header_Get h k = (case map_of h (CanonicalKey k) of Some (v # _) \<Rightarrow> v | _ \<Rightarrow> [])"

section \<open>Requests\<close>

record request =
  rq_ctx :: ctx
  rq_method :: string
  rq_path :: string
  rq_header :: header

definition StatusOK :: int where "StatusOK = 200"
definition StatusNotFound :: int where "StatusNotFound = 404"
definition StatusConflict :: int where "StatusConflict = 409"
definition StatusInternalServerError :: int where "StatusInternalServerError = 500"
definition StatusServiceUnavailable :: int where "StatusServiceUnavailable = 503"

lemmas status_defs = StatusOK_def StatusNotFound_def StatusConflict_def StatusInternalServerError_def StatusServiceUnavailable_def

definition newline :: string where "newline = [CHR 0x0A]"

section \<open>JSON values\<close>

datatype json =
    JNull | JBool bool | JNum int | JString string | JBytes string
  | JArr "json list" | JObj "(string \<times> json) list"

section \<open>Response writers\<close>

text \<open>
  The calls a handler makes on its \<open>ResponseWriter\<close>. A piece of the body is the bytes of a \<open>Write\<close>, or
  the value \<open>json.NewEncoder(w).Encode\<close> writes (its text and a newline). A handler is a function to its
  calls, whether it panicked after them, and the new world; a \<open>WriteHeader\<close> that \<open>net/http\<close> refuses
  (a code outside 100 to 999) is a panic and not among the calls.
\<close>

datatype chunk = Bytes string | JSONLine json

datatype write_call =
    SetHeader string string | AddHeader string string | DelHeader string | WriteHeader int | Write chunk

type_synonym outcome = "write_call list \<times> bool"

type_synonym 's raw_handler = "request \<Rightarrow> 's \<Rightarrow> outcome \<times> 's"

definition Header_Add :: "string \<Rightarrow> string \<Rightarrow> header \<Rightarrow> header" where
  "Header_Add k v h =
     AList.update (CanonicalKey k) ((case map_of h (CanonicalKey k) of None \<Rightarrow> [] | Some vs \<Rightarrow> vs) @ [v]) h"

definition Header_Del :: "string \<Rightarrow> header \<Rightarrow> header" where
  "Header_Del k h = AList.delete (CanonicalKey k) h"

text \<open>
  The writer of \<open>net/http\<close>: the header map belongs to the handler until the first final
  \<open>WriteHeader\<close> or the first \<open>Write\<close>, which takes a copy of it; later status calls are
  \<open>superfluous\<close> and ignored, an informational status (1xx but 101) is sent at once and changes
  nothing else, and the body of a status that has none is dropped. The headers \<open>net/http\<close> itself adds (date, length,
  detected content type) are not part of it. The writer is that of a request with a body in its response, and of
  handlers that declare no \<open>Content-Length\<close>: for a \<open>HEAD\<close> request \<open>net/http\<close> drops the body, and it cuts one
  that is longer than declared.
\<close>

record net_writer =
  nw_header :: header
  nw_sent :: "(int \<times> header) option"
  nw_body :: "chunk list"

definition informational :: "int \<Rightarrow> bool" where
  "informational code \<longleftrightarrow> 100 \<le> code \<and> code < 200 \<and> code \<noteq> 101"

definition bodyAllowedForStatus :: "int \<Rightarrow> bool" where
  "bodyAllowedForStatus code \<longleftrightarrow> \<not> (100 \<le> code \<and> code \<le> 199) \<and> code \<noteq> 204 \<and> code \<noteq> 304"

definition send_header :: "int \<Rightarrow> net_writer \<Rightarrow> net_writer" where
  "send_header code w = (if nw_sent w = None then w\<lparr>nw_sent := Some (code, nw_header w)\<rparr> else w)"

definition send_chunk :: "chunk \<Rightarrow> net_writer \<Rightarrow> net_writer" where
  "send_chunk b w =
     (case nw_sent w of
        None \<Rightarrow> w
      | Some (code, _) \<Rightarrow> if bodyAllowedForStatus code then w\<lparr>nw_body := nw_body w @ [b]\<rparr> else w)"

fun net_call :: "write_call \<Rightarrow> net_writer \<Rightarrow> net_writer" where
  "net_call (SetHeader k v) w = w\<lparr>nw_header := Header_Set k v (nw_header w)\<rparr>"
| "net_call (AddHeader k v) w = w\<lparr>nw_header := Header_Add k v (nw_header w)\<rparr>"
| "net_call (DelHeader k) w = w\<lparr>nw_header := Header_Del k (nw_header w)\<rparr>"
| "net_call (WriteHeader code) w = (if informational code then w else send_header code w)"
| "net_call (Write b) w = send_chunk b (send_header StatusOK w)"

text \<open>\<open>http.Error\<close> and \<open>http.NotFound\<close>.\<close>

definition http_Error :: "string \<Rightarrow> int \<Rightarrow> write_call list" where
  "http_Error msg code =
     [DelHeader ''Content-Length'', SetHeader ''Content-Type'' ''text/plain; charset=utf-8'',
      SetHeader ''X-Content-Type-Options'' ''nosniff'', WriteHeader code, Write (Bytes (msg @ newline))]"

definition NotFound :: "write_call list" where
  "NotFound = http_Error ''404 page not found'' StatusNotFound"

definition new_writer :: net_writer where
  "new_writer = \<lparr>nw_header = [], nw_sent = None, nw_body = []\<rparr>"

text \<open>What the client of a request receives once the handler has returned.\<close>

record sent_response =
  sr_status :: int
  sr_header :: header
  sr_body :: "chunk list"

definition sent :: "write_call list \<Rightarrow> sent_response" where
  "sent ws =
     (let w = send_header StatusOK (fold net_call ws new_writer) in
      case nw_sent w of
        None \<Rightarrow> \<lparr>sr_status = StatusOK, sr_header = [], sr_body = []\<rparr>
      | Some (code, h) \<Rightarrow> \<lparr>sr_status = code, sr_header = h, sr_body = nw_body w\<rparr>)"

text \<open>A call that makes \<open>net/http\<close> commit to a status.\<close>

definition commits :: "write_call \<Rightarrow> bool" where
  "commits w \<longleftrightarrow> (case w of WriteHeader code \<Rightarrow> \<not> informational code | Write _ \<Rightarrow> True | _ \<Rightarrow> False)"

lemma net_call_commits: "nw_sent (net_call c w) \<noteq> None \<longleftrightarrow> nw_sent w \<noteq> None \<or> commits c"
  by (cases c) (auto simp: commits_def send_header_def send_chunk_def split: option.splits)

lemma net_calls_commit: "nw_sent (fold net_call ws w) \<noteq> None \<longleftrightarrow> nw_sent w \<noteq> None \<or> (\<exists>c \<in> set ws. commits c)"
proof (induction ws arbitrary: w)
  case (Cons c ws)
  then show ?case using net_call_commits[of c w] by auto
qed simp

lemma net_call_keeps: "nw_sent w = Some ch \<Longrightarrow> nw_sent (net_call c w) = Some ch"
  by (cases c) (auto simp: send_header_def send_chunk_def split: prod.splits)

lemma net_calls_keep: "nw_sent w = Some ch \<Longrightarrow> nw_sent (fold net_call ws w) = Some ch"
  by (induction ws arbitrary: w) (simp_all add: net_call_keeps)

definition chunk_of :: "write_call \<Rightarrow> chunk list" where
  "chunk_of c = (case c of Write b \<Rightarrow> [b] | _ \<Rightarrow> [])"

lemma net_call_body:
  "nw_sent w = Some (code, h) \<Longrightarrow>
     nw_body (net_call c w) = nw_body w @ (if bodyAllowedForStatus code then chunk_of c else [])"
  by (cases c) (simp_all add: send_header_def send_chunk_def chunk_of_def)

lemma net_calls_body:
  "nw_sent w = Some (code, h) \<Longrightarrow>
     nw_body (fold net_call ws w) = nw_body w @ (if bodyAllowedForStatus code then concat (map chunk_of ws) else [])"
proof (induction ws arbitrary: w)
  case (Cons c ws)
  from Cons.IH[OF net_call_keeps[OF Cons.prems]] net_call_body[OF Cons.prems, of c] show ?case by simp
qed simp

lemma net_calls_quiet:
  assumes "\<forall>c \<in> set ws. \<not> commits c" and "nw_sent w = None"
  shows "nw_sent (fold net_call ws w) = None \<and> nw_body (fold net_call ws w) = nw_body w"
  using assms
proof (induction ws arbitrary: w)
  case (Cons c ws)
  then have "nw_sent (net_call c w) = None \<and> nw_body (net_call c w) = nw_body w"
    by (cases c) (auto simp: commits_def)
  with Cons.IH[of "net_call c w"] Cons.prems show ?case by simp
qed simp

text \<open>The status sent is that of the first call that commits to one.\<close>

fun sent_status :: "write_call list \<Rightarrow> int" where
  "sent_status [] = StatusOK"
| "sent_status (WriteHeader code # ws) = (if informational code then sent_status ws else code)"
| "sent_status (Write b # ws) = StatusOK"
| "sent_status (_ # ws) = sent_status ws"

lemma net_calls_status:
  "nw_sent w = None \<Longrightarrow> map_option fst (nw_sent (send_header StatusOK (fold net_call ws w))) = Some (sent_status ws)"
proof (induction ws arbitrary: w rule: sent_status.induct)
  case (2 code ws)
  show ?case
  proof (cases "informational code")
    case False
    have "nw_sent (net_call (WriteHeader code) w) = Some (code, nw_header w)" using False 2 by (simp add: send_header_def)
    from net_calls_keep[OF this, of ws] False show ?thesis by (simp add: send_header_def)
  qed (use 2 in simp)
next
  case (3 b ws)
  then have "nw_sent (net_call (Write b) w) = Some (StatusOK, nw_header w)" by (simp add: send_header_def send_chunk_def)
  from net_calls_keep[OF this, of ws] show ?case by (simp add: send_header_def)
qed (auto simp: send_header_def)

lemma sent_status_sent: "sr_status (sent ws) = sent_status ws"
  using net_calls_status[of new_writer ws] by (auto simp: new_writer_def sent_def Let_def split: option.splits prod.splits)

text \<open>Once committed, the status and the headers stand; only body can follow.\<close>

lemma sent_append:
  assumes "\<exists>c \<in> set ws. commits c"
  shows "sr_status (sent (ws @ vs)) = sr_status (sent ws)" and "sr_header (sent (ws @ vs)) = sr_header (sent ws)"
    and "sr_body (sent (ws @ vs)) = sr_body (sent ws) @
      (if bodyAllowedForStatus (sr_status (sent ws)) then concat (map chunk_of vs) else [])"
proof -
  obtain code h where c: "nw_sent (fold net_call ws new_writer) = Some (code, h)"
    using assms net_calls_commit[of ws new_writer] by (auto simp: new_writer_def)
  note k = net_calls_keep[OF c, of vs] and b = net_calls_body[OF c, of vs]
  show "sr_status (sent (ws @ vs)) = sr_status (sent ws)" "sr_header (sent (ws @ vs)) = sr_header (sent ws)"
    "sr_body (sent (ws @ vs)) = sr_body (sent ws) @
      (if bodyAllowedForStatus (sr_status (sent ws)) then concat (map chunk_of vs) else [])"
    using c k b by (simp_all add: sent_def Let_def send_header_def)
qed

section \<open>Maps as lists of entries\<close>

lemma update_new_key: "k \<notin> fst ` set acc \<Longrightarrow> AList.update k v acc = acc @ [(k, v)]"
  by (induction acc) auto

end
