(* ===== verification/Redis.thy ===== *)
theory Redis
  imports Http
begin

text \<open>
  The Redis component, \<open>src/pkg/redis/redis.go\<close> and \<open>errors.go\<close>.

  go-redis is the record \<open>goredis\<close>, its sentinel \<open>goredis.Nil\<close> included. A value to store is given
  by what \<open>json.Marshal\<close> makes of it (an error for a value JSON cannot represent), a destination by
  the decoder \<open>json.Unmarshal\<close> applies for its type.
\<close>

definition ErrKeyNotFound :: goerr where
  "ErrKeyNotFound = ErrNew ''redis: key not found''"

record redis_options =
  ro_Addr :: string
  ro_Password :: string
  ro_DB :: int
  ro_DialTimeout :: int
  ro_ReadTimeout :: int
  ro_WriteTimeout :: int

record 's goredis =
  rd_Nil :: goerr
  rd_new :: "redis_options \<Rightarrow> 's \<Rightarrow> nat \<times> 's"
  rd_ping :: "nat \<Rightarrow> ctx \<Rightarrow> 's fallible"
  rd_close :: "nat \<Rightarrow> 's fallible"
  rd_set :: "nat \<Rightarrow> ctx \<Rightarrow> string \<Rightarrow> json \<Rightarrow> int \<Rightarrow> 's fallible"
  rd_get :: "nat \<Rightarrow> ctx \<Rightarrow> string \<Rightarrow> 's \<Rightarrow> (goerr + json) \<times> 's"
  rd_set_nx :: "nat \<Rightarrow> ctx \<Rightarrow> string \<Rightarrow> json \<Rightarrow> int \<Rightarrow> 's fallible"
  rd_del :: "nat \<Rightarrow> ctx \<Rightarrow> string list \<Rightarrow> 's fallible"

record redis_client =
  rc_addr :: string
  rc_password :: string
  rc_db :: int
  rc_logger :: nat
  rc_rdb :: "nat option"

datatype redis_option = WithAddr string | WithPassword string | WithDB int | WithLogger nat

fun apply_redis_option :: "redis_option \<Rightarrow> redis_client \<Rightarrow> redis_client" where
  "apply_redis_option (WithAddr addr) c = c\<lparr>rc_addr := addr\<rparr>"
| "apply_redis_option (WithPassword p) c = c\<lparr>rc_password := p\<rparr>"
| "apply_redis_option (WithDB db) c = c\<lparr>rc_db := db\<rparr>"
| "apply_redis_option (WithLogger l) c = c\<lparr>rc_logger := l\<rparr>"

definition Redis_New :: "redis_option list \<Rightarrow> goerr + redis_client" where
  "Redis_New opts = Inr (fold apply_redis_option opts
     \<lparr>rc_addr = ''localhost:6379'', rc_password = [], rc_db = 0, rc_logger = 0, rc_rdb = None\<rparr>)"

definition Redis_Start :: "'s goredis \<Rightarrow> ctx \<Rightarrow> (redis_client \<times> 's) fallible" where
  "Redis_Start ops ctx st =
     (let c = fst st in
      if rc_rdb c \<noteq> None then (Some (Errorf [Lit ''redis: already started'']), st)
      else (case rd_new ops \<lparr>ro_Addr = rc_addr c, ro_Password = rc_password c, ro_DB = rc_db c,
                  ro_DialTimeout = 5 * second, ro_ReadTimeout = 3 * second, ro_WriteTimeout = 3 * second\<rparr> (snd st) of
              (rdb, s0) \<Rightarrow>
                (case rd_ping ops rdb ctx s0 of
                   (Some err, s1) \<Rightarrow> (Some (Errorf [Lit ''redis: ping failed: '', PW err]), (c, snd (rd_close ops rdb s1)))
                 | (None, s1) \<Rightarrow> (None, (c\<lparr>rc_rdb := Some rdb\<rparr>, s1)))))"

definition Redis_Stop :: "'s goredis \<Rightarrow> (redis_client \<times> 's) fallible" where
  "Redis_Stop ops st =
     (case rc_rdb (fst st) of
        None \<Rightarrow> (None, st)
      | Some rdb \<Rightarrow>
          (case rd_close ops rdb (snd st) of
             (err, s1) \<Rightarrow> (map_option (\<lambda>e. Errorf [Lit ''redis: close failed: '', PW e]) err,
                            ((fst st)\<lparr>rc_rdb := None\<rparr>, s1))))"

definition not_connected :: goerr where
  "not_connected = Errorf [Lit ''redis: not connected'']"

definition Redis_HealthCheck :: "'s goredis \<Rightarrow> redis_client \<Rightarrow> ctx \<Rightarrow> 's fallible" where
  "Redis_HealthCheck ops c ctx s =
     (case rc_rdb c of
        None \<Rightarrow> (Some not_connected, s)
      | Some rdb \<Rightarrow>
          apfst (map_option (\<lambda>err. Errorf [Lit ''redis: health check failed: '', PW err])) (rd_ping ops rdb ctx s))"

definition Redis_Set :: "'s goredis \<Rightarrow> redis_client \<Rightarrow> ctx \<Rightarrow> string \<Rightarrow> goerr + json \<Rightarrow> int \<Rightarrow> 's fallible" where
  "Redis_Set ops c ctx key marshalled ttl s =
     (case rc_rdb c of
        None \<Rightarrow> (Some not_connected, s)
      | Some rdb \<Rightarrow>
          (case marshalled of
             Inl err \<Rightarrow> (Some (Errorf [Lit ''redis: marshal value: '', PW err]), s)
           | Inr data \<Rightarrow>
               apfst (map_option (\<lambda>err. Errorf [Lit ''redis: set key '', PQ key, Lit '': '', PW err]))
                 (rd_set ops rdb ctx key data ttl s)))"

definition Redis_Get :: "'s goredis \<Rightarrow> redis_client \<Rightarrow> ctx \<Rightarrow> string \<Rightarrow> (json \<Rightarrow> goerr + 'a) \<Rightarrow> 's \<Rightarrow>
    (goerr + 'a) \<times> 's" where
  "Redis_Get ops c ctx key unmarshal s =
     (case rc_rdb c of
        None \<Rightarrow> (Inl not_connected, s)
      | Some rdb \<Rightarrow>
          (case rd_get ops rdb ctx key s of
             (Inl err, s1) \<Rightarrow>
               if errors_Is err (rd_Nil ops)
               then (Inl (Errorf [Lit ''redis: get key '', PQ key, Lit '': '', PW ErrKeyNotFound]), s1)
               else (Inl (Errorf [Lit ''redis: get key '', PQ key, Lit '': '', PW err]), s1)
           | (Inr data, s1) \<Rightarrow>
               (case unmarshal data of
                  Inl err \<Rightarrow> (Inl (Errorf [Lit ''redis: unmarshal key '', PQ key, Lit '': '', PW err]), s1)
                | Inr v \<Rightarrow> (Inr v, s1))))"

definition Redis_SetNX :: "'s goredis \<Rightarrow> redis_client \<Rightarrow> ctx \<Rightarrow> string \<Rightarrow> goerr + json \<Rightarrow> int \<Rightarrow> 's \<Rightarrow>
    (goerr + bool) \<times> 's" where
  "Redis_SetNX ops c ctx key marshalled ttl s =
     (case rc_rdb c of
        None \<Rightarrow> (Inl not_connected, s)
      | Some rdb \<Rightarrow>
          (case marshalled of
             Inl err \<Rightarrow> (Inl (Errorf [Lit ''redis: marshal value: '', PW err]), s)
           | Inr data \<Rightarrow>
               (case rd_set_nx ops rdb ctx key data ttl s of
                  (None, s1) \<Rightarrow> (Inr True, s1)
                | (Some err, s1) \<Rightarrow>
                    if errors_Is err (rd_Nil ops) then (Inr False, s1)
                    else (Inl (Errorf [Lit ''redis: setnx key '', PQ key, Lit '': '', PW err]), s1))))"

definition Redis_Del :: "'s goredis \<Rightarrow> redis_client \<Rightarrow> ctx \<Rightarrow> string list \<Rightarrow> 's fallible" where
  "Redis_Del ops c ctx keys s =
     (case rc_rdb c of
        None \<Rightarrow> (Some not_connected, s)
      | Some rdb \<Rightarrow> apfst (map_option (\<lambda>err. Errorf [Lit ''redis: del keys: '', PW err])) (rd_del ops rdb ctx keys s))"

definition Redis_Unwrap :: "redis_client \<Rightarrow> nat option" where
  "Redis_Unwrap c = rc_rdb c"

interpretation redis_lc: lifecycle "Redis_Start ops ctx" "Redis_Stop ops"
  "\<lambda>st. rc_rdb (fst st) \<noteq> None" for ops ctx
proof
  show "rc_rdb (fst s) \<noteq> None \<Longrightarrow> \<exists>e. Redis_Start ops ctx s = (Some e, s)" for s
    by (simp add: Redis_Start_def)
  show "Redis_Start ops ctx s = (None, t) \<Longrightarrow> rc_rdb (fst t) \<noteq> None" for s t
    by (auto simp: Redis_Start_def Let_def split: if_splits prod.splits option.splits)
  show "Redis_Start ops ctx s = (Some e, t) \<Longrightarrow> (rc_rdb (fst t) \<noteq> None) = (rc_rdb (fst s) \<noteq> None)" for s e t
    by (auto simp: Redis_Start_def Let_def split: if_splits prod.splits option.splits)
  show "\<not> rc_rdb (fst s) \<noteq> None \<Longrightarrow> Redis_Stop ops s = (None, s)" for s
    by (simp add: Redis_Stop_def)
  show "Redis_Stop ops s = (r, t) \<Longrightarrow> \<not> rc_rdb (fst t) \<noteq> None" for s r t
    by (auto simp: Redis_Stop_def split: option.splits prod.splits)
qed

section \<open>A Redis server\<close>

text \<open>
  What Redis documents about GET, SET, SET NX and DEL while it is reachable and no key expires, as
  laws about the contents \<open>db\<close> it holds: a missing key and a lost SET NX are reported with
  \<open>goredis.Nil\<close>.
\<close>

definition redis_laws :: "'s goredis \<Rightarrow> ('s \<Rightarrow> string \<Rightarrow> json option) \<Rightarrow> bool" where
  "redis_laws ops db \<longleftrightarrow>
     (\<forall>h ctx k v ttl s. \<exists>t. rd_set ops h ctx k v ttl s = (None, t) \<and> db t = (db s)(k \<mapsto> v)) \<and>
     (\<forall>h ctx k s. \<exists>t. db t = db s \<and>
        rd_get ops h ctx k s = (case db s k of None \<Rightarrow> Inl (rd_Nil ops) | Some v \<Rightarrow> Inr v, t)) \<and>
     (\<forall>h ctx k v ttl s. \<exists>t. (case db s k of
        None \<Rightarrow> rd_set_nx ops h ctx k v ttl s = (None, t) \<and> db t = (db s)(k \<mapsto> v)
      | Some _ \<Rightarrow> rd_set_nx ops h ctx k v ttl s = (Some (rd_Nil ops), t) \<and> db t = db s)) \<and>
     (\<forall>h ctx ks s. \<exists>t. rd_del ops h ctx ks s = (None, t) \<and> db t = (db s) |` (- set ks))"

lemma Redis_Set_ok:
  assumes "redis_laws ops db" and "rc_rdb c = Some h"
  shows "\<exists>t. Redis_Set ops c ctx k (Inr v) ttl s = (None, t) \<and> db t = (db s)(k \<mapsto> v)"
proof -
  from assms(1)[unfolded redis_laws_def, THEN conjunct1, rule_format, of h ctx k v ttl s] obtain t where "rd_set ops h ctx k v ttl s = (None, t)" "db t = (db s)(k \<mapsto> v)" by blast
  with assms(2) show ?thesis by (simp add: Redis_Set_def)
qed

lemma Redis_Get_ok:
  assumes "redis_laws ops db" and "rc_rdb c = Some h"
  shows "\<exists>t. db t = db s \<and> Redis_Get ops c ctx k dec s =
    (case db s k of
       None \<Rightarrow> (Inl (Errorf [Lit ''redis: get key '', PQ k, Lit '': '', PW ErrKeyNotFound]), t)
     | Some v \<Rightarrow> (case dec v of
          Inl err \<Rightarrow> (Inl (Errorf [Lit ''redis: unmarshal key '', PQ k, Lit '': '', PW err]), t)
        | Inr x \<Rightarrow> (Inr x, t)))"
proof -
  from assms(1)[unfolded redis_laws_def, THEN conjunct2, THEN conjunct1, rule_format, of s h ctx k] obtain t where "db t = db s"
    "rd_get ops h ctx k s = (case db s k of None \<Rightarrow> Inl (rd_Nil ops) | Some v \<Rightarrow> Inr v, t)" by blast
  with assms(2) show ?thesis by (auto simp: Redis_Get_def intro!: exI[of _ t] split: option.splits sum.splits)
qed

lemma Redis_SetNX_ok:
  assumes "redis_laws ops db" and "rc_rdb c = Some h"
  shows "\<exists>t. Redis_SetNX ops c ctx k (Inr v) ttl s = (Inr (db s k = None), t) \<and>
    db t = (if db s k = None then (db s)(k \<mapsto> v) else db s)"
proof -
  from assms(1)[unfolded redis_laws_def, THEN conjunct2, THEN conjunct2, THEN conjunct1, rule_format, of h ctx k v ttl s] obtain t where "case db s k of
      None \<Rightarrow> rd_set_nx ops h ctx k v ttl s = (None, t) \<and> db t = (db s)(k \<mapsto> v)
    | Some _ \<Rightarrow> rd_set_nx ops h ctx k v ttl s = (Some (rd_Nil ops), t) \<and> db t = db s" by blast
  with assms(2) show ?thesis by (auto simp: Redis_SetNX_def intro!: exI[of _ t] split: option.splits)
qed

lemma Redis_Del_ok:
  assumes "redis_laws ops db" and "rc_rdb c = Some h"
  shows "\<exists>t. Redis_Del ops c ctx ks s = (None, t) \<and> db t = (db s) |` (- set ks)"
proof -
  from assms(1)[unfolded redis_laws_def, THEN conjunct2, THEN conjunct2, THEN conjunct2, rule_format, of h ctx ks s] obtain t where "rd_del ops h ctx ks s = (None, t)" "db t = (db s) |` (- set ks)" by blast
  with assms(2) show ?thesis by (simp add: Redis_Del_def)
qed

end
