(* ===== verification/Postgres.thy ===== *)
theory Postgres
  imports Lifecycle "HOL-Library.Word"
begin

text \<open>
  The PostgreSQL component: \<open>src/pkg/postgres/postgres.go\<close>, \<open>tx.go\<close>, \<open>migrate.go\<close>, \<open>tracer.go\<close>,
  \<open>hooks.go\<close> and \<open>errors.go\<close>.

  pgx, golang-migrate and OpenTelemetry are the fields of \<open>pgx_ops\<close>, \<open>migrate_ops\<close> and \<open>span_ops\<close>.
  \<open>maskDSNPassword\<close>, which only feeds a log line, is in the theory \<open>Dsn_Mask\<close>.
\<close>

definition ErrConnFailed :: goerr where
  "ErrConnFailed = ErrNew ''postgres: connection failed''"

definition ErrTxRollback :: goerr where
  "ErrTxRollback = ErrNew ''postgres: transaction rolled back''"

section \<open>The connection pool\<close>

record pool_config =
  pc_dsn :: nat                        \<comment> \<open>what \<open>ParseConfig\<close> made of the connection string\<close>
  pc_MaxConns :: int
  pc_MinConns :: int
  pc_ConnectTimeout :: int
  pc_Tracer :: "(nat list \<times> nat option) option"

record 's pgx_ops =
  parse_config :: "string \<Rightarrow> goerr + pool_config"
  new_pool :: "ctx \<Rightarrow> pool_config \<Rightarrow> 's \<Rightarrow> (goerr + nat) \<times> 's"
  pool_ping :: "nat \<Rightarrow> ctx \<Rightarrow> 's fallible"
  pool_close :: "nat \<Rightarrow> 's \<Rightarrow> 's"
  begin_tx :: "nat \<Rightarrow> ctx \<Rightarrow> string \<times> bool \<Rightarrow> 's \<Rightarrow> (goerr + nat) \<times> 's"   \<comment> \<open>isolation, read-only\<close>
  tx_commit :: "nat \<Rightarrow> ctx \<Rightarrow> 's fallible"
  tx_rollback :: "nat \<Rightarrow> ctx \<Rightarrow> 's fallible"

record db =
  db_dsn :: string
  db_maxConns :: int
  db_minConns :: int
  db_connTimeout :: int
  db_logger :: nat
  db_tp :: "nat option"
  db_hooks :: "nat list"
  db_pool :: "nat option"

datatype db_option =
    WithDSN string | WithMaxConns int | WithMinConns int | WithConnTimeout int
  | WithTracerProvider nat | WithQueryHook "nat list" | WithLogger nat

fun apply_db_option :: "db_option \<Rightarrow> db \<Rightarrow> db" where
  "apply_db_option (WithDSN dsn) d = d\<lparr>db_dsn := dsn\<rparr>"
| "apply_db_option (WithMaxConns n) d = d\<lparr>db_maxConns := n\<rparr>"
| "apply_db_option (WithMinConns n) d = d\<lparr>db_minConns := n\<rparr>"
| "apply_db_option (WithConnTimeout t) d = d\<lparr>db_connTimeout := t\<rparr>"
| "apply_db_option (WithTracerProvider tp) d = d\<lparr>db_tp := Some tp\<rparr>"
| "apply_db_option (WithQueryHook hs) d = d\<lparr>db_hooks := db_hooks d @ hs\<rparr>"
| "apply_db_option (WithLogger l) d = d\<lparr>db_logger := l\<rparr>"

definition DB_New :: "db_option list \<Rightarrow> goerr + db" where
  "DB_New opts = Inr (fold apply_db_option opts
     \<lparr>db_dsn = [], db_maxConns = 0, db_minConns = 0, db_connTimeout = 0, db_logger = 0, db_tp = None,
      db_hooks = [], db_pool = None\<rparr>)"

text \<open>\<open>fmt.Errorf("postgres: ...: %w", fmt.Errorf("%w: %w", ErrConnFailed, err))\<close>\<close>

definition conn_error :: "string \<Rightarrow> goerr \<Rightarrow> goerr" where
  "conn_error what err = Errorf [Lit what, PW (Errorf [PW ErrConnFailed, Lit '': '', PW err])]"

definition tuned_config :: "db \<Rightarrow> pool_config \<Rightarrow> pool_config" where
  "tuned_config d cfg0 =
     (let cfg1 = (if db_maxConns d > 0 then cfg0\<lparr>pc_MaxConns := db_maxConns d\<rparr> else cfg0);
          cfg2 = (if db_minConns d > 0 then cfg1\<lparr>pc_MinConns := db_minConns d\<rparr> else cfg1);
          cfg3 = (if db_connTimeout d > 0 then cfg2\<lparr>pc_ConnectTimeout := db_connTimeout d\<rparr> else cfg2)
      in if db_hooks d \<noteq> [] \<or> db_tp d \<noteq> None then cfg3\<lparr>pc_Tracer := Some (db_hooks d, db_tp d)\<rparr> else cfg3)"

definition DB_Start :: "'s pgx_ops \<Rightarrow> ctx \<Rightarrow> (db \<times> 's) fallible" where
  "DB_Start ops ctx st =
     (let d = fst st in
      if db_pool d \<noteq> None then (Some (Errorf [Lit ''postgres: already started'']), st)
      else (case parse_config ops (db_dsn d) of
              Inl err \<Rightarrow> (Some (conn_error ''postgres: parse DSN: '' err), st)
            | Inr cfg \<Rightarrow>
                (case new_pool ops ctx (tuned_config d cfg) (snd st) of
                   (Inl err, s1) \<Rightarrow> (Some (conn_error ''postgres: create pool: '' err), (d, s1))
                 | (Inr pool, s1) \<Rightarrow>
                     (case pool_ping ops pool ctx s1 of
                        (Some err, s2) \<Rightarrow> (Some (conn_error ''postgres: ping: '' err), (d, pool_close ops pool s2))
                      | (None, s2) \<Rightarrow> (None, (d\<lparr>db_pool := Some pool\<rparr>, s2))))))"

definition DB_Stop :: "'s pgx_ops \<Rightarrow> (db \<times> 's) fallible" where
  "DB_Stop ops st =
     (case db_pool (fst st) of
        None \<Rightarrow> (None, st)
      | Some pool \<Rightarrow> (None, ((fst st)\<lparr>db_pool := None\<rparr>, pool_close ops pool (snd st))))"

definition DB_Pool :: "db \<Rightarrow> nat option" where
  "DB_Pool d = db_pool d"

definition DB_Ping :: "'s pgx_ops \<Rightarrow> db \<Rightarrow> ctx \<Rightarrow> 's fallible" where
  "DB_Ping ops d ctx s =
     (case db_pool d of
        None \<Rightarrow> (Some (Errorf [Lit ''postgres: not connected: '', PW ErrConnFailed]), s)
      | Some pool \<Rightarrow>
          (case pool_ping ops pool ctx s of
             (Some err, s1) \<Rightarrow> (Some (Errorf [Lit ''postgres: ping failed: '', PW ErrConnFailed]), s1)
           | (None, s1) \<Rightarrow> (None, s1)))"

definition DB_HealthCheck :: "'s pgx_ops \<Rightarrow> db \<Rightarrow> ctx \<Rightarrow> 's fallible" where
  "DB_HealthCheck ops d ctx = DB_Ping ops d ctx"

record dbConfig =
  dc_dsn :: string
  dc_maxConns :: int
  dc_minConns :: int
  dc_connTimeout :: int
  dc_hooksLen :: nat
  dc_hasTP :: bool
  dc_hasLogger :: bool

text \<open>The logger is never nil: \<open>New\<close> sets it, and \<open>WithLogger\<close> is given one.\<close>

definition DB_config :: "db \<Rightarrow> dbConfig" where
  "DB_config d = \<lparr>dc_dsn = db_dsn d, dc_maxConns = db_maxConns d, dc_minConns = db_minConns d,
     dc_connTimeout = db_connTimeout d, dc_hooksLen = length (db_hooks d), dc_hasTP = (db_tp d \<noteq> None), dc_hasLogger = True\<rparr>"

interpretation db_lc: lifecycle "DB_Start ops ctx" "DB_Stop ops"
  "\<lambda>st. db_pool (fst st) \<noteq> None" for ops ctx
proof
  show "db_pool (fst s) \<noteq> None \<Longrightarrow> \<exists>e. DB_Start ops ctx s = (Some e, s)" for s
    by (simp add: DB_Start_def)
  show "DB_Start ops ctx s = (None, t) \<Longrightarrow> db_pool (fst t) \<noteq> None" for s t
    by (auto simp: DB_Start_def Let_def split: if_splits prod.splits option.splits sum.splits)
  show "DB_Start ops ctx s = (Some e, t) \<Longrightarrow> (db_pool (fst t) \<noteq> None) = (db_pool (fst s) \<noteq> None)" for s e t
    by (auto simp: DB_Start_def Let_def split: if_splits prod.splits option.splits sum.splits)
  show "\<not> db_pool (fst s) \<noteq> None \<Longrightarrow> DB_Stop ops s = (None, s)" for s
    by (simp add: DB_Stop_def)
  show "DB_Stop ops s = (r, t) \<Longrightarrow> \<not> db_pool (fst t) \<noteq> None" for s r t
    by (auto simp: DB_Stop_def split: option.splits)
qed

section \<open>Transactions\<close>

datatype tx_option = WithIsolation string | WithReadOnly

fun apply_tx_option :: "tx_option \<Rightarrow> string \<times> bool \<Rightarrow> string \<times> bool" where
  "apply_tx_option (WithIsolation level) o' = (level, snd o')"
| "apply_tx_option WithReadOnly o' = (fst o', True)"

datatype fn_outcome = FnReturns "goerr option" | FnPanics string
datatype tx_result = TxReturns "goerr option" | TxPanics string
datatype tx_event = TxFn nat fn_outcome | TxCommit nat "goerr option" | TxRollback nat "goerr option"

text \<open>The deferred function: rollback on a panic or an error, which it rewrites.\<close>

definition tx_deferred :: "'s pgx_ops \<Rightarrow> ctx \<Rightarrow> nat \<Rightarrow> tx_result \<Rightarrow> 's \<Rightarrow> tx_result \<times> tx_event list \<times> 's" where
  "tx_deferred ops ctx tx res s =
     (case res of
        TxPanics p \<Rightarrow> (case tx_rollback ops tx ctx s of (r, s1) \<Rightarrow> (TxPanics p, [TxRollback tx r], s1))
      | TxReturns None \<Rightarrow> (res, [], s)
      | TxReturns (Some err) \<Rightarrow>
          (case tx_rollback ops tx ctx s of
             (Some rbErr, s1) \<Rightarrow>
               (TxReturns (Some (Errorf [Lit ''postgres: rollback failed ('', PW rbErr, Lit '') after: '', PW ErrTxRollback])),
                [TxRollback tx (Some rbErr)], s1)
           | (None, s1) \<Rightarrow>
               (TxReturns (Some (Errorf [Lit ''postgres: '', PW ErrTxRollback, Lit '': '', PW err])),
                [TxRollback tx None], s1)))"

definition WithTx :: "'s pgx_ops \<Rightarrow> db \<Rightarrow> ctx \<Rightarrow> (nat \<Rightarrow> 's \<Rightarrow> fn_outcome \<times> 's) \<Rightarrow> tx_option list \<Rightarrow> 's \<Rightarrow>
    tx_result \<times> tx_event list \<times> 's" where
  "WithTx ops d ctx fn opts s =
     (case db_pool d of
        None \<Rightarrow> (TxReturns (Some (Errorf [Lit ''postgres: not connected: '', PW ErrConnFailed])), [], s)
      | Some pool \<Rightarrow>
          (case begin_tx ops pool ctx (fold apply_tx_option opts ([], False)) s of
             (Inl err, s1) \<Rightarrow> (TxReturns (Some (Errorf [Lit ''postgres: begin transaction: '', PW err])), [], s1)
           | (Inr tx, s1) \<Rightarrow>
               (case fn tx s1 of
                  (out, s2) \<Rightarrow>
                    (case out of
                       FnPanics p \<Rightarrow> apsnd (apfst ((#) (TxFn tx out))) (tx_deferred ops ctx tx (TxPanics p) s2)
                     | FnReturns (Some err) \<Rightarrow>
                         apsnd (apfst ((#) (TxFn tx out))) (tx_deferred ops ctx tx (TxReturns (Some err)) s2)
                     | FnReturns None \<Rightarrow>
                         (case tx_commit ops tx ctx s2 of
                            (cr, s3) \<Rightarrow>
                              apsnd (apfst ((@) [TxFn tx out, TxCommit tx cr]))
                                (tx_deferred ops ctx tx
                                  (TxReturns (map_option (\<lambda>e. Errorf [Lit ''postgres: commit transaction: '', PW e]) cr)) s3))))))"

section \<open>Migrations\<close>

text \<open>
  The slices \<open>dsn[:11]\<close> and \<open>dsn[:14]\<close> under their length guards. \<open>postgresql://\<close> has 13 bytes.
\<close>

definition migrate_dsn :: "string \<Rightarrow> string" where
  "migrate_dsn dsn =
     (if length dsn \<ge> 11 \<and> take 11 dsn = ''postgres://'' then ''pgx5://'' @ drop 11 dsn
      else if length dsn \<ge> 14 \<and> take 14 dsn = ''postgresql://'' then ''pgx5://'' @ drop 14 dsn
      else dsn)"

record ('f, 's) migrate_ops =
  new_source :: "'f \<Rightarrow> goerr + nat"
  new_migrator :: "nat \<Rightarrow> string \<Rightarrow> 's \<Rightarrow> (goerr + nat) \<times> 's"
  mig_up :: "nat \<Rightarrow> 's fallible"
  mig_down :: "nat \<Rightarrow> 's fallible"
  mig_close :: "nat \<Rightarrow> 's \<Rightarrow> 's"
  ErrNoChange :: goerr
  context_err :: "ctx \<Rightarrow> 's \<Rightarrow> goerr option"

definition newMigrate :: "('f, 's) migrate_ops \<Rightarrow> db \<Rightarrow> 'f \<Rightarrow> 's \<Rightarrow> (goerr + nat) \<times> 's" where
  "newMigrate mops d source s =
     (case new_source mops source of
        Inl err \<Rightarrow> (Inl (Errorf [Lit ''postgres: create migration source: '', PW err]), s)
      | Inr src \<Rightarrow>
          (case new_migrator mops src (migrate_dsn (db_dsn d)) s of
             (Inl err, s1) \<Rightarrow> (Inl (Errorf [Lit ''postgres: create migrator: '', PW err]), s1)
           | (Inr m, s1) \<Rightarrow> (Inr m, s1)))"

definition run_migration :: "('f, 's) migrate_ops \<Rightarrow> string \<Rightarrow> (nat \<Rightarrow> 's fallible) \<Rightarrow> db \<Rightarrow> ctx \<Rightarrow> 'f \<Rightarrow> 's fallible" where
  "run_migration mops what run d ctx source s =
     (case context_err mops ctx s of
        Some err \<Rightarrow> (Some (Errorf [Lit what, PW err]), s)
      | None \<Rightarrow>
          (case newMigrate mops d source s of
             (Inl err, s1) \<Rightarrow> (Some err, s1)
           | (Inr m, s1) \<Rightarrow>
               (case run m s1 of
                  (None, s2) \<Rightarrow> (None, mig_close mops m s2)
                | (Some err, s2) \<Rightarrow>
                    (if errors_Is err (ErrNoChange mops) then None else Some (Errorf [Lit what, PW err]),
                     mig_close mops m s2))))"

definition Migrate :: "('f, 's) migrate_ops \<Rightarrow> db \<Rightarrow> ctx \<Rightarrow> 'f \<Rightarrow> 's fallible" where
  "Migrate mops d ctx source s = run_migration mops ''postgres: migrate up: '' (mig_up mops) d ctx source s"

definition MigrateDown :: "('f, 's) migrate_ops \<Rightarrow> db \<Rightarrow> ctx \<Rightarrow> 'f \<Rightarrow> 's fallible" where
  "MigrateDown mops d ctx source s = run_migration mops ''postgres: migrate down: '' (mig_down mops) d ctx source s"

section \<open>Query hooks and spans\<close>

text \<open>The context values a query carries: start time, statement, and the current span.\<close>

record 'v qctx =
  q_start :: "int option"
  q_data :: "(string \<times> 'v list) option"
  q_span :: "nat option"

record 'v QueryHookData =
  hd_SQL :: string
  hd_Args :: "'v list"
  hd_Duration :: int
  hd_Err :: "goerr option"

record 's span_ops =
  sp_now :: "'s \<Rightarrow> int"
  sp_start :: "nat \<Rightarrow> string \<Rightarrow> 's \<Rightarrow> nat \<times> 's"
  sp_recording :: "nat \<Rightarrow> 's \<Rightarrow> bool"
  sp_end :: "nat \<Rightarrow> goerr option \<Rightarrow> 's \<Rightarrow> 's"

definition TraceQueryStart :: "'s span_ops \<Rightarrow> nat option \<Rightarrow> 'v qctx \<Rightarrow> string \<Rightarrow> 'v list \<Rightarrow> 's \<Rightarrow> 'v qctx \<times> 's" where
  "TraceQueryStart ops tp c sql args s =
     (let c1 = c\<lparr>q_start := Some (sp_now ops s), q_data := Some (sql, args)\<rparr> in
      case tp of
        None \<Rightarrow> (c1, s)
      | Some p \<Rightarrow> (case sp_start ops p sql s of (sp, s1) \<Rightarrow> (c1\<lparr>q_span := Some sp\<rparr>, s1)))"

text \<open>
  \<open>SpanFromContext\<close> gives the current span of the context, whoever started it. \<open>run_hook\<close> is the
  hook's effect; the hook calls and ended spans are the trace.
\<close>

datatype 'v query_event = HookCall nat "'v QueryHookData" | SpanEnd nat "goerr option"

definition TraceQueryEnd :: "'s span_ops \<Rightarrow> (nat \<Rightarrow> 'v QueryHookData \<Rightarrow> 's \<Rightarrow> 's) \<Rightarrow> nat list \<Rightarrow> 'v qctx \<Rightarrow>
    goerr option \<Rightarrow> 's \<Rightarrow> 'v query_event list \<times> 's" where
  "TraceQueryEnd ops run_hook hooks c err s =
     (let data = \<lparr>hd_SQL = (case q_data c of None \<Rightarrow> [] | Some (sql, _) \<Rightarrow> sql),
                  hd_Args = (case q_data c of None \<Rightarrow> [] | Some (_, args) \<Rightarrow> args),
                  hd_Duration = sp_now ops s - (case q_start c of None \<Rightarrow> 0 | Some t \<Rightarrow> t),
                  hd_Err = err\<rparr>;
          s1 = fold (\<lambda>h. run_hook h data) hooks s;
          calls = map (\<lambda>h. HookCall h data) hooks
      in case q_span c of
           None \<Rightarrow> (calls, s1)
         | Some sp \<Rightarrow>
             if sp_recording ops sp s1 then (calls @ [SpanEnd sp err], sp_end ops sp err s1) else (calls, s1))"

section \<open>Properties\<close>

text \<open>
  The specification of \<open>WithTx\<close> on a connected pool once the transaction has begun: commit after a
  successful function and nothing else; otherwise exactly one rollback, last. The calls of a trace can be made
  again on the world: a trace is the true one when every call answers as recorded and the world is the one left.
\<close>

inductive tx_protocol :: "nat \<Rightarrow> tx_result \<Rightarrow> tx_event list \<Rightarrow> bool" for tx where
  committed: "tx_protocol tx (TxReturns None) [TxFn tx (FnReturns None), TxCommit tx None]"
| failed: "errors_Is e ErrTxRollback \<Longrightarrow> (r = None \<Longrightarrow> errors_Is e err) \<Longrightarrow>
    tx_protocol tx (TxReturns (Some e)) [TxFn tx (FnReturns (Some err)), TxRollback tx r]"
| commit_failed: "errors_Is e ErrTxRollback \<Longrightarrow> (r = None \<Longrightarrow> errors_Is e err) \<Longrightarrow>
    tx_protocol tx (TxReturns (Some e)) [TxFn tx (FnReturns None), TxCommit tx (Some err), TxRollback tx r]"
| panicked: "tx_protocol tx (TxPanics p) [TxFn tx (FnPanics p), TxRollback tx r]"

fun tx_replay :: "'s pgx_ops \<Rightarrow> ctx \<Rightarrow> (nat \<Rightarrow> 's \<Rightarrow> fn_outcome \<times> 's) \<Rightarrow> tx_event list \<Rightarrow> 's \<Rightarrow> 's option" where
  "tx_replay ops ctx fn [] s = Some s"
| "tx_replay ops ctx fn (TxFn tx out # tr) s =
     (case fn tx s of (o', s1) \<Rightarrow> if o' = out then tx_replay ops ctx fn tr s1 else None)"
| "tx_replay ops ctx fn (TxCommit tx r # tr) s =
     (case tx_commit ops tx ctx s of (r', s1) \<Rightarrow> if r' = r then tx_replay ops ctx fn tr s1 else None)"
| "tx_replay ops ctx fn (TxRollback tx r # tr) s =
     (case tx_rollback ops tx ctx s of (r', s1) \<Rightarrow> if r' = r then tx_replay ops ctx fn tr s1 else None)"

lemma rolled_back_error_Is:
  "errors_Is (Errorf [Lit a, PW ErrTxRollback, Lit b, PW err]) ErrTxRollback"
  "errors_Is err t \<Longrightarrow> errors_Is (Errorf [Lit a, PW ErrTxRollback, Lit b, PW err]) t"
  "errors_Is (Errorf [Lit a, PW rb, Lit b, PW ErrTxRollback]) ErrTxRollback"
  by (auto intro: errors_Is_PW[of ErrTxRollback] errors_Is_PW[of err])

lemma commit_error_Is: "errors_Is (Errorf [Lit a, PW e]) e"
  by (rule errors_Is_PW[of e]) simp_all

text \<open>C12: \<open>WithTx\<close> on every branch. Without a pool, or when the transaction cannot be begun, neither the function
  nor a commit or rollback is called and the error says why. Once it has begun, the function is called once, and the
  transaction is committed exactly when \<open>WithTx\<close> returns nil; on an error or a panic of the function, or a failed
  commit, it is rolled back once, as the last thing, and the panic goes on or the error says so; the original error
  is in the chain whenever the rollback succeeded. No other call is made.\<close>

theorem WithTx_refines_protocol:
  "case WithTx ops d ctx fn opts s of
     (res, tr, t) \<Rightarrow>
       (case db_pool d of
          None \<Rightarrow> (\<exists>e. res = TxReturns (Some e) \<and> errors_Is e ErrConnFailed) \<and> tr = [] \<and> t = s
        | Some pool \<Rightarrow>
            (case begin_tx ops pool ctx (fold apply_tx_option opts ([], False)) s of
               (Inl err, s1) \<Rightarrow> (\<exists>e. res = TxReturns (Some e) \<and> errors_Is e err) \<and> tr = [] \<and> t = s1
             | (Inr tx, s1) \<Rightarrow> tx_protocol tx res tr \<and> tx_replay ops ctx fn tr s1 = Some t))"
  by (auto simp: WithTx_def tx_deferred_def rolled_back_error_Is commit_error_Is
      split: prod.splits fn_outcome.splits option.splits sum.splits
      intro: tx_protocol.intros rolled_back_error_Is(2)[OF commit_error_Is])

definition demo_pgx :: "goerr option \<Rightarrow> nat pgx_ops" where
  "demo_pgx commit_err =
     \<lparr>parse_config = (\<lambda>dsn. Inl (ErrNew ''dsn'')), new_pool = (\<lambda>c cfg n. (Inr 1, n)), pool_ping = (\<lambda>p c n. (None, n)),
      pool_close = (\<lambda>p n. n), begin_tx = (\<lambda>p c o' n. (Inr 5, n)), tx_commit = (\<lambda>tx c n. (commit_err, Suc n)),
      tx_rollback = (\<lambda>tx c n. (if n = 0 then None else Some (ErrNew ''tx is closed''), n))\<rparr>"

definition demo_db :: db where
  "demo_db = \<lparr>db_dsn = ''postgres://h/d'', db_maxConns = 0, db_minConns = 0, db_connTimeout = 0, db_logger = 0,
     db_tp = None, db_hooks = [], db_pool = Some 1\<rparr>"

text \<open>When the rollback fails, the original error is gone from the result: the returned error wraps
  only the rollback's error and \<open>ErrTxRollback\<close>. A failed commit always ends this way, since pgx has
  closed the transaction by then and documents that rolling back a closed transaction fails.\<close>

lemma WithTx_loses_error:
  assumes "db_pool d = Some pool" and "begin_tx ops pool ctx (fold apply_tx_option opts ([], False)) s = (Inr tx, s1)"
    and "fn tx s1 = (FnReturns None, s2)" and "tx_commit ops tx ctx s2 = (Some commitErr, s3)"
    and "tx_rollback ops tx ctx s3 = (Some closedErr, s4)"
  shows "fst (WithTx ops d ctx fn opts s) = TxReturns (Some
    (Errorf [Lit ''postgres: rollback failed ('', PW closedErr, Lit '') after: '', PW ErrTxRollback]))"
  using assms by (simp add: WithTx_def tx_deferred_def)

text \<open>The migrator gets the connection string with \<open>postgres://\<close> rewritten to \<open>pgx5://\<close>; the branch
  for \<open>postgresql://\<close> compares a 14-byte slice with a 13-byte literal, so it is never taken and such
  a string is passed on unchanged.\<close>

lemma migrate_dsn_schemes:
  "migrate_dsn (''postgres://'' @ rest) = ''pgx5://'' @ rest \<and>
   migrate_dsn (''postgresql://'' @ rest) = ''postgresql://'' @ rest"
proof -
  have "take 14 dsn = ''postgresql://'' \<Longrightarrow> \<not> 14 \<le> length dsn" for dsn :: string
    by (drule arg_cong[of _ _ length]) auto
  then show ?thesis unfolding migrate_dsn_def by (auto simp: eval_nat_numeral)
qed

text \<open>Every hook is called once per query, in registration order, with the statement, its arguments,
  its error and the time it took; a tracer with a provider ends exactly the span it started. Without
  a provider (hooks only) the span that is ended is the caller's, if one is being recorded.\<close>

lemma query_hooks_and_spans:
  assumes "TraceQueryStart ops tp c sql args s = (c1, s1)"
  shows "let data = \<lparr>hd_SQL = sql, hd_Args = args, hd_Duration = sp_now ops t - sp_now ops s, hd_Err = err\<rparr>;
             sp = (case tp of None \<Rightarrow> q_span c | Some p \<Rightarrow> Some (fst (sp_start ops p sql s)));
             t1 = fold (\<lambda>h. run_hook h data) hooks t
         in fst (TraceQueryEnd ops run_hook hooks c1 err t) =
           map (\<lambda>h. HookCall h data) hooks @
           (case sp of Some i \<Rightarrow> if sp_recording ops i t1 then [SpanEnd i err] else [] | None \<Rightarrow> [])"
  using assms by (auto simp: TraceQueryStart_def TraceQueryEnd_def Let_def split: option.splits prod.splits)

definition demo_spans :: "nat span_ops" where
  "demo_spans = \<lparr>sp_now = (\<lambda>n. int n), sp_start = (\<lambda>p q n. (9, n)), sp_recording = (\<lambda>i n. True), sp_end = (\<lambda>i e n. n)\<rparr>"

end
