(* ===== verification/Logging.thy ===== *)
theory Logging
  imports Lifecycle
begin

text \<open>
  Structured logging: the logger of \<open>src/pkg/platform/logger.go\<close> and the \<open>slog\<close> handlers of
  \<open>src/pkg/observe\<close> (\<open>tracehandler.go\<close>, \<open>multihandler.go\<close>, \<open>swaphandler.go\<close>).

  A handler from outside (a JSON handler, the OpenTelemetry bridge) is a number with the
  \<open>WithAttrs\<close> and \<open>WithGroup\<close> calls made on it; what it does is in \<open>slog_env\<close>. The swap handler
  keeps a pointer to the current handler: \<open>heap\<close> maps pointers to handlers. Key-value arguments of
  a log call are attributes, and times and program counters are left out.
\<close>

section \<open>Records and handlers\<close>

datatype level = LevelDebug | LevelInfo | LevelWarn | LevelError

type_synonym attr = "string \<times> string"

record log_record =
  lr_level :: level
  lr_msg :: string
  lr_attrs :: "attr list"

datatype derivation = Attrs "attr list" | Group string

datatype log_handler =
    External nat "derivation list"
  | TraceHandler log_handler
  | MultiHandler "log_handler list"

record 's slog_env =
  ext_enabled :: "nat \<Rightarrow> derivation list \<Rightarrow> ctx \<Rightarrow> level \<Rightarrow> 's \<Rightarrow> bool"
  ext_handle :: "nat \<Rightarrow> derivation list \<Rightarrow> ctx \<Rightarrow> log_record \<Rightarrow> 's fallible"
  span_ids :: "ctx \<Rightarrow> (string \<times> string) option"    \<comment> \<open>trace and span id, if the span context is valid\<close>

text \<open>\<open>traceHandler.Handle\<close> adds the ids to its copy of the record.\<close>

definition add_trace_ids :: "'s slog_env \<Rightarrow> ctx \<Rightarrow> log_record \<Rightarrow> log_record" where
  "add_trace_ids env ctx r =
     (case span_ids env ctx of
        None \<Rightarrow> r
      | Some (trace_id, span_id) \<Rightarrow>
          r\<lparr>lr_attrs := lr_attrs r @ [(''trace_id'', trace_id), (''span_id'', span_id)]\<rparr>)"

fun Enabled :: "'s slog_env \<Rightarrow> log_handler \<Rightarrow> ctx \<Rightarrow> level \<Rightarrow> 's \<Rightarrow> bool" where
  "Enabled env (External n ds) ctx lvl s = ext_enabled env n ds ctx lvl s"
| "Enabled env (TraceHandler h) ctx lvl s = Enabled env h ctx lvl s"
| "Enabled env (MultiHandler hs) ctx lvl s = list_ex (\<lambda>h. Enabled env h ctx lvl s) hs"

text \<open>
  \<open>multiHandler.Handle\<close> hands a clone of the record to each enabled handler and returns the first
  error.
\<close>

fun Handle :: "'s slog_env \<Rightarrow> log_handler \<Rightarrow> ctx \<Rightarrow> log_record \<Rightarrow> 's fallible"
  and Handle_all :: "'s slog_env \<Rightarrow> log_handler list \<Rightarrow> ctx \<Rightarrow> log_record \<Rightarrow> 's fallible" where
  "Handle env (External n ds) ctx r s = ext_handle env n ds ctx r s"
| "Handle env (TraceHandler h) ctx r s = Handle env h ctx (add_trace_ids env ctx r) s"
| "Handle env (MultiHandler hs) ctx r s = Handle_all env hs ctx r s"
| "Handle_all env [] ctx r s = (None, s)"
| "Handle_all env (h # hs) ctx r s =
     (if Enabled env h ctx (lr_level r) s then
        (case Handle env h ctx r s of
           (Some err, s1) \<Rightarrow> (Some err, s1)
         | (None, s1) \<Rightarrow> Handle_all env hs ctx r s1)
      else Handle_all env hs ctx r s)"

text \<open>\<open>WithAttrs\<close> and \<open>WithGroup\<close> of the three kinds.\<close>

fun derive :: "derivation \<Rightarrow> log_handler \<Rightarrow> log_handler" where
  "derive d (External n ds) = External n (ds @ [d])"
| "derive d (TraceHandler h) = TraceHandler (derive d h)"
| "derive d (MultiHandler hs) = MultiHandler (map (derive d) hs)"

section \<open>The swap handler\<close>

type_synonym heap = "nat \<Rightarrow> log_handler"

record swapHandler =
  sw_root :: nat
  sw_builds :: "derivation list"

text \<open>\<open>newSwapHandler\<close> at a fresh pointer.\<close>

definition newSwapHandler :: "nat \<Rightarrow> log_handler \<Rightarrow> heap \<Rightarrow> swapHandler \<times> heap" where
  "newSwapHandler p h hp = (\<lparr>sw_root = p, sw_builds = []\<rparr>, hp(p := h))"

definition swap_root :: "swapHandler \<Rightarrow> log_handler \<Rightarrow> heap \<Rightarrow> heap" where
  "swap_root s h hp = hp(sw_root s := h)"

definition current :: "heap \<Rightarrow> swapHandler \<Rightarrow> log_handler" where
  "current hp s = fold derive (sw_builds s) (hp (sw_root s))"

definition swap_derive :: "derivation \<Rightarrow> swapHandler \<Rightarrow> swapHandler" where
  "swap_derive d s = \<lparr>sw_root = sw_root s, sw_builds = sw_builds s @ [d]\<rparr>"

section \<open>Loggers\<close>

text \<open>What a \<open>slog.Logger\<close> of the platform holds: a handler, or the observer's swap handler.\<close>

datatype logger_handler = Plain log_handler | Swapping swapHandler

datatype platform_logger = NopLogger | SlogLogger logger_handler

definition resolve :: "heap \<Rightarrow> logger_handler \<Rightarrow> log_handler" where
  "resolve hp lh = (case lh of Plain h \<Rightarrow> h | Swapping s \<Rightarrow> current hp s)"

definition derive_logger :: "derivation \<Rightarrow> logger_handler \<Rightarrow> logger_handler" where
  "derive_logger d lh = (case lh of Plain h \<Rightarrow> Plain (derive d h) | Swapping s \<Rightarrow> Swapping (swap_derive d s))"

text \<open>\<open>slog.Logger.With\<close> returns the same logger when there are no arguments.\<close>

definition Logger_With :: "attr list \<Rightarrow> platform_logger \<Rightarrow> platform_logger" where
  "Logger_With args l =
     (case l of
        NopLogger \<Rightarrow> NopLogger
      | SlogLogger lh \<Rightarrow> if args = [] then l else SlogLogger (derive_logger (Attrs args) lh))"

text \<open>
  A log call at a level: \<open>slog\<close> asks the handler whether the level is enabled, builds the record and
  ignores the handler's error. The eight methods differ in the level, and the four without a
  context pass \<open>context.Background()\<close>.
\<close>

definition log_call :: "'s slog_env \<Rightarrow> heap \<Rightarrow> level \<Rightarrow> ctx \<Rightarrow> string \<Rightarrow> attr list \<Rightarrow> platform_logger \<Rightarrow> 's \<Rightarrow> 's" where
  "log_call env hp lvl ctx msg args l s =
     (case l of
        NopLogger \<Rightarrow> s
      | SlogLogger lh \<Rightarrow>
          let h = resolve hp lh in
          if Enabled env h ctx lvl s
          then snd (Handle env h ctx \<lparr>lr_level = lvl, lr_msg = msg, lr_attrs = args\<rparr> s)
          else s)"

definition Logger_Debug :: "'s slog_env \<Rightarrow> heap \<Rightarrow> string \<Rightarrow> attr list \<Rightarrow> platform_logger \<Rightarrow> 's \<Rightarrow> 's" where
  "Logger_Debug env hp msg args = log_call env hp LevelDebug Background msg args"

definition Logger_DebugContext :: "'s slog_env \<Rightarrow> heap \<Rightarrow> ctx \<Rightarrow> string \<Rightarrow> attr list \<Rightarrow> platform_logger \<Rightarrow> 's \<Rightarrow> 's" where
  "Logger_DebugContext env hp ctx msg args = log_call env hp LevelDebug ctx msg args"

definition Logger_Info :: "'s slog_env \<Rightarrow> heap \<Rightarrow> string \<Rightarrow> attr list \<Rightarrow> platform_logger \<Rightarrow> 's \<Rightarrow> 's" where
  "Logger_Info env hp msg args = log_call env hp LevelInfo Background msg args"

definition Logger_InfoContext :: "'s slog_env \<Rightarrow> heap \<Rightarrow> ctx \<Rightarrow> string \<Rightarrow> attr list \<Rightarrow> platform_logger \<Rightarrow> 's \<Rightarrow> 's" where
  "Logger_InfoContext env hp ctx msg args = log_call env hp LevelInfo ctx msg args"

definition Logger_Warn :: "'s slog_env \<Rightarrow> heap \<Rightarrow> string \<Rightarrow> attr list \<Rightarrow> platform_logger \<Rightarrow> 's \<Rightarrow> 's" where
  "Logger_Warn env hp msg args = log_call env hp LevelWarn Background msg args"

definition Logger_WarnContext :: "'s slog_env \<Rightarrow> heap \<Rightarrow> ctx \<Rightarrow> string \<Rightarrow> attr list \<Rightarrow> platform_logger \<Rightarrow> 's \<Rightarrow> 's" where
  "Logger_WarnContext env hp ctx msg args = log_call env hp LevelWarn ctx msg args"

definition Logger_Error :: "'s slog_env \<Rightarrow> heap \<Rightarrow> string \<Rightarrow> attr list \<Rightarrow> platform_logger \<Rightarrow> 's \<Rightarrow> 's" where
  "Logger_Error env hp msg args = log_call env hp LevelError Background msg args"

definition Logger_ErrorContext :: "'s slog_env \<Rightarrow> heap \<Rightarrow> ctx \<Rightarrow> string \<Rightarrow> attr list \<Rightarrow> platform_logger \<Rightarrow> 's \<Rightarrow> 's" where
  "Logger_ErrorContext env hp ctx msg args = log_call env hp LevelError ctx msg args"

section \<open>Derived loggers and swaps\<close>

text \<open>
  A history of the observer's root: loggers are derived from existing ones and the root is swapped,
  in any order. \<open>swap_op\<close> runs it as the code does, with one shared pointer; \<open>eager_op\<close> is the
  naive reference that rebuilds every logger at each swap.
\<close>

datatype log_op = DeriveFrom nat derivation | SwapTo log_handler

fun swap_op :: "log_op \<Rightarrow> swapHandler list \<times> heap \<Rightarrow> swapHandler list \<times> heap" where
  "swap_op (DeriveFrom i d) (ls, hp) = (if i < length ls then (ls @ [swap_derive d (ls ! i)], hp) else (ls, hp))"
| "swap_op (SwapTo h) (ls, hp) = (ls, if ls = [] then hp else swap_root (hd ls) h hp)"

fun eager_op :: "log_op \<Rightarrow> (derivation list \<times> log_handler) list \<Rightarrow> (derivation list \<times> log_handler) list" where
  "eager_op (DeriveFrom i d) es =
     (if i < length es then es @ [(fst (es ! i) @ [d], derive d (snd (es ! i)))] else es)"
| "eager_op (SwapTo h) es = map (\<lambda>(ds, _). (ds, fold derive ds h)) es"

text \<open>Every logger has the root pointer, and the eager logger has the same derivations and handler.\<close>

definition same_loggers :: "nat \<Rightarrow> swapHandler list \<times> heap \<Rightarrow> (derivation list \<times> log_handler) list \<Rightarrow> bool" where
  "same_loggers p st es \<longleftrightarrow>
     fst st \<noteq> [] \<and> list_all (\<lambda>s. sw_root s = p) (fst st) \<and>
     es = map (\<lambda>s. (sw_builds s, current (snd st) s)) (fst st)"

lemma current_swap_derive: "current hp (swap_derive d s) = derive d (current hp s)"
  by (simp add: current_def swap_derive_def)

lemma same_loggers_step: "same_loggers p st es \<Longrightarrow> same_loggers p (swap_op x st) (eager_op x es)"
proof (cases x)
  case (DeriveFrom i d)
  assume "same_loggers p st es"
  then show ?thesis unfolding DeriveFrom
    by (cases st) (auto simp: same_loggers_def current_swap_derive list_all_iff, auto simp: swap_derive_def)
next
  case (SwapTo h)
  assume "same_loggers p st es"
  moreover obtain ls hp where "st = (ls, hp)" by (cases st)
  ultimately have ls: "ls \<noteq> []" "list_all (\<lambda>s. sw_root s = p) ls"
    "es = map (\<lambda>s. (sw_builds s, current hp s)) ls" and st: "st = (ls, hp)" by (auto simp: same_loggers_def)
  have "sw_root (hd ls) = p" using ls(1,2) by (cases ls) auto
  moreover have "current (hp(p := h)) s = fold derive (sw_builds s) h" if "s \<in> set ls" for s
    using that ls(2) by (simp add: current_def list_all_iff)
  ultimately show ?thesis using ls unfolding SwapTo st by (auto simp: same_loggers_def swap_root_def)
qed

lemma same_loggers_run: "same_loggers p st es \<Longrightarrow> same_loggers p (fold swap_op xs st) (fold eager_op xs es)"
proof (induction xs arbitrary: st es)
  case (Cons x xs)
  from Cons.IH[OF same_loggers_step[OF Cons.prems]] show ?case by simp
qed simp

section \<open>Properties\<close>

text \<open>C23: Swapping one pointer is the same as rebuilding every logger: whatever loggers were derived from
  the observer's logger, from each other, before and after whatever swaps, each of them logs through
  the current root handler with exactly its own attributes and groups applied in order.\<close>

theorem derived_loggers_follow_swaps:
  "case newSwapHandler p h hp of (root, hp0) \<Rightarrow>
     case fold swap_op xs ([root], hp0) of (ls, hp') \<Rightarrow>
       map (current hp') ls = map snd (fold eager_op xs [([], h)])"
proof -
  obtain ls hp' where r: "fold swap_op xs ([\<lparr>sw_root = p, sw_builds = []\<rparr>], hp(p := h)) = (ls, hp')"
    by (cases "fold swap_op xs ([\<lparr>sw_root = p, sw_builds = []\<rparr>], hp(p := h))")
  have "same_loggers p ([\<lparr>sw_root = p, sw_builds = []\<rparr>], hp(p := h)) [([], h)]"
    by (simp add: same_loggers_def current_def)
  from same_loggers_run[OF this, of xs] show ?thesis
    by (simp add: r newSwapHandler_def same_loggers_def comp_def)
qed

end
