(* ===== verification/Server.thy ===== *)
theory Server
  imports Http
begin

text \<open>
  The HTTP server, \<open>src/pkg/server/server.go\<close>, its middleware, \<open>middleware.go\<close>, and the ConnectRPC
  error interceptor, \<open>errorinterceptor.go\<close>.

  chi, \<open>net.Listen\<close>, \<open>http.Server\<close> and the logger are parameters. The router is the list of calls
  made on it; \<open>chi calls c\<close> says whether chi accepts the call \<open>c\<close> after \<open>calls\<close> (it panics
  otherwise). Middleware and handlers the user passes are function values, named by numbers in the
  router's calls. A handler is the calls it makes on its response writer and whether it panicked
  after them (theory \<open>Http\<close>).
\<close>

section \<open>The error interceptor\<close>

datatype connect_code =
    ConnectNotFound | ConnectAlreadyExists | ConnectInvalidArgument | ConnectPermissionDenied
  | ConnectUnauthenticated | ConnectUnavailable | ConnectInternal | ConnectUnimplemented

definition mapPlatformCode :: "ErrorCode \<Rightarrow> connect_code" where
  "mapPlatformCode code =
     (if code = CodeNotFound then ConnectNotFound
      else if code = CodeAlreadyExists then ConnectAlreadyExists
      else if code = CodeInvalidArgument then ConnectInvalidArgument
      else if code = CodePermissionDenied then ConnectPermissionDenied
      else if code = CodeUnauthenticated then ConnectUnauthenticated
      else if code = CodeUnavailable then ConnectUnavailable
      else ConnectInternal)"

text \<open>\<open>connect.NewError(code, err)\<close> is the pair; the client sees the code and \<open>err.Error()\<close>.\<close>

definition ErrorInterceptor :: "('q \<Rightarrow> 's \<Rightarrow> (goerr + 'r) \<times> 's) \<Rightarrow> 'q \<Rightarrow> 's \<Rightarrow> (connect_code \<times> goerr + 'r) \<times> 's" where
  "ErrorInterceptor nxt req s =
     (case nxt req s of
        (Inr resp, s1) \<Rightarrow> (Inr resp, s1)
      | (Inl err, s1) \<Rightarrow>
          (case IsError (Some err) of
             Some pe \<Rightarrow> (Inl (mapPlatformCode (pe_code pe), PlatformErr pe), s1)
           | None \<Rightarrow> (Inl (ConnectInternal, ErrNew ''internal error''), s1)))"

section \<open>Middleware\<close>

text \<open>\<open>responseWriter\<close> passes every call on and records the status of the first status call or write.\<close>

record responseWriter =
  rw_statusCode :: int
  rw_written :: bool

fun rw_call :: "write_call \<Rightarrow> responseWriter \<Rightarrow> responseWriter" where
  "rw_call (WriteHeader code) rw = (if \<not> rw_written rw then rw\<lparr>rw_statusCode := code, rw_written := True\<rparr> else rw)"
| "rw_call (Write b) rw = (if \<not> rw_written rw then rw\<lparr>rw_statusCode := StatusOK, rw_written := True\<rparr> else rw)"
| "rw_call _ rw = rw"

definition recovery_json :: json where
  "recovery_json = JObj [(''error'', JString ''internal server error'')]"

definition recovery_calls :: "write_call list" where
  "recovery_calls =
     [SetHeader ''Content-Type'' ''application/json'', WriteHeader StatusInternalServerError,
      Write (JSONLine recovery_json)]"

text \<open>The deferred function: the panic is logged, then the error is written after whatever the
  handler has written.\<close>

definition Recovery :: "(request \<Rightarrow> 's \<Rightarrow> 's) \<Rightarrow> 's raw_handler \<Rightarrow> 's raw_handler" where
  "Recovery log_panic nxt r s =
     (case nxt r s of
        ((ws, panicked), s1) \<Rightarrow>
          if panicked then ((ws @ recovery_calls, False), log_panic r s1) else ((ws, False), s1))"

record log_entry =
  le_method :: string
  le_path :: string
  le_status :: int
  le_request_id :: string

definition RequestLogging :: "(log_entry \<Rightarrow> 's \<Rightarrow> 's) \<Rightarrow> ('s \<Rightarrow> string \<times> 's) \<Rightarrow> string list \<Rightarrow>
    's raw_handler \<Rightarrow> 's raw_handler" where
  "RequestLogging log gen_id skipPaths nxt r s =
     (if rq_path r \<in> set skipPaths then nxt r s
      else let hid = Header_Get (rq_header r) ''X-Request-Id'';
               (requestID, s1) = (if hid = [] then gen_id s else (hid, s))
           in case nxt r s1 of
                ((ws, panicked), s2) \<Rightarrow>
                  if panicked then ((ws, True), s2)
                  else let rw = fold rw_call ws \<lparr>rw_statusCode = StatusOK, rw_written = False\<rparr>
                       in ((ws, False),
                           log \<lparr>le_method = rq_method r, le_path = rq_path r, le_status = rw_statusCode rw,
                                 le_request_id = requestID\<rparr> s2))"

definition hex_byte :: "char \<Rightarrow> string" where
  "hex_byte c = (let n = of_char c :: nat in [hex_digit (n div 16), hex_digit (n mod 16)])"

definition hex_bytes :: "string \<Rightarrow> string" where
  "hex_bytes bs = concat (map hex_byte bs)"

text \<open>The 16 random bytes are the argument.\<close>

definition generateRequestID :: "string \<Rightarrow> string" where
  "generateRequestID b =
     hex_bytes (take 4 b) @ ''-'' @ hex_bytes (take 2 (drop 4 b)) @ ''-'' @ hex_bytes (take 2 (drop 6 b)) @ ''-'' @
     hex_bytes (take 2 (drop 8 b)) @ ''-'' @ hex_bytes (take 6 (drop 10 b))"

section \<open>The server\<close>

datatype http_middleware = MRecovery | MRequestLogging "string list" | MUser nat

datatype router_call = RUse "http_middleware list" | RMount string nat | RRoute string nat | RGet string

record server =
  sv_addr :: string
  sv_readTimeout :: int
  sv_writeTimeout :: int
  sv_logger :: nat
  sv_checkers :: "(string \<times> nat) list"       \<comment> \<open>in the order \<open>range\<close> visits them\<close>
  sv_disableRecovery :: bool
  sv_disableRequestLogging :: bool
  sv_pendingMiddleware :: "http_middleware list"
  sv_pendingMounts :: "(string \<times> nat) list"
  sv_pendingRoutes :: "(string \<times> nat) list"
  sv_built :: bool
  sv_router :: "router_call list"
  sv_httpSrv :: "nat option"
  sv_listener :: "string option"              \<comment> \<open>the address of the listener\<close>

datatype server_option =
    WithAddr string | WithReadTimeout int | WithWriteTimeout int | WithLogger nat
  | WithHealthCheckers "(string \<times> nat) list" | WithoutRecovery | WithoutRequestLogging

fun apply_server_option :: "server_option \<Rightarrow> server \<Rightarrow> server" where
  "apply_server_option (WithAddr addr) x = x\<lparr>sv_addr := addr\<rparr>"
| "apply_server_option (WithReadTimeout d) x = x\<lparr>sv_readTimeout := d\<rparr>"
| "apply_server_option (WithWriteTimeout d) x = x\<lparr>sv_writeTimeout := d\<rparr>"
| "apply_server_option (WithLogger l) x = x\<lparr>sv_logger := l\<rparr>"
| "apply_server_option (WithHealthCheckers cs) x = x\<lparr>sv_checkers := cs\<rparr>"
| "apply_server_option WithoutRecovery x = x\<lparr>sv_disableRecovery := True\<rparr>"
| "apply_server_option WithoutRequestLogging x = x\<lparr>sv_disableRequestLogging := True\<rparr>"

definition Server_New :: "server_option list \<Rightarrow> goerr + server" where
  "Server_New opts = Inr (fold apply_server_option opts
     \<lparr>sv_addr = '':8080'', sv_readTimeout = 10 * second, sv_writeTimeout = 10 * second, sv_logger = 0,
      sv_checkers = [], sv_disableRecovery = False, sv_disableRequestLogging = False,
      sv_pendingMiddleware = [], sv_pendingMounts = [], sv_pendingRoutes = [], sv_built = False,
      sv_router = [], sv_httpSrv = None, sv_listener = None\<rparr>)"

text \<open>Calls on the router, in order, until chi refuses one (\<open>None\<close>, a panic).\<close>

fun route_all :: "(router_call list \<Rightarrow> router_call \<Rightarrow> bool) \<Rightarrow> router_call list \<Rightarrow> router_call list \<Rightarrow>
    router_call list option" where
  "route_all chi [] calls = Some calls"
| "route_all chi (c # cs) calls = (if chi calls c then route_all chi cs (calls @ [c]) else None)"

definition mountHealthEndpoints :: "router_call list" where
  "mountHealthEndpoints = [RGet ''/healthz/live'', RGet ''/healthz/ready'', RGet ''/metrics'']"

definition build_calls :: "server \<Rightarrow> router_call list" where
  "build_calls x =
     (if \<not> sv_disableRecovery x then [RUse [MRecovery]] else []) @
     (if \<not> sv_disableRequestLogging x then [RUse [MRequestLogging [''/healthz/live'', ''/healthz/ready'', ''/metrics'']]] else []) @
     [RUse (sv_pendingMiddleware x)] @
     map (\<lambda>(p, h). RMount p h) (sv_pendingMounts x) @
     map (\<lambda>(p, f). RRoute p f) (sv_pendingRoutes x) @
     mountHealthEndpoints"

record 's net_ops =
  net_listen :: "string \<Rightarrow> 's \<Rightarrow> (goerr + string) \<times> 's"
  serve :: "string \<Rightarrow> int \<Rightarrow> int \<Rightarrow> int \<Rightarrow> 's \<Rightarrow> nat \<times> 's"      \<comment> \<open>read, write and idle timeout\<close>
  srv_shutdown :: "nat \<Rightarrow> ctx \<Rightarrow> 's fallible"

text \<open>\<open>None\<close> is a panic of chi; the model's state is then the one before the call.\<close>

definition Server_Start :: "(router_call list \<Rightarrow> router_call \<Rightarrow> bool) \<Rightarrow> 's net_ops \<Rightarrow> server \<times> 's \<Rightarrow>
    (goerr option \<times> (server \<times> 's)) option" where
  "Server_Start chi ops st =
     (let x = fst st in
      case route_all chi (build_calls x) (sv_router x) of
        None \<Rightarrow> None
      | Some router \<Rightarrow>
          let x1 = x\<lparr>sv_router := router, sv_built := True\<rparr> in
          (case net_listen ops (sv_addr x1) (snd st) of
             (Inl err, s1) \<Rightarrow>
               Some (Some (Errorf [Lit ''server: listen on '', PS (sv_addr x1), Lit '': '', PW err]), (x1, s1))
           | (Inr laddr, s1) \<Rightarrow>
               (case serve ops laddr (sv_readTimeout x1) (sv_writeTimeout x1) (60 * second) s1 of
                  (srv, s2) \<Rightarrow> Some (None, (x1\<lparr>sv_listener := Some laddr, sv_httpSrv := Some srv\<rparr>, s2)))))"

definition Server_Stop :: "'s net_ops \<Rightarrow> ctx \<Rightarrow> (server \<times> 's) fallible" where
  "Server_Stop ops ctx st =
     (case sv_httpSrv (fst st) of
        None \<Rightarrow> (None, st)
      | Some srv \<Rightarrow>
          (case srv_shutdown ops srv ctx (snd st) of
             (err, s1) \<Rightarrow> (map_option (\<lambda>e. Errorf [Lit ''server: shutdown: '', PW e]) err, (fst st, s1))))"

definition Server_Mount :: "(router_call list \<Rightarrow> router_call \<Rightarrow> bool) \<Rightarrow> string \<Rightarrow> nat \<Rightarrow> server \<Rightarrow> server option" where
  "Server_Mount chi pattern h x =
     (if sv_built x then map_option (\<lambda>r. x\<lparr>sv_router := r\<rparr>) (route_all chi [RMount pattern h] (sv_router x))
      else Some (x\<lparr>sv_pendingMounts := sv_pendingMounts x @ [(pattern, h)]\<rparr>))"

definition Server_Route :: "(router_call list \<Rightarrow> router_call \<Rightarrow> bool) \<Rightarrow> string \<Rightarrow> nat \<Rightarrow> server \<Rightarrow> server option" where
  "Server_Route chi pattern f x =
     (if sv_built x then map_option (\<lambda>r. x\<lparr>sv_router := r\<rparr>) (route_all chi [RRoute pattern f] (sv_router x))
      else Some (x\<lparr>sv_pendingRoutes := sv_pendingRoutes x @ [(pattern, f)]\<rparr>))"

definition Server_Use :: "(router_call list \<Rightarrow> router_call \<Rightarrow> bool) \<Rightarrow> http_middleware list \<Rightarrow> server \<Rightarrow> server option" where
  "Server_Use chi mws x =
     (if sv_built x then map_option (\<lambda>r. x\<lparr>sv_router := r\<rparr>) (route_all chi [RUse mws] (sv_router x))
      else Some (x\<lparr>sv_pendingMiddleware := sv_pendingMiddleware x @ mws\<rparr>))"

definition Server_Router :: "server \<Rightarrow> router_call list" where
  "Server_Router x = sv_router x"

definition Server_Addr :: "server \<Rightarrow> string" where
  "Server_Addr x = (case sv_listener x of None \<Rightarrow> [] | Some a \<Rightarrow> a)"

section \<open>Health endpoints\<close>

record healthResponse =
  hr_Status :: string
  hr_Checks :: "(string \<times> string) list"

definition encode_health :: "healthResponse \<Rightarrow> json" where
  "encode_health h =
     JObj ([(''status'', JString (hr_Status h))] @
       (if hr_Checks h = [] then [] else [(''checks'', JObj (map (\<lambda>(n, v). (n, JString v)) (hr_Checks h)))]))"

definition handleLive :: "'s raw_handler" where
  "handleLive r s =
     (([SetHeader ''Content-Type'' ''application/json'', WriteHeader StatusOK,
        Write (JSONLine (encode_health \<lparr>hr_Status = ''ok'', hr_Checks = []\<rparr>))], False), s)"

text \<open>The loop over the checkers; \<open>check\<close> runs a checker.\<close>

fun check_all :: "(nat \<Rightarrow> ctx \<Rightarrow> 's fallible) \<Rightarrow> ctx \<Rightarrow> (string \<times> nat) list \<Rightarrow> healthResponse \<Rightarrow> 's \<Rightarrow> healthResponse \<times> 's" where
  "check_all check ctx [] resp s = (resp, s)"
| "check_all check ctx ((name, c) # cs) resp s =
     (case check c ctx s of
        (Some err, s1) \<Rightarrow>
          check_all check ctx cs (resp\<lparr>hr_Status := ''degraded'', hr_Checks := AList.update name (error_string err) (hr_Checks resp)\<rparr>) s1
      | (None, s1) \<Rightarrow> check_all check ctx cs (resp\<lparr>hr_Checks := AList.update name ''ok'' (hr_Checks resp)\<rparr>) s1)"

definition handleReady :: "(nat \<Rightarrow> ctx \<Rightarrow> 's fallible) \<Rightarrow> server \<Rightarrow> 's raw_handler" where
  "handleReady check x r s =
     (case check_all check (rq_ctx r) (sv_checkers x) \<lparr>hr_Status = ''ok'', hr_Checks = []\<rparr> s of
        (resp, s1) \<Rightarrow>
          (([SetHeader ''Content-Type'' ''application/json'',
             WriteHeader (if hr_Status resp = ''ok'' then StatusOK else StatusServiceUnavailable),
             Write (JSONLine (encode_health resp))], False), s1))"

definition handleMetrics :: "'s raw_handler" where
  "handleMetrics r s =
     (([SetHeader ''Content-Type'' ''text/plain'', WriteHeader StatusOK,
        Write (Bytes (''# metrics placeholder'' @ newline))], False), s)"

section \<open>Serving a request\<close>

text \<open>
  chi runs the middleware of the router around its routing, the one added first outermost. The
  loggers, the request ids, the user's middleware and chi's routing are the environment.
\<close>

record 's server_env =
  env_log_panic :: "request \<Rightarrow> 's \<Rightarrow> 's"
  env_log_request :: "log_entry \<Rightarrow> 's \<Rightarrow> 's"
  env_request_id :: "'s \<Rightarrow> string \<times> 's"
  env_user :: "nat \<Rightarrow> 's raw_handler \<Rightarrow> 's raw_handler"
  env_routing :: "router_call list \<Rightarrow> 's raw_handler"

fun middleware_fun :: "'s server_env \<Rightarrow> http_middleware \<Rightarrow> 's raw_handler \<Rightarrow> 's raw_handler" where
  "middleware_fun env MRecovery = Recovery (env_log_panic env)"
| "middleware_fun env (MRequestLogging skipPaths) = RequestLogging (env_log_request env) (env_request_id env) skipPaths"
| "middleware_fun env (MUser n) = env_user env n"

definition router_middleware :: "router_call list \<Rightarrow> http_middleware list" where
  "router_middleware calls = concat (map (\<lambda>c. case c of RUse ms \<Rightarrow> ms | _ \<Rightarrow> []) calls)"

definition serve_through :: "'s server_env \<Rightarrow> http_middleware list \<Rightarrow> router_call list \<Rightarrow> 's raw_handler" where
  "serve_through env ms calls = foldr (middleware_fun env) ms (env_routing env calls)"

definition Server_ServeHTTP :: "'s server_env \<Rightarrow> server \<Rightarrow> 's raw_handler" where
  "Server_ServeHTTP env x = serve_through env (router_middleware (sv_router x)) (sv_router x)"

section \<open>Facts\<close>

definition is_route :: "router_call \<Rightarrow> bool" where
  "is_route c \<longleftrightarrow> (case c of RUse _ \<Rightarrow> False | _ \<Rightarrow> True)"

text \<open>
  chi's documented rule: all middleware must be defined before routes. Whether chi takes a route
  depends on its pattern and on those before it, so \<open>routes_accepted\<close> says of one server that chi takes its routes.
\<close>

definition chi_law :: "(router_call list \<Rightarrow> router_call \<Rightarrow> bool) \<Rightarrow> bool" where
  "chi_law chi \<longleftrightarrow> (\<forall>calls mws. chi calls (RUse mws) \<longleftrightarrow> (\<forall>d \<in> set calls. \<not> is_route d))"

fun routes_accepted :: "(router_call list \<Rightarrow> router_call \<Rightarrow> bool) \<Rightarrow> router_call list \<Rightarrow> router_call list \<Rightarrow> bool" where
  "routes_accepted chi calls [] = True"
| "routes_accepted chi calls (c # cs) = (chi calls c \<and> routes_accepted chi (calls @ [c]) cs)"

lemma route_all_accepted: "routes_accepted chi calls cs \<Longrightarrow> route_all chi cs calls = Some (calls @ cs)"
  by (induction cs arbitrary: calls) simp_all

lemma not_route: "\<not> is_route c \<longleftrightarrow> (\<exists>mws. c = RUse mws)"
  by (cases c) (simp_all add: is_route_def)

lemma route_all_uses:
  "chi_law chi \<Longrightarrow> \<forall>c \<in> set (calls @ us). \<not> is_route c \<Longrightarrow> route_all chi us calls = Some (calls @ us)"
  by (induction us arbitrary: calls) (auto simp: chi_law_def not_route)

lemma route_all_append:
  "route_all chi (cs @ ds) calls = (case route_all chi cs calls of None \<Rightarrow> None | Some calls' \<Rightarrow> route_all chi ds calls')"
  by (induction cs arbitrary: calls) simp_all

definition build_uses :: "server \<Rightarrow> router_call list" where
  "build_uses x = (if \<not> sv_disableRecovery x then [RUse [MRecovery]] else []) @
     (if \<not> sv_disableRequestLogging x then [RUse [MRequestLogging [''/healthz/live'', ''/healthz/ready'', ''/metrics'']]] else []) @ [RUse (sv_pendingMiddleware x)]"

definition build_routes :: "server \<Rightarrow> router_call list" where
  "build_routes x = map (\<lambda>(p, h). RMount p h) (sv_pendingMounts x) @
     map (\<lambda>(p, f). RRoute p f) (sv_pendingRoutes x) @ mountHealthEndpoints"

lemma build_calls_split: "build_calls x = build_uses x @ build_routes x"
  by (simp add: build_calls_def build_uses_def build_routes_def)

lemma build_uses_uses: "c \<in> set (build_uses x) \<Longrightarrow> \<not> is_route c"
  by (auto simp: build_uses_def is_route_def split: if_splits)

lemma build_accepted:
  assumes "chi_law chi" and "\<forall>c \<in> set calls. \<not> is_route c" and "routes_accepted chi (calls @ build_uses x) (build_routes x)"
  shows "route_all chi (build_calls x) calls = Some (calls @ build_calls x)"
proof -
  have "route_all chi (build_uses x) calls = Some (calls @ build_uses x)"
    using assms build_uses_uses by (intro route_all_uses) auto
  with route_all_accepted[OF assms(3)] show ?thesis by (simp add: build_calls_split route_all_append)
qed

lemma build_refused:
  assumes "chi_law chi" and "d \<in> set calls" and "is_route d"
  shows "route_all chi (build_calls x) calls = None"
proof -
  have "\<not> chi calls (RUse mws)" for mws using assms by (auto simp: chi_law_def is_route_def)
  moreover obtain mws cs where "build_calls x = RUse mws # cs"
    by (cases "sv_disableRecovery x"; cases "sv_disableRequestLogging x") (auto simp: build_calls_def)
  ultimately show ?thesis by simp
qed

text \<open>The wrapper's status is the one sent, unless the handler sends an informational one.\<close>

lemma rw_calls_written: "rw_written rw \<Longrightarrow> fold rw_call ws rw = rw"
proof (induction ws)
  case (Cons w ws)
  then show ?case by (cases w) simp_all
qed simp

lemma responseWriter_status:
  assumes "\<forall>c. WriteHeader c \<in> set ws \<longrightarrow> \<not> informational c"
  shows "rw_statusCode (fold rw_call ws \<lparr>rw_statusCode = StatusOK, rw_written = False\<rparr>) = sr_status (sent ws)"
  unfolding sent_status_sent using assms by (induction ws rule: sent_status.induct) (auto simp: rw_calls_written)

lemma RequestLogging_keeps: "fst (RequestLogging log gen_id skip nxt r s) = fst (nxt r (if rq_path r \<in> set skip \<or> Header_Get (rq_header r) ''X-Request-Id'' \<noteq> [] then s else snd (gen_id s)))"
  by (auto simp: RequestLogging_def Let_def split: prod.splits)

lemma Recovery_returns: "\<exists>ws t. Recovery log_panic nxt r s = ((ws, False), t)"
  by (auto simp: Recovery_def split: prod.splits)

text \<open>A JSON answer with a status that has a body.\<close>

lemma sent_json_answer:
  "\<not> informational code \<Longrightarrow> bodyAllowedForStatus code \<Longrightarrow>
     sent [SetHeader k v, WriteHeader code, Write b] = \<lparr>sr_status = code, sr_header = Header_Set k v [], sr_body = [b]\<rparr>"
  by (simp add: sent_def new_writer_def send_header_def send_chunk_def Let_def)

text \<open>What the client gets of a recovered panic.\<close>

lemma sent_recovery_quiet:
  assumes "\<forall>c \<in> set ws. \<not> commits c"
  shows "sent (ws @ recovery_calls) =
    \<lparr>sr_status = StatusInternalServerError,
     sr_header = Header_Set ''Content-Type'' ''application/json'' (nw_header (fold net_call ws new_writer)),
     sr_body = [JSONLine recovery_json]\<rparr>"
  using net_calls_quiet[OF assms, of new_writer]
  by (simp add: new_writer_def sent_def recovery_calls_def send_header_def send_chunk_def Let_def informational_def
      bodyAllowedForStatus_def StatusInternalServerError_def)

lemma sent_recovery_committed:
  assumes "\<exists>c \<in> set ws. commits c"
  shows "sent (ws @ recovery_calls) = (sent ws)\<lparr>sr_body := sr_body (sent ws) @
    (if bodyAllowedForStatus (sr_status (sent ws)) then [JSONLine recovery_json] else [])\<rparr>"
  using sent_append[OF assms, of recovery_calls] by (simp add: recovery_calls_def chunk_of_def)

text \<open>The checkers run one after the other, every one of them, with their results.\<close>

fun run_checks :: "(nat \<Rightarrow> ctx \<Rightarrow> 's fallible) \<Rightarrow> ctx \<Rightarrow> nat list \<Rightarrow> 's \<Rightarrow> goerr option list \<times> 's" where
  "run_checks check ctx [] s = ([], s)"
| "run_checks check ctx (c # cs) s =
     (case check c ctx s of (r, s1) \<Rightarrow> apfst ((#) r) (run_checks check ctx cs s1))"

definition check_text :: "goerr option \<Rightarrow> string" where
  "check_text r = (case r of None \<Rightarrow> ''ok'' | Some e \<Rightarrow> error_string e)"

lemma check_all_spec:
  assumes "distinct (map fst cs)" and "fst ` set cs \<inter> fst ` set (hr_Checks resp) = {}"
    and "run_checks check ctx (map snd cs) s = (rs, t)"
  shows "\<exists>resp'. check_all check ctx cs resp s = (resp', t) \<and>
    hr_Checks resp' = hr_Checks resp @ zip (map fst cs) (map check_text rs) \<and>
    hr_Status resp' = (if \<forall>r \<in> set rs. r = None then hr_Status resp else ''degraded'')"
  using assms
proof (induction cs arbitrary: resp s rs)
  case (Cons nc cs)
  obtain n c where nc: "nc = (n, c)" by (cases nc)
  obtain r s1 where ch: "check c ctx s = (r, s1)" by (cases "check c ctx s")
  obtain rs1 where rs: "rs = r # rs1" "run_checks check ctx (map snd cs) s1 = (rs1, t)"
    using Cons.prems(3) nc ch by (auto simp: apfst_def map_prod_def split: prod.splits)
  define resp1 where "resp1 = resp\<lparr>hr_Status := (if r = None then hr_Status resp else ''degraded''),
    hr_Checks := hr_Checks resp @ [(n, check_text r)]\<rparr>"
  have up: "AList.update n x (hr_Checks resp) = hr_Checks resp @ [(n, x)]" for x
    using Cons.prems(2) nc by (intro update_new_key) auto
  have step: "check_all check ctx (nc # cs) resp s = check_all check ctx cs resp1 s1"
    using nc ch by (cases r) (simp_all add: resp1_def check_text_def up)
  from Cons.IH[OF _ _ rs(2), of resp1] Cons.prems(1,2) nc obtain resp' where
    "check_all check ctx cs resp1 s1 = (resp', t)"
    "hr_Checks resp' = hr_Checks resp1 @ zip (map fst cs) (map check_text rs1)"
    "hr_Status resp' = (if \<forall>r \<in> set rs1. r = None then hr_Status resp1 else ''degraded'')"
    by (auto simp: resp1_def)
  with nc rs(1) step show ?case by (intro exI[of _ resp']) (auto simp: resp1_def)
qed simp

lemma Server_Start_eq:
  assumes "route_all chi (build_calls x) (sv_router x) = Some rt"
  shows "\<exists>r y t. Server_Start chi ops (x, s) = Some (r, (y, t)) \<and> sv_router y = rt \<and>
    (r = None \<longleftrightarrow> (\<exists>a. fst (net_listen ops (sv_addr x) s) = Inr a)) \<and> (r = None \<longrightarrow> sv_httpSrv y \<noteq> None)"
  using assms by (auto simp: Server_Start_def Let_def split: prod.splits sum.splits)

lemma Server_Start_router:
  "Server_Start chi ops (x, s) = Some (r, (y, t)) \<Longrightarrow> route_all chi (build_calls x) (sv_router x) = Some (sv_router y)"
  by (auto simp: Server_Start_def Let_def split: option.splits prod.splits sum.splits)

lemma route_all_result: "route_all chi cs calls = Some calls' \<Longrightarrow> calls' = calls @ cs"
  by (induction cs arbitrary: calls) (fastforce split: if_splits)+

lemma Header_Get_Set: "Header_Get (Header_Set k v h) k = v"
  by (simp add: Header_Get_def Header_Set_def update_conv')

lemma take_drop_append: "take n (drop m c) @ drop (n + m) c = drop m c"
  by (metis append_take_drop_id drop_drop)

lemma length_hex_bytes: "length (hex_bytes bs) = 2 * length bs"
  by (induction bs) (simp_all add: hex_bytes_def hex_byte_def Let_def)

lemma hex_digit_inj: "n < 16 \<Longrightarrow> m < 16 \<Longrightarrow> hex_digit n = hex_digit m \<Longrightarrow> n = m"
proof -
  assume *: "n < 16" "m < 16" "hex_digit n = hex_digit m"
  have "of_char (hex_digit k) = (if k < 10 then 48 + k else 87 + k)" if "k < 16" for k
    using that by (simp add: hex_digit_def)
  with * have "(if n < 10 then 48 + n else 87 + n) = (if m < 10 then 48 + m else 87 + m)" by metis
  with *(1,2) show "n = m" by (simp split: if_splits)
qed

lemma hex_byte_inj: "hex_byte c = hex_byte d \<Longrightarrow> c = d"
proof -
  assume "hex_byte c = hex_byte d"
  then have h: "hex_digit (of_char c div 16) = hex_digit (of_char d div 16)" "hex_digit (of_char c mod 16) = hex_digit (of_char d mod 16)"
    by (simp_all add: hex_byte_def Let_def)
  have lt: "(of_char e :: nat) div 16 < 16" "(of_char e :: nat) mod 16 < 16" for e :: char
    using nat_of_char_less_256[of e] by (simp_all add: less_mult_imp_div_less)
  have "(of_char c :: nat) div 16 = of_char d div 16" "(of_char c :: nat) mod 16 = of_char d mod 16"
    using h hex_digit_inj lt by blast+
  then have "(of_char c :: nat) = of_char d" by (metis div_mult_mod_eq)
  then show "c = d" by simp
qed

lemma hex_bytes_inj: "length as = length bs \<Longrightarrow> hex_bytes as = hex_bytes bs \<Longrightarrow> as = bs"
proof (induction as bs rule: list_induct2)
  case (Cons a as b bs)
  then have "hex_byte a = hex_byte b" "hex_bytes as = hex_bytes bs" by (simp_all add: hex_bytes_def hex_byte_def Let_def)
  with Cons.IH hex_byte_inj show ?case by blast
qed simp

section \<open>Properties\<close>

text \<open>The interceptor answers every handler error with the connect code that belongs to the
  error's platform code (the internal one for an error that carries none), and an error that is
  not a platform error reaches the client as the fixed text \<open>internal error\<close>.\<close>

lemma ErrorInterceptor_maps:
  assumes "nxt req s = (Inl err, s1)"
  shows "\<exists>e. ErrorInterceptor nxt req s = (Inl (mapPlatformCode (GetCode (Some err)), e), s1) \<and>
    (IsError (Some err) = None \<longrightarrow> error_string e = ''internal error'') \<and>
    (\<forall>pe. IsError (Some err) = Some pe \<longrightarrow> e = PlatformErr pe)"
  using assms by (cases "IsError (Some err)") (simp_all add: ErrorInterceptor_def GetCode_def mapPlatformCode_def code_defs)

text \<open>What the client sees of a platform error is not its message alone: the text of the wrapped
  cause is part of it.\<close>

lemma ErrorInterceptor_exposes_cause:
  "ErrorInterceptor (\<lambda>q s. (Inl (PlatformErr (WrapError c m (Some cause))) :: goerr + 'r, s)) req s =
     (Inl (mapPlatformCode c, PlatformErr (WrapError c m (Some cause))), s) \<and>
   (\<exists>pre. error_string (PlatformErr (WrapError c m (Some cause))) = pre @ error_string cause)"
  by (simp add: ErrorInterceptor_def IsError_def WrapError_def)

text \<open>C30: \<open>Start\<close> builds the router in the order chi demands (default middleware, user middleware, user
  routes, health endpoints), so on a router without routes it panics only if chi refuses one
  of the user's patterns, and every call reaches the router in that order. If listening
  fails the router stays built, and starting again panics: the middleware now comes after routes.\<close>

theorem Server_Start_builds_router:
  assumes "chi_law chi" and "\<forall>c \<in> set (sv_router x). \<not> is_route c"
    and "routes_accepted chi (sv_router x @ build_uses x) (build_routes x)"
  shows "\<exists>r y t. Server_Start chi ops (x, s) = Some (r, (y, t)) \<and> sv_router y = sv_router x @ build_calls x \<and>
    (r = None \<longleftrightarrow> (\<exists>a. fst (net_listen ops (sv_addr x) s) = Inr a)) \<and> (r = None \<longrightarrow> sv_httpSrv y \<noteq> None) \<and>
    (\<forall>u. Server_Start chi ops (y, u) = None)"
proof -
  from Server_Start_eq[OF build_accepted[OF assms], of ops s] obtain r y t where
    st: "Server_Start chi ops (x, s) = Some (r, (y, t))" and rt: "sv_router y = sv_router x @ build_calls x"
    and r: "r = None \<longleftrightarrow> (\<exists>a. fst (net_listen ops (sv_addr x) s) = Inr a)" "r = None \<longrightarrow> sv_httpSrv y \<noteq> None" by blast
  have "RGet ''/metrics'' \<in> set (sv_router y)" by (simp add: rt build_calls_def mountHealthEndpoints_def)
  then have "\<forall>u. Server_Start chi ops (y, u) = None"
    by (simp add: Server_Start_def build_refused[OF assms(1)] is_route_def)
  with st rt r show ?thesis by blast
qed

definition demo_net :: "nat net_ops" where
  "demo_net = \<lparr>net_listen = (\<lambda>a n. (Inl (ErrNew ''address already in use''), n)),
     serve = (\<lambda>a rt wt it n. (1, n)), srv_shutdown = (\<lambda>h c n. (None, n))\<rparr>"

definition demo_chi :: "router_call list \<Rightarrow> router_call \<Rightarrow> bool" where
  "demo_chi calls c \<longleftrightarrow> is_route c \<or> (\<forall>d \<in> set calls. \<not> is_route d)"

theorem Server_Start_builds_router_witness:
  "\<exists>x e y t. Server_New [] = Inr x \<and> Server_Start demo_chi demo_net (x, 0) = Some (Some e, (y, t)) \<and>
     Server_Start demo_chi demo_net (y, t) = None"
proof -
  obtain x where x: "Server_New [] = Inr x" "sv_router x = []" by (simp add: Server_New_def)
  have l: "fst (net_listen demo_net a s) \<noteq> Inr b" for a s b by (simp add: demo_net_def)
  have chi: "chi_law demo_chi" by (simp add: chi_law_def demo_chi_def is_route_def)
  have "routes_accepted demo_chi (sv_router x @ build_uses x) (build_routes x)"
    using x(1) by (auto simp: Server_New_def build_routes_def mountHealthEndpoints_def demo_chi_def is_route_def)
  from Server_Start_builds_router[OF chi _ this, of demo_net 0] x obtain r y t where
    st: "Server_Start demo_chi demo_net (x, 0) = Some (r, (y, t))" and r: "r \<noteq> None"
    and again: "\<forall>u. Server_Start demo_chi demo_net (y, u) = None" using l by auto
  with x show ?thesis by blast
qed

text \<open>C31: With recovery enabled (the default) no request to a started server ends in a panic,
  whatever handlers and further middleware do. Without a panic the client gets exactly what the
  inner handler sent. A panic is logged; after one before anything was sent it gets status 500 and the JSON error;
  after one later it gets the status and the headers already sent, and the JSON error is
  appended to the body.\<close>

theorem Server_recovers_panics:
  assumes "Server_Start chi ops (x, s0) = Some (r0, (y, t0))" and "sv_router x = []" and "\<not> sv_disableRecovery x"
    and "serve_through env (tl (router_middleware (sv_router y))) (sv_router y) r s = ((ws, panicked), s1)"
  shows "\<exists>vs t. Server_ServeHTTP env y r s = ((vs, False), t) \<and>
    t = (if panicked then env_log_panic env r s1 else s1) \<and> (\<not> panicked \<longrightarrow> vs = ws) \<and>
    (panicked \<and> (\<forall>c \<in> set ws. \<not> commits c) \<longrightarrow>
       sr_status (sent vs) = 500 \<and> sr_body (sent vs) = [JSONLine recovery_json] \<and>
       Header_Get (sr_header (sent vs)) ''Content-Type'' = ''application/json'') \<and>
    (panicked \<and> (\<exists>c \<in> set ws. commits c) \<longrightarrow>
       sent vs = (sent ws)\<lparr>sr_body := sr_body (sent ws) @
         (if bodyAllowedForStatus (sr_status (sent ws)) then [JSONLine recovery_json] else [])\<rparr>)"
proof -
  obtain ms where ms: "router_middleware (sv_router y) = MRecovery # ms"
    using route_all_result[OF Server_Start_router[OF assms(1)]] assms(2,3) by (auto simp: build_calls_def router_middleware_def)
  have "Server_ServeHTTP env y r s = ((ws @ (if panicked then recovery_calls else []), False),
      if panicked then env_log_panic env r s1 else s1)"
    using assms(4) ms by (simp add: Server_ServeHTTP_def serve_through_def Recovery_def)
  then show ?thesis using sent_recovery_quiet[of ws] sent_recovery_committed[of ws]
    by (auto simp: Header_Get_Set StatusInternalServerError_def)
qed

definition demo_env :: "write_call list \<Rightarrow> nat server_env" where
  "demo_env ws = \<lparr>env_log_panic = (\<lambda>r n. n + 1), env_log_request = (\<lambda>e n. n + 100), env_request_id = (\<lambda>n. (''id'', n)),
     env_user = (\<lambda>m h. h), env_routing = (\<lambda>calls r n. ((ws, True), n))\<rparr>"

definition demo_listening :: "nat net_ops" where
  "demo_listening = demo_net\<lparr>net_listen := (\<lambda>a n. (Inr a, n))\<rparr>"

definition demo_request :: request where
  "demo_request = \<lparr>rq_ctx = Background, rq_method = ''GET'', rq_path = ''/orders'', rq_header = []\<rparr>"

theorem Server_recovers_panics_witness:
  "\<exists>x y vs us t. Server_New [] = Inr x \<and> Server_Start demo_chi demo_listening (x, 0) = Some (None, (y, 0)) \<and>
     Server_ServeHTTP (demo_env []) y demo_request 0 = ((vs, False), 1) \<and> sr_status (sent vs) = 500 \<and>
     Server_ServeHTTP (demo_env [WriteHeader 200, Write (Bytes ''half'')]) y demo_request 0 = ((us, False), t) \<and>
     sr_status (sent us) = 200 \<and> sr_body (sent us) = [Bytes ''half'', JSONLine recovery_json]"
proof -
  obtain x where x0: "Server_New [] = Inr x" by (simp add: Server_New_def)
  define y where "y = x\<lparr>sv_router := build_calls x, sv_built := True, sv_listener := Some (sv_addr x), sv_httpSrv := Some 1\<rparr>"
  have x: "Server_New [] = Inr x" "sv_router x = []" "\<not> sv_disableRecovery x" "\<not> sv_disableRequestLogging x"
    "sv_pendingMiddleware x = []" "sv_pendingMounts x = []" "sv_pendingRoutes x = []"
    using x0 by (auto simp: Server_New_def)
  have st: "Server_Start demo_chi demo_listening (x, 0) = Some (None, (y, 0))"
    using x by (simp add: Server_Start_def build_calls_def mountHealthEndpoints_def demo_chi_def is_route_def demo_listening_def demo_net_def y_def)
  have in1: "serve_through (demo_env ws) (tl (router_middleware (sv_router y))) (sv_router y) demo_request 0 = ((ws, True), 0)" for ws
    using x by (simp add: y_def build_calls_def mountHealthEndpoints_def router_middleware_def serve_through_def demo_env_def
        RequestLogging_def demo_request_def Header_Get_def)
  have "sent [WriteHeader 200, Write (Bytes ''half'')] = \<lparr>sr_status = 200, sr_header = [], sr_body = [Bytes ''half'']\<rparr>"
    by (simp add: sent_def new_writer_def send_header_def send_chunk_def informational_def bodyAllowedForStatus_def)
  then show ?thesis
    using x(1) st Server_recovers_panics[OF st x(2,3) in1[of "[]"]]
      Server_recovers_panics[OF st x(2,3) in1[of "[WriteHeader 200, Write (Bytes ''half'')]"]]
    by (auto simp: commits_def informational_def bodyAllowedForStatus_def demo_env_def)
qed

text \<open>The readiness endpoint runs every checker once and answers 200 exactly when all of them
  succeed, 503 otherwise; the body names every checker with \<open>ok\<close> or its error text. (The registry's
  names are distinct: it is a map.)\<close>

lemma handleReady_reports:
  assumes "distinct (map fst (sv_checkers x))"
    and "run_checks check (rq_ctx r) (map snd (sv_checkers x)) s = (rs, t)"
  shows "\<exists>h ws. handleReady check x r s = ((ws, False), t) \<and>
    sent ws = \<lparr>sr_status = if \<forall>e \<in> set rs. e = None then 200 else 503,
      sr_header = Header_Set ''Content-Type'' ''application/json'' [], sr_body = [JSONLine (encode_health h)]\<rparr> \<and>
    hr_Status h = (if \<forall>e \<in> set rs. e = None then ''ok'' else ''degraded'') \<and>
    hr_Checks h = zip (map fst (sv_checkers x)) (map check_text rs)"
proof -
  from check_all_spec[OF assms(1) _ assms(2), of "\<lparr>hr_Status = ''ok'', hr_Checks = []\<rparr>"] obtain h where
    c: "check_all check (rq_ctx r) (sv_checkers x) \<lparr>hr_Status = ''ok'', hr_Checks = []\<rparr> s = (h, t)"
    and h: "hr_Checks h = zip (map fst (sv_checkers x)) (map check_text rs)"
      "hr_Status h = (if \<forall>e \<in> set rs. e = None then ''ok'' else ''degraded'')" by auto
  show ?thesis
    by (rule exI[of _ h], cases "\<forall>e \<in> set rs. e = None")
      (use h in \<open>auto simp: handleReady_def c sent_json_answer status_defs informational_def bodyAllowedForStatus_def\<close>)
qed

text \<open>The access log: a request off the skipped paths that returns is logged once, with its method and
  path and the status the client got (unless the handler sends an informational status, which the
  wrapper takes for the final one); a request that panics is not logged by this middleware.\<close>

lemma RequestLogging_truthful:
  assumes "rq_path r \<notin> set skip" and "Header_Get (rq_header r) ''X-Request-Id'' = rid" and "rid \<noteq> []"
    and "nxt r s = ((ws, panicked), s1)" and "\<forall>c. WriteHeader c \<in> set ws \<longrightarrow> \<not> informational c"
  shows "RequestLogging log gen_id skip nxt r s = ((ws, panicked),
    if panicked then s1
    else log \<lparr>le_method = rq_method r, le_path = rq_path r, le_status = sr_status (sent ws), le_request_id = rid\<rparr> s1)"
  using assms(1-4) by (simp add: RequestLogging_def Let_def responseWriter_status[OF assms(5)])

text \<open>Request ids have 36 characters, and different random bytes give different ids.\<close>

lemma generateRequestID_unique:
  assumes "length a = 16" and "length b = 16"
  shows "length (generateRequestID a) = 36 \<and> (generateRequestID a = generateRequestID b \<longrightarrow> a = b)"
proof -
  have cut: "c = take 4 c @ take 2 (drop 4 c) @ take 2 (drop 6 c) @ take 2 (drop 8 c) @ take 6 (drop 10 c)"
    if "length c = 16" for c :: string
  proof -
    have "take 6 (drop 10 c) = drop 10 c" using that by simp
    with take_drop_append[of 2 8 c] take_drop_append[of 2 6 c] take_drop_append[of 2 4 c] show ?thesis by simp
  qed
  have len: "length (generateRequestID c) = 36" if "length c = 16" for c
    using that by (simp add: generateRequestID_def length_hex_bytes)
  have "a = b" if "generateRequestID a = generateRequestID b"
  proof -
    have "take 4 a = take 4 b" "take 2 (drop 4 a) = take 2 (drop 4 b)" "take 2 (drop 6 a) = take 2 (drop 6 b)"
      "take 2 (drop 8 a) = take 2 (drop 8 b)" "take 6 (drop 10 a) = take 6 (drop 10 b)"
      using that assms by (auto simp: generateRequestID_def length_hex_bytes intro!: hex_bytes_inj)
    with cut[OF assms(1)] cut[OF assms(2)] show ?thesis by metis
  qed
  with len[OF assms(1)] show ?thesis by simp
qed

text \<open>An informational status is logged although another one is sent.\<close>

lemma informational_status_logged:
  "rw_statusCode (fold rw_call [WriteHeader 103, WriteHeader 200] \<lparr>rw_statusCode = StatusOK, rw_written = False\<rparr>) = 103 \<and>
   sr_status (sent [WriteHeader 103, WriteHeader 200]) = 200"
  by (simp add: sent_status_sent informational_def)

end
