(* ===== verification/Observe.thy ===== *)
theory Observe
  imports Logging Server
begin

text \<open>
  The observer, \<open>src/pkg/observe/observer.go\<close>, and the HTTP and ConnectRPC instrumentation,
  \<open>middleware.go\<close> and \<open>connectinterceptor.go\<close>.

  OpenTelemetry is the record \<open>otel_ops\<close>; providers, exporters and resources are numbers. The
  observer's log handler lives in the heap of \<open>Logging\<close>, so the state of the component is the
  observer, the heap and the rest of the world.
\<close>

section \<open>The observer and its options\<close>

record observer =
  ob_serviceName :: string
  ob_serviceVersion :: string
  ob_otlpEndpoint :: string
  ob_logger :: platform_logger
  ob_baseHandler :: "log_handler option"
  ob_swap :: "swapHandler option"
  ob_tp :: "nat option"
  ob_mp :: "nat option"
  ob_lp :: "nat option"
  ob_customTP :: bool
  ob_customMP :: bool
  ob_customLP :: bool
  ob_ownedTP :: "nat option"
  ob_ownedMP :: "nat option"
  ob_ownedLP :: "nat option"
  ob_started :: bool

datatype observer_option =
    WithServiceName string | WithServiceVersion string | WithOTLPEndpoint string
  | WithObserveLogger platform_logger | WithBaseHandler "log_handler option"
  | WithTracerProvider "nat option" | WithMeterProvider "nat option" | WithLoggerProvider "nat option"

fun apply_observer_option :: "observer_option \<Rightarrow> observer \<Rightarrow> observer" where
  "apply_observer_option (WithServiceName n) x = x\<lparr>ob_serviceName := n\<rparr>"
| "apply_observer_option (WithServiceVersion v) x = x\<lparr>ob_serviceVersion := v\<rparr>"
| "apply_observer_option (WithOTLPEndpoint e) x = x\<lparr>ob_otlpEndpoint := e\<rparr>"
| "apply_observer_option (WithObserveLogger l) x = x\<lparr>ob_logger := l\<rparr>"
| "apply_observer_option (WithBaseHandler h) x = x\<lparr>ob_baseHandler := h\<rparr>"
| "apply_observer_option (WithTracerProvider tp) x = x\<lparr>ob_tp := tp, ob_customTP := True\<rparr>"
| "apply_observer_option (WithMeterProvider mp) x = x\<lparr>ob_mp := mp, ob_customMP := True\<rparr>"
| "apply_observer_option (WithLoggerProvider lp) x = x\<lparr>ob_lp := lp, ob_customLP := True\<rparr>"

record 's otel_ops =
  build_resource :: "string \<Rightarrow> string option \<Rightarrow> goerr + nat"          \<comment> \<open>service name, version if set\<close>
  trace_exporter :: "string \<Rightarrow> 's \<Rightarrow> (goerr + nat) \<times> 's"
  metric_exporter :: "string \<Rightarrow> 's \<Rightarrow> (goerr + nat) \<times> 's"
  log_exporter :: "string \<Rightarrow> 's \<Rightarrow> (goerr + nat) \<times> 's"
  new_tp :: "nat \<Rightarrow> nat option \<Rightarrow> 's \<Rightarrow> nat \<times> 's"                   \<comment> \<open>resource, exporter\<close>
  new_mp :: "nat \<Rightarrow> nat option \<Rightarrow> 's \<Rightarrow> nat \<times> 's"
  new_lp :: "nat \<Rightarrow> nat option \<Rightarrow> 's \<Rightarrow> nat \<times> 's"
  tp_shutdown :: "nat \<Rightarrow> ctx \<Rightarrow> 's fallible"
  mp_shutdown :: "nat \<Rightarrow> ctx \<Rightarrow> 's fallible"
  lp_shutdown :: "nat \<Rightarrow> ctx \<Rightarrow> 's fallible"
  otel_handler :: "string \<Rightarrow> nat \<Rightarrow> nat"                             \<comment> \<open>\<open>otelslog.NewHandler\<close>\<close>

text \<open>
  One of the three provider blocks of \<open>New\<close>: nothing for a custom provider; otherwise an exporter,
  if an endpoint is set, and the provider.
\<close>

definition make_provider :: "bool \<Rightarrow> string \<Rightarrow> string \<Rightarrow> (string \<Rightarrow> 's \<Rightarrow> (goerr + nat) \<times> 's) \<Rightarrow>
    (nat option \<Rightarrow> 's \<Rightarrow> nat \<times> 's) \<Rightarrow> 's \<Rightarrow> (goerr + nat option) \<times> 's" where
  "make_provider custom endpoint what exporter mk s =
     (if custom then (Inr None, s)
      else if endpoint \<noteq> [] then
        (case exporter endpoint s of
           (Inl err, s1) \<Rightarrow> (Inl (Errorf [Lit what, PW err]), s1)
         | (Inr e, s1) \<Rightarrow> apfst (Inr \<circ> Some) (mk (Some e) s1))
      else apfst (Inr \<circ> Some) (mk None s))"

text \<open>\<open>p\<close> is the address \<open>newSwapHandler\<close> allocates.\<close>

definition Observer_New :: "'s otel_ops \<Rightarrow> nat \<Rightarrow> observer_option list \<Rightarrow> heap \<times> 's \<Rightarrow> (goerr + observer) \<times> (heap \<times> 's)" where
  "Observer_New ops p opts hs =
     (let x = fold apply_observer_option opts
                \<lparr>ob_serviceName = ''unknown'', ob_serviceVersion = [], ob_otlpEndpoint = [], ob_logger = NopLogger,
                 ob_baseHandler = None, ob_swap = None, ob_tp = None, ob_mp = None, ob_lp = None,
                 ob_customTP = False, ob_customMP = False, ob_customLP = False,
                 ob_ownedTP = None, ob_ownedMP = None, ob_ownedLP = None, ob_started = False\<rparr>;
          version = (if ob_serviceVersion x \<noteq> [] then Some (ob_serviceVersion x) else None);
          endpoint = ob_otlpEndpoint x
      in case build_resource ops (ob_serviceName x) version of
           Inl err \<Rightarrow> (Inl (Errorf [Lit ''observe: build resource: '', PW err]), hs)
         | Inr res \<Rightarrow>
      (case make_provider (ob_customTP x) endpoint ''observe: create OTLP trace exporter: '' (trace_exporter ops) (new_tp ops res) (snd hs) of
         (Inl err, s1) \<Rightarrow> (Inl err, (fst hs, s1))
       | (Inr tp, s1) \<Rightarrow>
      (case make_provider (ob_customMP x) endpoint ''observe: create OTLP metric exporter: '' (metric_exporter ops) (new_mp ops res) s1 of
         (Inl err, s2) \<Rightarrow> (Inl err, (fst hs, s2))
       | (Inr mp, s2) \<Rightarrow>
      (case make_provider (ob_customLP x) endpoint ''observe: create OTLP log exporter: '' (log_exporter ops) (new_lp ops res) s2 of
         (Inl err, s3) \<Rightarrow> (Inl err, (fst hs, s3))
       | (Inr lp, s3) \<Rightarrow>
           let x1 = x\<lparr>ob_ownedTP := tp, ob_ownedMP := mp, ob_ownedLP := lp,
                      ob_tp := (if ob_customTP x then ob_tp x else tp),
                      ob_mp := (if ob_customMP x then ob_mp x else mp),
                      ob_lp := (if ob_customLP x then ob_lp x else lp)\<rparr>
           in (case ob_baseHandler x of
                 None \<Rightarrow> (Inr x1, (fst hs, s3))
               | Some h \<Rightarrow>
                   (case newSwapHandler p h (fst hs) of
                      (sw, hp) \<Rightarrow> (Inr (x1\<lparr>ob_swap := Some sw, ob_logger := SlogLogger (Swapping sw)\<rparr>), (hp, s3))))))))"

section \<open>Lifecycle\<close>

definition Observer_Start :: "'s otel_ops \<Rightarrow> (observer \<times> heap \<times> 's) fallible" where
  "Observer_Start ops st =
     (let x = fst st; hp = fst (snd st) in
      if ob_started x then (Some (Errorf [Lit ''observe: already started'']), st)
      else
        let hp1 = (case (ob_swap x, ob_baseHandler x) of
                     (Some sw, Some base) \<Rightarrow>
                       let tracedBase = TraceHandler base in
                       (case ob_lp x of
                          Some lp \<Rightarrow> swap_root sw (MultiHandler [tracedBase, External (otel_handler ops (ob_serviceName x) lp) []]) hp
                        | None \<Rightarrow> swap_root sw tracedBase hp)
                   | _ \<Rightarrow> hp)
        in (None, (x\<lparr>ob_started := True\<rparr>, (hp1, snd (snd st)))))"

definition shutdown_owned :: "string \<Rightarrow> (nat \<Rightarrow> ctx \<Rightarrow> 's fallible) \<Rightarrow> ctx \<Rightarrow> nat option \<Rightarrow> goerr list \<times> 's \<Rightarrow> goerr list \<times> 's" where
  "shutdown_owned what sd ctx owned es =
     (case owned of
        None \<Rightarrow> es
      | Some pr \<Rightarrow>
          (case sd pr ctx (snd es) of
             (None, s1) \<Rightarrow> (fst es, s1)
           | (Some err, s1) \<Rightarrow> (fst es @ [Errorf [Lit what, PW err]], s1)))"

definition Observer_Stop :: "'s otel_ops \<Rightarrow> ctx \<Rightarrow> (observer \<times> heap \<times> 's) fallible" where
  "Observer_Stop ops ctx st =
     (let x = fst st; hp = fst (snd st) in
      if \<not> ob_started x then (None, st)
      else
        let hp1 = (case (ob_swap x, ob_baseHandler x) of (Some sw, Some base) \<Rightarrow> swap_root sw base hp | _ \<Rightarrow> hp);
            es1 = shutdown_owned ''observe: shutdown tracer provider: '' (tp_shutdown ops) ctx (ob_ownedTP x) ([], snd (snd st));
            es2 = shutdown_owned ''observe: shutdown meter provider: '' (mp_shutdown ops) ctx (ob_ownedMP x) es1;
            (errs, s1) = shutdown_owned ''observe: shutdown logger provider: '' (lp_shutdown ops) ctx (ob_ownedLP x) es2
        in (if errs \<noteq> [] then Some (Errorf [Lit ''observe: stop errors: '', PVs errs]) else None,
            (x\<lparr>ob_started := False\<rparr>, (hp1, s1))))"

text \<open>A provider a getter returns: the configured one, or a no-op one.\<close>

datatype provider = Provider nat | NoopProvider

definition provider_of :: "nat option \<Rightarrow> provider" where
  "provider_of o' = (case o' of Some n \<Rightarrow> Provider n | None \<Rightarrow> NoopProvider)"

definition Observer_TracerProvider :: "observer \<Rightarrow> provider" where
  "Observer_TracerProvider x = provider_of (ob_tp x)"

definition Observer_MeterProvider :: "observer \<Rightarrow> provider" where
  "Observer_MeterProvider x = provider_of (ob_mp x)"

definition Observer_LoggerProvider :: "observer \<Rightarrow> provider" where
  "Observer_LoggerProvider x = provider_of (ob_lp x)"

definition Observer_Logger :: "observer \<Rightarrow> platform_logger" where
  "Observer_Logger x = ob_logger x"

definition Observer_Tracer :: "observer \<Rightarrow> string \<Rightarrow> provider \<times> string" where
  "Observer_Tracer x name = (Observer_TracerProvider x, name)"

definition Observer_Meter :: "observer \<Rightarrow> string \<Rightarrow> provider \<times> string" where
  "Observer_Meter x name = (Observer_MeterProvider x, name)"

text \<open>The OpenTelemetry globals \<open>SetAsGlobal\<close> sets; the propagators are named.\<close>

record otel_globals =
  gl_tp :: "nat option"
  gl_mp :: "nat option"
  gl_propagators :: "string list"

definition SetAsGlobal :: "observer \<Rightarrow> otel_globals \<Rightarrow> otel_globals" where
  "SetAsGlobal x g =
     (let g1 = (case ob_tp x of Some tp \<Rightarrow> g\<lparr>gl_tp := Some tp\<rparr> | None \<Rightarrow> g);
          g2 = (case ob_mp x of Some mp \<Rightarrow> g1\<lparr>gl_mp := Some mp\<rparr> | None \<Rightarrow> g1)
      in g2\<lparr>gl_propagators := [''tracecontext'', ''baggage'']\<rparr>)"

interpretation observer_lc: lifecycle "Observer_Start ops" "Observer_Stop ops ctx" "\<lambda>st. ob_started (fst st)" for ops ctx
proof
  show "ob_started (fst s) \<Longrightarrow> \<exists>e. Observer_Start ops s = (Some e, s)" for s
    by (simp add: Observer_Start_def)
  show "Observer_Start ops s = (None, t) \<Longrightarrow> ob_started (fst t)" for s t
    by (auto simp: Observer_Start_def Let_def split: if_splits)
  show "Observer_Start ops s = (Some e, t) \<Longrightarrow> ob_started (fst t) = ob_started (fst s)" for s e t
    by (auto simp: Observer_Start_def Let_def split: if_splits)
  show "\<not> ob_started (fst s) \<Longrightarrow> Observer_Stop ops ctx s = (None, s)" for s
    by (simp add: Observer_Stop_def)
  show "Observer_Stop ops ctx s = (r, t) \<Longrightarrow> \<not> ob_started (fst t)" for s r t
    by (auto simp: Observer_Stop_def Let_def split: if_splits prod.splits)
qed

section \<open>Instrumentation\<close>

datatype obs_event =
    SpanStarted string
  | SpanStatusCode int
  | SpanErrorRecorded goerr
  | SpanStatusError string
  | RequestCounted string int         \<comment> \<open>method and status code\<close>
  | DurationRecorded string int
  | SpanEnded

text \<open>\<open>statusRecorder.WriteHeader\<close> overwrites the status at every call.\<close>

definition recorder_call :: "write_call \<Rightarrow> int \<Rightarrow> int" where
  "recorder_call w code = (case w of WriteHeader c \<Rightarrow> c | _ \<Rightarrow> code)"

definition HTTPMiddleware :: "(ctx \<Rightarrow> string \<Rightarrow> ctx) \<Rightarrow> 's raw_handler \<Rightarrow> request \<Rightarrow> 's \<Rightarrow>
    outcome \<times> obs_event list \<times> 's" where
  "HTTPMiddleware start_span nxt r s =
     (let spanName = rq_method r @ '' '' @ rq_path r;
          ctx = start_span (rq_ctx r) spanName
      in case nxt (r\<lparr>rq_ctx := ctx\<rparr>) s of
           ((ws, panicked), s1) \<Rightarrow>
             let code = fold recorder_call ws StatusOK in
             ((ws, panicked),
              [SpanStarted spanName] @
              (if panicked then []
               else [SpanStatusCode code, RequestCounted (rq_method r) code, DurationRecorded (rq_method r) code]) @
              [SpanEnded], s1))"

definition ConnectInterceptor :: "(ctx \<Rightarrow> string \<Rightarrow> ctx) \<Rightarrow> ('q \<Rightarrow> string) \<Rightarrow> (ctx \<Rightarrow> 'q \<Rightarrow> 's \<Rightarrow> (goerr + 'r) \<times> 's) \<Rightarrow>
    ctx \<Rightarrow> 'q \<Rightarrow> 's \<Rightarrow> (goerr + 'r) \<times> obs_event list \<times> 's" where
  "ConnectInterceptor start_span procedure nxt ctx req s =
     (let ctx1 = start_span ctx (procedure req) in
      case nxt ctx1 req s of
        (res, s1) \<Rightarrow>
          (res,
           [SpanStarted (procedure req)] @
           (case res of Inl err \<Rightarrow> [SpanErrorRecorded err, SpanStatusError (error_string err)] | Inr _ \<Rightarrow> []) @
           [SpanEnded], s1))"

section \<open>Facts\<close>

text \<open>The recorded status is the one sent if the handler sends one final status, before the body.\<close>

lemma recorder_status:
  assumes "\<And>c. WriteHeader c \<notin> set ws" and "\<And>b. Write b \<notin> set vs" and "\<And>c. WriteHeader c \<notin> set vs"
    and "\<not> informational code"
  shows "fold recorder_call (vs @ WriteHeader code # ws) StatusOK = sr_status (sent (vs @ WriteHeader code # ws))"
proof -
  have quiet: "fold recorder_call us c = c" if "\<And>d. WriteHeader d \<notin> set us" for us c
    using that by (induction us arbitrary: c) (auto simp: recorder_call_def split: write_call.splits)
  have "sent_status (vs @ WriteHeader code # ws) = code"
    using assms(2,3,4) by (induction vs rule: sent_status.induct) auto
  moreover have "fold recorder_call (vs @ WriteHeader code # ws) StatusOK = code"
    using quiet[OF assms(1)] by (simp add: recorder_call_def)
  ultimately show ?thesis by (simp add: sent_status_sent)
qed

text \<open>A second \<open>WriteHeader\<close>, which \<open>net/http\<close> ignores, changes the recorded status.\<close>

lemma recorder_status_overwritten:
  "fold recorder_call [WriteHeader 200, Write b, WriteHeader 500] StatusOK = 500 \<and>
   sr_status (sent [WriteHeader 200, Write b, WriteHeader 500]) = 200"
  by (simp add: recorder_call_def sent_status_sent informational_def)

lemma fold_derive_External: "fold derive ds (External n es) = External n (es @ ds)"
  by (induction ds arbitrary: es) simp_all

lemma fold_derive_Trace: "fold derive ds (TraceHandler h) = TraceHandler (fold derive ds h)"
  by (induction ds arbitrary: h) simp_all

lemma fold_derive_Multi: "fold derive ds (MultiHandler hs) = MultiHandler (map (fold derive ds) hs)"
  by (induction ds arbitrary: hs) (simp_all add: comp_def)

lemmas fold_derive = fold_derive_External fold_derive_Trace fold_derive_Multi

text \<open>A logger derived from that of an observer which has a base handler.\<close>

definition derived_logger :: "observer \<Rightarrow> derivation list \<Rightarrow> platform_logger" where
  "derived_logger x ds =
     (case ob_swap x of None \<Rightarrow> NopLogger | Some sw \<Rightarrow> SlogLogger (Swapping (fold swap_derive ds sw)))"

lemma fold_swap_derive:
  "sw_root (fold swap_derive ds sw) = sw_root sw \<and> sw_builds (fold swap_derive ds sw) = sw_builds sw @ ds"
  by (induction ds arbitrary: sw) (simp_all add: swap_derive_def)

text \<open>What \<open>New\<close> leaves: the logger swaps at the root, and the owned providers are those in use.\<close>

lemma Observer_New_swap:
  assumes "Observer_New ops p opts hs = (Inr x, (hp, s))" and "ob_baseHandler x = Some base"
  shows "ob_swap x = Some \<lparr>sw_root = p, sw_builds = []\<rparr> \<and> hp p = base"
  using assms by (auto simp: Observer_New_def newSwapHandler_def Let_def split: sum.splits prod.splits option.splits)

lemma Observer_Start_swaps:
  assumes "ob_swap x = Some sw" and "ob_baseHandler x = Some base" and "ob_lp x = Some lp"
    and "Observer_Start ops (x, (hp, s)) = (None, (x', (hp', s')))"
  shows "hp' (sw_root sw) = MultiHandler [TraceHandler base, External (otel_handler ops (ob_serviceName x) lp) []] \<and>
    x' = x\<lparr>ob_started := True\<rparr> \<and> s' = s"
  using assms by (auto simp: Observer_Start_def swap_root_def Let_def split: if_splits)

lemma Observer_Stop_swaps_back:
  assumes "ob_swap x = Some sw" and "ob_baseHandler x = Some base" and "ob_started x"
    and "Observer_Stop ops ctx (x, (hp, s)) = (r, (x', (hp', s')))"
  shows "hp' (sw_root sw) = base \<and> x' = x\<lparr>ob_started := False\<rparr>"
  using assms by (auto simp: Observer_Stop_def swap_root_def Let_def split: if_splits prod.splits)

text \<open>\<open>Stop\<close> shuts down every owned provider, in order, whatever the earlier shutdowns return.\<close>

definition owned_shutdowns :: "'s otel_ops \<Rightarrow> ctx \<Rightarrow> observer \<Rightarrow> (string \<times> 's fallible) list" where
  "owned_shutdowns ops ctx x =
     (case ob_ownedTP x of None \<Rightarrow> [] | Some n \<Rightarrow> [(''observe: shutdown tracer provider: '', tp_shutdown ops n ctx)]) @
     (case ob_ownedMP x of None \<Rightarrow> [] | Some n \<Rightarrow> [(''observe: shutdown meter provider: '', mp_shutdown ops n ctx)]) @
     (case ob_ownedLP x of None \<Rightarrow> [] | Some n \<Rightarrow> [(''observe: shutdown logger provider: '', lp_shutdown ops n ctx)])"

definition run_shutdown :: "string \<times> 's fallible \<Rightarrow> 's fallible" where
  "run_shutdown job s = apfst (map_option (\<lambda>err. Errorf [Lit (fst job), PW err])) (snd job s)"

lemma shutdown_owned_collect:
  "shutdown_owned what sd ctx owned (es, s) =
     (case run_collect run_shutdown (case owned of None \<Rightarrow> [] | Some n \<Rightarrow> [(what, sd n ctx)]) s of (es', s1) \<Rightarrow> (es @ es', s1))"
  by (auto simp: shutdown_owned_def run_shutdown_def apfst_def map_prod_def split: option.splits prod.splits)

lemma Observer_Stop_collects:
  assumes "ob_started x" and "run_collect run_shutdown (owned_shutdowns ops ctx x) s = (errs, t)"
  shows "\<exists>hp'. Observer_Stop ops ctx (x, (hp, s)) =
    (if errs \<noteq> [] then Some (Errorf [Lit ''observe: stop errors: '', PVs errs]) else None, (x\<lparr>ob_started := False\<rparr>, (hp', t)))"
  using assms
  by (auto simp: Observer_Stop_def owned_shutdowns_def shutdown_owned_collect run_collect_append Let_def split: prod.splits)

section \<open>Properties\<close>

text \<open>While the observer is started, every logger derived from its logger, before or after \<open>Start\<close>,
  writes each record twice: to the base handler with the trace and span id of the context added,
  and then, unmodified, to OpenTelemetry, each with the logger's own attributes and groups. If the
  base handler fails the record is not exported.\<close>

lemma started_logger_reaches_both:
  assumes "Observer_New ops p opts hs = (Inr x, (hp, s0))" and "ob_baseHandler x = Some (External b [])"
    and "ob_lp x = Some lp" and "Observer_Start ops (x, (hp, s0)) = (None, (x', (hp', s1)))"
    and "ext_enabled env b ds ctx lvl s"
    and "\<And>t. ext_enabled env (otel_handler ops (ob_serviceName x) lp) ds ctx lvl t"
  shows "log_call env hp' lvl ctx msg args (derived_logger x ds) s =
    (let r = \<lparr>lr_level = lvl, lr_msg = msg, lr_attrs = args\<rparr> in
     case ext_handle env b ds ctx (add_trace_ids env ctx r) s of
       (Some err, s2) \<Rightarrow> s2
     | (None, s2) \<Rightarrow> snd (ext_handle env (otel_handler ops (ob_serviceName x) lp) ds ctx r s2))"
proof -
  from Observer_New_swap[OF assms(1,2)] have sw: "ob_swap x = Some \<lparr>sw_root = p, sw_builds = []\<rparr>" by simp
  from Observer_Start_swaps[OF sw assms(2,3,4)]
  have "hp' p = MultiHandler [TraceHandler (External b []), External (otel_handler ops (ob_serviceName x) lp) []]" by simp
  then have "resolve hp' (Swapping (fold swap_derive ds \<lparr>sw_root = p, sw_builds = []\<rparr>)) =
      MultiHandler [TraceHandler (External b ds), External (otel_handler ops (ob_serviceName x) lp) ds]"
    by (simp add: resolve_def current_def fold_swap_derive fold_derive)
  with assms(5,6) show ?thesis
    by (simp add: log_call_def derived_logger_def sw Let_def split: prod.splits option.splits)
qed

text \<open>Handlers that append what they get to the world.\<close>

definition demo_slog :: "(nat \<times> derivation list \<times> attr list) list slog_env" where
  "demo_slog = \<lparr>ext_enabled = (\<lambda>n ds ctx lvl s. True),
     ext_handle = (\<lambda>n ds ctx r s. (None, s @ [(n, ds, lr_attrs r)])), span_ids = (\<lambda>ctx. Some (''t1'', ''s1''))\<rparr>"

definition demo_otel :: "(nat \<times> derivation list \<times> attr list) list otel_ops" where
  "demo_otel = \<lparr>build_resource = (\<lambda>n v. Inr 1), trace_exporter = (\<lambda>e s. (Inr 2, s)), metric_exporter = (\<lambda>e s. (Inr 3, s)),
     log_exporter = (\<lambda>e s. (Inr 4, s)), new_tp = (\<lambda>r e s. (5, s)), new_mp = (\<lambda>r e s. (6, s)), new_lp = (\<lambda>r e s. (7, s)),
     tp_shutdown = (\<lambda>n ctx s. (None, s)), mp_shutdown = (\<lambda>n ctx s. (None, s)), lp_shutdown = (\<lambda>n ctx s. (None, s)),
     otel_handler = (\<lambda>n lp. 9)\<rparr>"

end
