(* ===== verification/Resources.thy ===== *)
theory Resources
  imports Kafka_Producer Nats Workflow Redis Postgres Observe
begin

text \<open>
  The connection components on libraries that keep a record. The record is part of the world: every call of a
  library that opens or closes something appends to it, the other calls leave it alone, and apart from that the
  libraries are any libraries. So a theorem about the record is about the calls a component makes.

  A handle is acquired when a pool, connection, client or worker has been opened, and released when the call that
  closes it is made. Two components acquire without a call: the Kafka producer makes its writer itself, and the
  observer, whose providers \<open>New\<close> has made, is taken to acquire those it owns when it is started, since it is \<open>Stop\<close>
  that shuts them down. Stopping a Temporal worker is waited for only until the context ends: then the worker is
  abandoned, and may still be running. The S3 client keeps no connection of its own, and \<open>Stop\<close> closes none.
\<close>

section \<open>Recording calls\<close>

datatype handle =
    WriterH kafka_writer | PublisherH nat | SubscriberH nat | ClientH nat | WorkerH nat | RedisH nat | PoolH nat
  | TracerH nat | MeterH nat | LoggerH nat

type_synonym call_log = "handle res_event list"
type_synonym 's logged = "'s \<times> call_log"

definition unlogged :: "('s \<Rightarrow> 'r \<times> 's) \<Rightarrow> 's logged \<Rightarrow> 'r \<times> 's logged" where
  "unlogged f st = (case f (fst st) of (r, s1) \<Rightarrow> (r, (s1, snd st)))"

definition unlogged0 :: "('s \<Rightarrow> 's) \<Rightarrow> 's logged \<Rightarrow> 's logged" where
  "unlogged0 f st = (f (fst st), snd st)"

text \<open>A call with the events it leaves, which depend on its result.\<close>

definition recorded :: "('r \<Rightarrow> call_log) \<Rightarrow> ('s \<Rightarrow> 'r \<times> 's) \<Rightarrow> 's logged \<Rightarrow> 'r \<times> 's logged" where
  "recorded ev f st = (case f (fst st) of (r, s1) \<Rightarrow> (r, (s1, snd st @ ev r)))"

definition recorded0 :: "call_log \<Rightarrow> ('s \<Rightarrow> 's) \<Rightarrow> 's logged \<Rightarrow> 's logged" where
  "recorded0 ev f st = (f (fst st), snd st @ ev)"

definition opens :: "(nat \<Rightarrow> handle) \<Rightarrow> goerr + nat \<Rightarrow> call_log" where
  "opens con r = (case r of Inl e \<Rightarrow> [] | Inr h \<Rightarrow> [Acquired (con h)])"

lemmas logged_defs = unlogged_def unlogged0_def recorded_def recorded0_def opens_def

definition logged_kafka :: "'s kafka_ops \<Rightarrow> 's logged kafka_ops" where
  "logged_kafka ops =
     \<lparr>write_messages = (\<lambda>w ctx ms. unlogged (write_messages ops w ctx ms)),
      close_writer = (\<lambda>w. recorded (\<lambda>_. [Released (WriterH w)]) (close_writer ops w)),
      trace_fields = trace_fields ops, extract_fields = extract_fields ops, start_span = start_span ops\<rparr>"

definition logged_nats :: "(nat \<Rightarrow> handle) \<Rightarrow> 's nats_ops \<Rightarrow> 's logged nats_ops" where
  "logged_nats con ops =
     \<lparr>connect = (\<lambda>u os. recorded (opens con) (connect ops u os)), jetstream = (\<lambda>c. unlogged (jetstream ops c)),
      conn_close = (\<lambda>c. recorded0 [Released (con c)] (conn_close ops c)),
      conn_drain = (\<lambda>c. recorded (\<lambda>_. [Released (con c)]) (conn_drain ops c)),
      conn_publish = (\<lambda>c m. unlogged (conn_publish ops c m)), js_publish = (\<lambda>j m i. unlogged (js_publish ops j m i)),
      request_sub = (\<lambda>r. unlogged (request_sub ops r)), sub_drain = (\<lambda>x. unlogged (sub_drain ops x)),
      wait_handlers = unlogged0 (wait_handlers ops), msg_ack = (\<lambda>m. unlogged (msg_ack ops m)),
      msg_nak = (\<lambda>m. unlogged (msg_nak ops m)), nats_wait = (\<lambda>c b. unlogged (nats_wait ops c b)),
      hdr_get = hdr_get ops, hdr_set = hdr_set ops, nats_fields = nats_fields ops, nats_extract = nats_extract ops,
      nats_span = nats_span ops\<rparr>"

definition logged_sdk :: "('v, 's) temporal_sdk \<Rightarrow> ('v, 's logged) temporal_sdk" where
  "logged_sdk sdk =
     \<lparr>new_interceptor = (\<lambda>tp. unlogged (new_interceptor sdk tp)),
      dial = (\<lambda>o'. recorded (opens ClientH) (dial sdk o')),
      client_close = (\<lambda>tc. recorded0 [Released (ClientH tc)] (client_close sdk tc)),
      execute_workflow = (\<lambda>tc ctx a b w args. unlogged (execute_workflow sdk tc ctx a b w args)),
      signal_workflow = (\<lambda>tc ctx a b c v. unlogged (signal_workflow sdk tc ctx a b c v)),
      worker_new = (\<lambda>tc q. unlogged (worker_new sdk tc q)), worker_register = (\<lambda>tw r. unlogged0 (worker_register sdk tw r)),
      worker_start = (\<lambda>tw. recorded (\<lambda>r. if r = None then [Acquired (WorkerH tw)] else []) (worker_start sdk tw)),
      worker_stop_within = (\<lambda>tw ctx. recorded (\<lambda>r. if r = None then [Released (WorkerH tw)] else [Abandoned (WorkerH tw)])
        (worker_stop_within sdk tw ctx))\<rparr>"

definition logged_redis :: "'s goredis \<Rightarrow> 's logged goredis" where
  "logged_redis ops =
     \<lparr>rd_Nil = rd_Nil ops, rd_new = (\<lambda>o'. recorded (\<lambda>h. [Acquired (RedisH h)]) (rd_new ops o')),
      rd_ping = (\<lambda>h ctx. unlogged (rd_ping ops h ctx)),
      rd_close = (\<lambda>h. recorded (\<lambda>_. [Released (RedisH h)]) (rd_close ops h)),
      rd_set = (\<lambda>h ctx k v ttl. unlogged (rd_set ops h ctx k v ttl)), rd_get = (\<lambda>h ctx k. unlogged (rd_get ops h ctx k)),
      rd_set_nx = (\<lambda>h ctx k v ttl. unlogged (rd_set_nx ops h ctx k v ttl)), rd_del = (\<lambda>h ctx ks. unlogged (rd_del ops h ctx ks))\<rparr>"

definition logged_pgx :: "'s pgx_ops \<Rightarrow> 's logged pgx_ops" where
  "logged_pgx ops =
     \<lparr>parse_config = parse_config ops, new_pool = (\<lambda>ctx cfg. recorded (opens PoolH) (new_pool ops ctx cfg)),
      pool_ping = (\<lambda>p ctx. unlogged (pool_ping ops p ctx)),
      pool_close = (\<lambda>p. recorded0 [Released (PoolH p)] (pool_close ops p)),
      begin_tx = (\<lambda>p ctx o'. unlogged (begin_tx ops p ctx o')), tx_commit = (\<lambda>tx ctx. unlogged (tx_commit ops tx ctx)),
      tx_rollback = (\<lambda>tx ctx. unlogged (tx_rollback ops tx ctx))\<rparr>"

definition logged_otel :: "'s otel_ops \<Rightarrow> 's logged otel_ops" where
  "logged_otel ops =
     \<lparr>build_resource = build_resource ops, trace_exporter = (\<lambda>e. unlogged (trace_exporter ops e)),
      metric_exporter = (\<lambda>e. unlogged (metric_exporter ops e)), log_exporter = (\<lambda>e. unlogged (log_exporter ops e)),
      new_tp = (\<lambda>r e. unlogged (new_tp ops r e)), new_mp = (\<lambda>r e. unlogged (new_mp ops r e)), new_lp = (\<lambda>r e. unlogged (new_lp ops r e)),
      tp_shutdown = (\<lambda>p ctx. recorded (\<lambda>_. [Released (TracerH p)]) (tp_shutdown ops p ctx)),
      mp_shutdown = (\<lambda>p ctx. recorded (\<lambda>_. [Released (MeterH p)]) (mp_shutdown ops p ctx)),
      lp_shutdown = (\<lambda>p ctx. recorded (\<lambda>_. [Released (LoggerH p)]) (lp_shutdown ops p ctx)),
      otel_handler = otel_handler ops\<rparr>"

text \<open>The handles a component has in its fields.\<close>

definition held_in :: "('a \<Rightarrow> handle) \<Rightarrow> 'a option \<Rightarrow> handle multiset" where
  "held_in con o' = (case o' of None \<Rightarrow> {#} | Some h \<Rightarrow> {#con h#})"

definition owned_list :: "observer \<Rightarrow> handle list" where
  "owned_list x =
     map TracerH (case ob_ownedTP x of None \<Rightarrow> [] | Some p \<Rightarrow> [p]) @
     map MeterH (case ob_ownedMP x of None \<Rightarrow> [] | Some p \<Rightarrow> [p]) @
     map LoggerH (case ob_ownedLP x of None \<Rightarrow> [] | Some p \<Rightarrow> [p])"

definition observer_held :: "observer \<Rightarrow> handle multiset" where
  "observer_held x = (if ob_started x then mset (owned_list x) else {#})"

text \<open>The two \<open>Start\<close> methods that acquire without a call.\<close>

definition taking_Producer_Start :: "('s logged producer \<times> 's logged) fallible" where
  "taking_Producer_Start st =
     (case Producer_Start st of
        (Some e, st1) \<Rightarrow> (Some e, st1)
      | (None, (p, (s, l))) \<Rightarrow> (None, (p, (s, l @ (case pr_writer p of None \<Rightarrow> [] | Some w \<Rightarrow> [Acquired (WriterH w)])))))"

definition taking_Observer_Start :: "'s otel_ops \<Rightarrow> (observer \<times> heap \<times> 's logged) fallible" where
  "taking_Observer_Start ops st =
     (case Observer_Start (logged_otel ops) st of
        (Some e, st1) \<Rightarrow> (Some e, st1)
      | (None, (x, (h, (s, l)))) \<Rightarrow> (None, (x, (h, (s, l @ map Acquired (owned_list x))))))"

section \<open>Each component keeps its books\<close>

lemma audit_snoc:
  assumes "audit l = Some H"
  shows "audit (l @ [Acquired h]) = Some (H + {#h#})"
    and "h \<in># H \<Longrightarrow> audit (l @ [Released h]) = Some (H - {#h#})"
    and "h \<in># H \<Longrightarrow> audit (l @ [Abandoned h]) = Some (H - {#h#})"
    and "audit (l @ [Acquired h, Released h]) = Some H"
  using assms by (simp_all add: audit_append)

text \<open>
  The component contract is proved for any library, so it holds on the recording one too; what is left is the books.
\<close>

interpretation producer_books: audited "\<lambda>_. taking_Producer_Start" "\<lambda>_. Producer_Stop (logged_kafka ops)"
  "\<lambda>st. pr_writer (fst st) \<noteq> None" "\<lambda>st. snd (snd st)" "\<lambda>st. held_in WriterH (pr_writer (fst st))" for ops
  by unfold_locales
    (auto simp: taking_Producer_Start_def Producer_Start_def Producer_Stop_def Let_def held_in_def logged_kafka_def logged_defs audit_snoc
      split: if_splits prod.splits option.splits)

interpretation publisher_books: audited "\<lambda>_. Publisher_Start (logged_nats PublisherH ops)" "\<lambda>_. Publisher_Stop (logged_nats PublisherH ops)"
  "\<lambda>st. np_conn (fst st) \<noteq> None" "\<lambda>st. snd (snd st)" "\<lambda>st. held_in PublisherH (np_conn (fst st))" for ops
proof -
  note defs = Publisher_Start_def Publisher_Stop_def Let_def held_in_def logged_nats_def logged_defs
  show "audited (\<lambda>_. Publisher_Start (logged_nats PublisherH ops)) (\<lambda>_. Publisher_Stop (logged_nats PublisherH ops))
      (\<lambda>st. np_conn (fst st) \<noteq> None) (\<lambda>st. snd (snd st)) (\<lambda>st. held_in PublisherH (np_conn (fst st)))"
  proof (intro audited.intro nats_publisher_lc.lifecycle_axioms)
  qed (auto simp: defs audit_snoc split: if_splits prod.splits option.splits sum.splits)
qed

text \<open>Draining the subscriptions and waiting for the handlers leaves no record.\<close>

lemma drain_subs_unlogged:
  "snd (fold (\<lambda>sub s. snd (sub_drain (logged_nats con ops) sub s)) subs st) = snd st"
  by (induction subs arbitrary: st) (simp_all add: logged_nats_def unlogged_def split: prod.splits)

lemma Subscriber_Stop_logged:
  "Subscriber_Stop (logged_nats SubscriberH ops) st = (r, t) \<Longrightarrow>
     (case ns_conn (fst st) of
        None \<Rightarrow> t = st
      | Some c \<Rightarrow> snd (snd t) = snd (snd st) @ [Released (SubscriberH c)] \<and> ns_conn (fst t) = None)"
  using drain_subs_unlogged[of SubscriberH ops "ns_subs (fst st)" "snd st"]
  by (auto simp: Subscriber_Stop_def Let_def split: option.splits prod.splits)
    (auto simp: logged_nats_def logged_defs split: prod.splits)

interpretation subscriber_books: audited "\<lambda>_. Subscriber_Start (logged_nats SubscriberH ops)" "\<lambda>_. Subscriber_Stop (logged_nats SubscriberH ops)"
  "\<lambda>st. ns_conn (fst st) \<noteq> None" "\<lambda>st. snd (snd st)" "\<lambda>st. held_in SubscriberH (ns_conn (fst st))" for ops
proof -
  have ops: "connect (logged_nats SubscriberH ops) = (\<lambda>u os. recorded (opens SubscriberH) (connect ops u os))"
    "jetstream (logged_nats SubscriberH ops) = (\<lambda>c. unlogged (jetstream ops c))"
    "conn_close (logged_nats SubscriberH ops) = (\<lambda>c. recorded0 [Released (SubscriberH c)] (conn_close ops c))"
    by (simp_all add: logged_nats_def)
  show "audited (\<lambda>_. Subscriber_Start (logged_nats SubscriberH ops)) (\<lambda>_. Subscriber_Stop (logged_nats SubscriberH ops))
      (\<lambda>st. ns_conn (fst st) \<noteq> None) (\<lambda>st. snd (snd st)) (\<lambda>st. held_in SubscriberH (ns_conn (fst st)))"
  proof (intro audited.intro nats_subscriber_lc.lifecycle_axioms)
  qed (auto simp: Subscriber_Start_def Let_def held_in_def ops logged_defs audit_snoc
      split: if_splits prod.splits option.splits sum.splits dest!: Subscriber_Stop_logged)
qed

lemma client_dial_unlogged: "client_dial_options (logged_sdk sdk) c st = (r, t) \<Longrightarrow> snd t = snd st"
  by (auto simp: client_dial_options_def logged_sdk_def unlogged_def Let_def split: option.splits prod.splits sum.splits)

interpretation client_books: audited "\<lambda>_. Client_Start (logged_sdk sdk)" "\<lambda>_. Client_Stop (logged_sdk sdk)"
  "\<lambda>st. wc_temporalClient (wf_cl (fst st)) \<noteq> None" "\<lambda>st. snd (snd st)" "\<lambda>st. held_in ClientH (wc_temporalClient (wf_cl (fst st)))" for sdk
proof -
  have dial: "dial (logged_sdk sdk) = (\<lambda>o'. recorded (opens ClientH) (dial sdk o'))"
    and close: "client_close (logged_sdk sdk) = (\<lambda>tc. recorded0 [Released (ClientH tc)] (client_close sdk tc))"
    by (simp_all add: logged_sdk_def)
  show "audited (\<lambda>_. Client_Start (logged_sdk sdk)) (\<lambda>_. Client_Stop (logged_sdk sdk))
      (\<lambda>st. wc_temporalClient (wf_cl (fst st)) \<noteq> None) (\<lambda>st. snd (snd st)) (\<lambda>st. held_in ClientH (wc_temporalClient (wf_cl (fst st))))"
  proof (intro audited.intro client_lc.lifecycle_axioms)
  qed (auto simp: Client_Start_def Client_Stop_def Let_def held_in_def dial close logged_defs audit_snoc
      split: if_splits prod.splits option.splits sum.splits dest!: client_dial_unlogged)
qed

lemma register_unlogged: "snd (fold (worker_register (logged_sdk sdk) tw) rs st) = snd st"
  by (induction rs arbitrary: st) (simp_all add: logged_sdk_def unlogged0_def)

interpretation worker_books: audited "\<lambda>_. Worker_Start (logged_sdk sdk)" "Worker_Stop (logged_sdk sdk)"
  "\<lambda>st. ww_temporalWorker (wf_wk (fst st)) \<noteq> None" "\<lambda>st. snd (snd st)" "\<lambda>st. held_in WorkerH (ww_temporalWorker (wf_wk (fst st)))" for sdk
proof -
  have ops: "worker_new (logged_sdk sdk) = (\<lambda>tc q. unlogged (worker_new sdk tc q))"
    "worker_start (logged_sdk sdk) = (\<lambda>tw. recorded (\<lambda>r. if r = None then [Acquired (WorkerH tw)] else []) (worker_start sdk tw))"
    "worker_stop_within (logged_sdk sdk) = (\<lambda>tw ctx. recorded (\<lambda>r. if r = None then [Released (WorkerH tw)] else [Abandoned (WorkerH tw)])
       (worker_stop_within sdk tw ctx))"
    by (simp_all add: logged_sdk_def)
  show "audited (\<lambda>_. Worker_Start (logged_sdk sdk)) (Worker_Stop (logged_sdk sdk))
      (\<lambda>st. ww_temporalWorker (wf_wk (fst st)) \<noteq> None) (\<lambda>st. snd (snd st)) (\<lambda>st. held_in WorkerH (ww_temporalWorker (wf_wk (fst st))))"
  proof (intro audited.intro worker_lc.lifecycle_axioms)
  qed (auto simp: Worker_Start_def Worker_Stop_def Let_def held_in_def ops logged_defs audit_snoc register_unlogged
      split: if_splits prod.splits option.splits)
qed

interpretation redis_books: audited "Redis_Start (logged_redis ops)" "\<lambda>_. Redis_Stop (logged_redis ops)"
  "\<lambda>st. rc_rdb (fst st) \<noteq> None" "\<lambda>st. snd (snd st)" "\<lambda>st. held_in RedisH (rc_rdb (fst st))" for ops
proof -
  show "audited (Redis_Start (logged_redis ops)) (\<lambda>_. Redis_Stop (logged_redis ops))
      (\<lambda>st. rc_rdb (fst st) \<noteq> None) (\<lambda>st. snd (snd st)) (\<lambda>st. held_in RedisH (rc_rdb (fst st)))"
  proof (intro audited.intro redis_lc.lifecycle_axioms)
  qed (auto simp: Redis_Start_def Redis_Stop_def Let_def held_in_def logged_redis_def logged_defs audit_snoc
      split: if_splits prod.splits option.splits)
qed

interpretation db_books: audited "DB_Start (logged_pgx ops)" "\<lambda>_. DB_Stop (logged_pgx ops)"
  "\<lambda>st. db_pool (fst st) \<noteq> None" "\<lambda>st. snd (snd st)" "\<lambda>st. held_in PoolH (db_pool (fst st))" for ops
proof -
  show "audited (DB_Start (logged_pgx ops)) (\<lambda>_. DB_Stop (logged_pgx ops))
      (\<lambda>st. db_pool (fst st) \<noteq> None) (\<lambda>st. snd (snd st)) (\<lambda>st. held_in PoolH (db_pool (fst st)))"
  proof (intro audited.intro db_lc.lifecycle_axioms)
  qed (auto simp: DB_Start_def DB_Stop_def Let_def held_in_def logged_pgx_def logged_defs audit_snoc
      split: if_splits prod.splits option.splits sum.splits)
qed

text \<open>The three shutdowns of the observer, one record each for the providers it owns.\<close>

lemma shutdown_owned_logged:
  "snd (snd (shutdown_owned what (\<lambda>p ctx. recorded (\<lambda>_. [Released (con p)]) (f p ctx)) ctx owned es)) =
     snd (snd es) @ map (Released \<circ> con) (case owned of None \<Rightarrow> [] | Some p \<Rightarrow> [p])"
  by (auto simp: shutdown_owned_def recorded_def split: option.splits prod.splits)

lemma Observer_Stop_logged:
  assumes "Observer_Stop (logged_otel ops) ctx (x, hp, w) = (r, (x', hp', w'))"
  shows "if ob_started x then x' = x\<lparr>ob_started := False\<rparr> \<and> snd w' = snd w @ map Released (owned_list x) else (x', w') = (x, w)"
proof (cases "ob_started x")
  case True
  let ?s1 = "shutdown_owned ''observe: shutdown tracer provider: '' (tp_shutdown (logged_otel ops)) ctx (ob_ownedTP x) ([], w)"
  let ?s2 = "shutdown_owned ''observe: shutdown meter provider: '' (mp_shutdown (logged_otel ops)) ctx (ob_ownedMP x) ?s1"
  let ?s3 = "shutdown_owned ''observe: shutdown logger provider: '' (lp_shutdown (logged_otel ops)) ctx (ob_ownedLP x) ?s2"
  have sd: "tp_shutdown (logged_otel ops) = (\<lambda>p ctx. recorded (\<lambda>_. [Released (TracerH p)]) (tp_shutdown ops p ctx))"
    "mp_shutdown (logged_otel ops) = (\<lambda>p ctx. recorded (\<lambda>_. [Released (MeterH p)]) (mp_shutdown ops p ctx))"
    "lp_shutdown (logged_otel ops) = (\<lambda>p ctx. recorded (\<lambda>_. [Released (LoggerH p)]) (lp_shutdown ops p ctx))"
    by (simp_all add: logged_otel_def)
  have "x' = x\<lparr>ob_started := False\<rparr>" "w' = snd ?s3"
    using assms True by (auto simp: Observer_Stop_def Let_def split: prod.splits if_splits)
  moreover have "snd (snd ?s3) = snd w @ map Released (owned_list x)"
    unfolding sd shutdown_owned_logged by (simp add: owned_list_def)
  ultimately show ?thesis using True by simp
qed (use assms in \<open>simp add: Observer_Stop_def\<close>)

lemma audit_acquire_all: "audit l = Some H \<Longrightarrow> audit (l @ map Acquired hs) = Some (H + mset hs)"
  by (induction hs rule: rev_induct) (simp_all flip: append_assoc add: audit_snoc)

lemma audit_release_all: "audit_from (H + mset hs) (map Released hs) = Some H"
  by (induction hs) simp_all

lemma Observer_Start_logged:
  assumes "taking_Observer_Start ops (x, hp, w) = (r, (x', hp', w'))"
  shows "if ob_started x then r \<noteq> None \<and> (x', hp', w') = (x, hp, w)
    else r = None \<and> x' = x\<lparr>ob_started := True\<rparr> \<and> snd w' = snd w @ map Acquired (owned_list x)"
proof -
  have "owned_list (x\<lparr>ob_started := True\<rparr>) = owned_list x" by (simp add: owned_list_def)
  with assms show ?thesis by (auto simp: taking_Observer_Start_def Observer_Start_def Let_def split: if_splits prod.splits)
qed

interpretation observer_books: audited "\<lambda>_. taking_Observer_Start ops" "Observer_Stop (logged_otel ops)"
  "\<lambda>st. ob_started (fst st)" "\<lambda>st. snd (snd (snd st))" "\<lambda>st. observer_held (fst st)" for ops
proof (intro audited.intro)
  have owned: "mset (owned_list (x\<lparr>ob_started := b\<rparr>)) = mset (owned_list x)" for x b by (simp add: owned_list_def)
  note start = Observer_Start_logged[of ops] and stop = Observer_Stop_logged[of ops] and held = observer_held_def owned
  show "lifecycle (taking_Observer_Start ops) (Observer_Stop (logged_otel ops) ctx) (\<lambda>st. ob_started (fst st))" for ctx
    by unfold_locales
      (auto simp: observer_lc.stop_idle dest!: start observer_lc.stop_stops split: if_splits,
       auto simp: taking_Observer_Start_def Observer_Start_def Let_def split: prod.splits)
  show "audit (snd (snd (snd t))) = Some (H + observer_held (fst t))"
    if "audit (snd (snd (snd s))) = Some (H + observer_held (fst s))" "taking_Observer_Start ops s = (r, t)" for s H r t
    using that start[of "fst s" "fst (snd s)" "snd (snd s)" r "fst t" "fst (snd t)" "snd (snd t)"]
    by (auto simp: held audit_acquire_all split: if_splits)
  show "audit (snd (snd (snd t))) = Some (H + observer_held (fst t))"
    if "audit (snd (snd (snd s))) = Some (H + observer_held (fst s))" "Observer_Stop (logged_otel ops) ctx s = (r, t)" for s H ctx r t
    using that stop[of ctx "fst s" "fst (snd s)" "snd (snd s)" r "fst t" "fst (snd t)" "snd (snd t)"]
    by (auto simp: held audit_append audit_release_all split: if_splits)
  show "observer_held (fst t) = observer_held (fst s)" if "taking_Observer_Start ops s = (Some e, t)" for s e t
    using that start[of "fst s" "fst (snd s)" "snd (snd s)" "Some e" "fst t" "fst (snd t)" "snd (snd t)"] by (auto split: if_splits)
  show "\<not> ob_started (fst s) \<Longrightarrow> observer_held (fst s) = {#}" for s :: "observer \<times> heap \<times> 'a logged" by (simp add: held)
  have quiet: "abandoned (map Acquired hs) = {}" "abandoned (map Released hs) = {}" for hs :: "handle list"
    by (auto simp: abandoned_def)
  show "abandoned (snd (snd (snd t))) = abandoned (snd (snd (snd s)))" if "taking_Observer_Start ops s = (r, t)" for s r t
    using that start[of "fst s" "fst (snd s)" "snd (snd s)" r "fst t" "fst (snd t)" "snd (snd t)"] by (auto simp: quiet split: if_splits)
  show "abandoned (snd (snd (snd t))) = abandoned (snd (snd (snd s)))" if "Observer_Stop (logged_otel ops) ctx s = (None, t)" for s ctx t
    using that stop[of ctx "fst s" "fst (snd s)" "snd (snd s)" None "fst t" "fst (snd t)" "snd (snd t)"] by (auto simp: quiet split: if_splits)
qed

text \<open>Only a Temporal worker is ever abandoned.\<close>

definition only_workers :: "handle set \<Rightarrow> bool" where
  "only_workers hs \<longleftrightarrow> (\<forall>h \<in> hs. \<exists>n. h = WorkerH n)"

lemma stops_abandon_workers:
  "Producer_Stop (logged_kafka kops) (p, w) = (r, p', w') \<Longrightarrow> abandoned (snd w') = abandoned (snd w)"
  "Publisher_Stop (logged_nats PublisherH nops) (q, w) = (r, q', w') \<Longrightarrow> abandoned (snd w') = abandoned (snd w)"
  "Subscriber_Stop (logged_nats SubscriberH nops) (u, w) = (r, u', w') \<Longrightarrow> abandoned (snd w') = abandoned (snd w)"
  "Client_Stop (logged_sdk sdk) (c, w) = (r, c', w') \<Longrightarrow> abandoned (snd w') = abandoned (snd w)"
  "Redis_Stop (logged_redis rops) (d, w) = (r, d', w') \<Longrightarrow> abandoned (snd w') = abandoned (snd w)"
  "DB_Stop (logged_pgx pops) (b, w) = (r, b', w') \<Longrightarrow> abandoned (snd w') = abandoned (snd w)"
  "Observer_Stop (logged_otel oops) ctx (x, hp, w) = (r, x', hp', w') \<Longrightarrow> abandoned (snd w') = abandoned (snd w)"
  "only_workers (abandoned (snd w)) \<Longrightarrow> Worker_Stop (logged_sdk sdk) ctx (c, w) = (r, c', w') \<Longrightarrow> only_workers (abandoned (snd w'))"
proof -
  have "abandoned (map Released hs) = {}" for hs :: "handle list" by (auto simp: abandoned_def)
  then show "Observer_Stop (logged_otel oops) ctx (x, hp, w) = (r, x', hp', w') \<Longrightarrow> abandoned (snd w') = abandoned (snd w)"
    by (auto dest!: Observer_Stop_logged split: if_splits)
  show "Subscriber_Stop (logged_nats SubscriberH nops) (u, w) = (r, u', w') \<Longrightarrow> abandoned (snd w') = abandoned (snd w)"
    by (auto dest!: Subscriber_Stop_logged split: option.splits)
qed (auto simp: Producer_Stop_def Publisher_Stop_def Client_Stop_def Redis_Stop_def DB_Stop_def Worker_Stop_def only_workers_def
    logged_kafka_def logged_nats_def logged_sdk_def logged_redis_def logged_pgx_def logged_defs split: option.splits prod.splits if_splits)

end
