(* ===== verification/S3.thy ===== *)
theory S3
  imports Lifecycle
begin

text \<open>
  The S3 client, \<open>src/pkg/s3/s3.go\<close> and \<open>errors.go\<close>.

  The AWS SDK is the record \<open>aws_ops\<close>: loading the configuration, building a client from it, and the
  calls on the client. \<open>api_code\<close> is the code of the first \<open>smithy.APIError\<close> that \<open>errors.As\<close> finds in an
  error. A reader or a response body is its content.
\<close>

definition ErrNotFound :: goerr where "ErrNotFound = ErrNew ''s3: object not found''"
definition ErrBucketNotFound :: goerr where "ErrBucketNotFound = ErrNew ''s3: bucket not found''"

section \<open>The client and its options\<close>

record s3_client =
  s3_endpoint :: string
  s3_region :: string
  s3_accessKey :: string
  s3_secretKey :: string
  s3_bucket :: string
  s3_useSSL :: bool
  s3_logger :: nat
  s3_s3Client :: "nat option"
  s3_started :: bool

datatype s3_option =
    WithEndpoint string | WithRegion string | WithCredentials string string | WithBucket string
  | WithUseSSL bool | WithS3Logger nat

fun apply_s3_option :: "s3_option \<Rightarrow> s3_client \<Rightarrow> s3_client" where
  "apply_s3_option (WithEndpoint e) c = c\<lparr>s3_endpoint := e\<rparr>"
| "apply_s3_option (WithRegion r) c = c\<lparr>s3_region := r\<rparr>"
| "apply_s3_option (WithCredentials a k) c = c\<lparr>s3_accessKey := a, s3_secretKey := k\<rparr>"
| "apply_s3_option (WithBucket b) c = c\<lparr>s3_bucket := b\<rparr>"
| "apply_s3_option (WithUseSSL b) c = c\<lparr>s3_useSSL := b\<rparr>"
| "apply_s3_option (WithS3Logger l) c = c\<lparr>s3_logger := l\<rparr>"

definition S3_New :: "s3_option list \<Rightarrow> goerr + s3_client" where
  "S3_New opts =
     (let c = fold apply_s3_option opts
                \<lparr>s3_endpoint = [], s3_region = ''us-east-1'', s3_accessKey = [], s3_secretKey = [], s3_bucket = [],
                 s3_useSSL = False, s3_logger = 0, s3_s3Client = None, s3_started = False\<rparr>
      in if s3_bucket c = [] then Inl (Errorf [Lit ''s3: bucket is required'']) else Inr c)"

section \<open>The SDK\<close>

text \<open>The two client options \<open>Start\<close> sets for a custom endpoint.\<close>

record client_options =
  co_BaseEndpoint :: "string option"
  co_UsePathStyle :: bool

record put_input =
  pi_Bucket :: string
  pi_Key :: string
  pi_Body :: string
  pi_ContentType :: "string option"

record 's aws_ops =
  load_config :: "ctx \<Rightarrow> string \<Rightarrow> string \<Rightarrow> string \<Rightarrow> 's \<Rightarrow> (goerr + nat) \<times> 's"   \<comment> \<open>region, access and secret key\<close>
  new_from_config :: "nat \<Rightarrow> client_options \<Rightarrow> nat"
  head_bucket :: "nat \<Rightarrow> ctx \<Rightarrow> string \<Rightarrow> 's fallible"
  put_object :: "nat \<Rightarrow> ctx \<Rightarrow> put_input \<Rightarrow> 's fallible"
  get_object :: "nat \<Rightarrow> ctx \<Rightarrow> string \<Rightarrow> string \<Rightarrow> 's \<Rightarrow> (goerr + string) \<times> 's"
  delete_object :: "nat \<Rightarrow> ctx \<Rightarrow> string \<Rightarrow> string \<Rightarrow> 's fallible"
  head_object :: "nat \<Rightarrow> ctx \<Rightarrow> string \<Rightarrow> string \<Rightarrow> 's fallible"
  presign_get :: "nat \<Rightarrow> ctx \<Rightarrow> string \<Rightarrow> string \<Rightarrow> int \<Rightarrow> 's \<Rightarrow> (goerr + string) \<times> 's"
  api_code :: "goerr \<Rightarrow> string option"

definition isNotFoundError :: "'s aws_ops \<Rightarrow> goerr \<Rightarrow> bool" where
  "isNotFoundError ops err =
     (case api_code ops err of
        None \<Rightarrow> False
      | Some code \<Rightarrow> code = ''NoSuchKey'' \<or> code = ''NotFound'' \<or> code = ''404'')"

section \<open>Lifecycle\<close>

definition endpoint_options :: "s3_client \<Rightarrow> client_options" where
  "endpoint_options c =
     (if s3_endpoint c \<noteq> [] then
        let scheme = (if s3_useSSL c then ''https'' else ''http'') in
        \<lparr>co_BaseEndpoint = Some (scheme @ ''://'' @ s3_endpoint c), co_UsePathStyle = True\<rparr>
      else \<lparr>co_BaseEndpoint = None, co_UsePathStyle = False\<rparr>)"

definition S3_Start :: "'s aws_ops \<Rightarrow> ctx \<Rightarrow> (s3_client \<times> 's) fallible" where
  "S3_Start ops ctx st =
     (let c = fst st in
      if s3_started c then (Some (Errorf [Lit ''s3: already started'']), st)
      else (case load_config ops ctx (s3_region c) (s3_accessKey c) (s3_secretKey c) (snd st) of
              (Inl err, s1) \<Rightarrow> (Some (Errorf [Lit ''s3: load aws config: '', PW err]), (c, s1))
            | (Inr cfg, s1) \<Rightarrow>
                let client = new_from_config ops cfg (endpoint_options c);
                    c1 = c\<lparr>s3_s3Client := Some client\<rparr>
                in (case head_bucket ops client ctx (s3_bucket c) s1 of
                      (Some err, s2) \<Rightarrow>
                        (Some (Errorf [Lit ''s3: head bucket '', PQ (s3_bucket c), Lit '': '', PW err]),
                         (c1\<lparr>s3_s3Client := None\<rparr>, s2))
                    | (None, s2) \<Rightarrow> (None, (c1\<lparr>s3_started := True\<rparr>, s2)))))"

definition S3_Stop :: "(s3_client \<times> 's) fallible" where
  "S3_Stop st =
     (if \<not> s3_started (fst st) then (None, st)
      else (None, ((fst st)\<lparr>s3_started := False, s3_s3Client := None\<rparr>, snd st)))"

definition getClient :: "s3_client \<Rightarrow> nat option" where
  "getClient c = s3_s3Client c"

definition S3_S3Client :: "s3_client \<Rightarrow> nat option" where
  "S3_S3Client c = s3_s3Client c"

definition not_started :: goerr where
  "not_started = Errorf [Lit ''s3: not started'']"

definition S3_HealthCheck :: "'s aws_ops \<Rightarrow> s3_client \<Rightarrow> ctx \<Rightarrow> 's fallible" where
  "S3_HealthCheck ops c ctx s =
     (case getClient c of
        None \<Rightarrow> (Some not_started, s)
      | Some client \<Rightarrow>
          apfst (map_option (\<lambda>err. Errorf [Lit ''s3: health check failed: '', PW err])) (head_bucket ops client ctx (s3_bucket c) s))"

section \<open>Objects\<close>

text \<open>\<open>WithContentType\<close> is the only upload option: the options are the content types they set.\<close>

definition upload_content_type :: "string list \<Rightarrow> string" where
  "upload_content_type opts = fold (\<lambda>ct _. ct) opts []"

definition S3_Upload :: "'s aws_ops \<Rightarrow> s3_client \<Rightarrow> ctx \<Rightarrow> string \<Rightarrow> string \<Rightarrow> string list \<Rightarrow> 's fallible" where
  "S3_Upload ops c ctx key body opts s =
     (case getClient c of
        None \<Rightarrow> (Some not_started, s)
      | Some client \<Rightarrow>
          let ct = upload_content_type opts;
              input = \<lparr>pi_Bucket = s3_bucket c, pi_Key = key, pi_Body = body,
                       pi_ContentType = if ct \<noteq> [] then Some ct else None\<rparr>
          in apfst (map_option (\<lambda>err. Errorf [Lit ''s3: upload '', PQ key, Lit '': '', PW err]))
               (put_object ops client ctx input s))"

definition S3_Download :: "'s aws_ops \<Rightarrow> s3_client \<Rightarrow> ctx \<Rightarrow> string \<Rightarrow> 's \<Rightarrow> (goerr + string) \<times> 's" where
  "S3_Download ops c ctx key s =
     (case getClient c of
        None \<Rightarrow> (Inl not_started, s)
      | Some client \<Rightarrow>
          (case get_object ops client ctx (s3_bucket c) key s of
             (Inl err, s1) \<Rightarrow>
               (Inl (Errorf [Lit ''s3: download '', PQ key, Lit '': '',
                             PW (if isNotFoundError ops err then ErrNotFound else err)]), s1)
           | (Inr body, s1) \<Rightarrow> (Inr body, s1)))"

definition S3_Delete :: "'s aws_ops \<Rightarrow> s3_client \<Rightarrow> ctx \<Rightarrow> string \<Rightarrow> 's fallible" where
  "S3_Delete ops c ctx key s =
     (case getClient c of
        None \<Rightarrow> (Some not_started, s)
      | Some client \<Rightarrow>
          apfst (map_option (\<lambda>err. Errorf [Lit ''s3: delete '', PQ key, Lit '': '', PW err]))
            (delete_object ops client ctx (s3_bucket c) key s))"

definition S3_Exists :: "'s aws_ops \<Rightarrow> s3_client \<Rightarrow> ctx \<Rightarrow> string \<Rightarrow> 's \<Rightarrow> (goerr + bool) \<times> 's" where
  "S3_Exists ops c ctx key s =
     (case getClient c of
        None \<Rightarrow> (Inl not_started, s)
      | Some client \<Rightarrow>
          (case head_object ops client ctx (s3_bucket c) key s of
             (Some err, s1) \<Rightarrow>
               (if isNotFoundError ops err then Inr False
                else Inl (Errorf [Lit ''s3: exists '', PQ key, Lit '': '', PW err]), s1)
           | (None, s1) \<Rightarrow> (Inr True, s1)))"

definition S3_PresignedURL :: "'s aws_ops \<Rightarrow> s3_client \<Rightarrow> ctx \<Rightarrow> string \<Rightarrow> int \<Rightarrow> 's \<Rightarrow> (goerr + string) \<times> 's" where
  "S3_PresignedURL ops c ctx key expires s =
     (case getClient c of
        None \<Rightarrow> (Inl not_started, s)
      | Some client \<Rightarrow>
          apfst (map_sum (\<lambda>err. Errorf [Lit ''s3: presign '', PQ key, Lit '': '', PW err]) id)
            (presign_get ops client ctx (s3_bucket c) key expires s))"

section \<open>The component contract\<close>

interpretation s3_lc: lifecycle "S3_Start ops ctx" S3_Stop "\<lambda>st. s3_started (fst st)" for ops ctx
proof
  show "s3_started (fst s) \<Longrightarrow> \<exists>e. S3_Start ops ctx s = (Some e, s)" for s
    by (simp add: S3_Start_def)
  show "S3_Start ops ctx s = (None, t) \<Longrightarrow> s3_started (fst t)" for s t
    by (auto simp: S3_Start_def Let_def split: if_splits prod.splits sum.splits option.splits)
  show "S3_Start ops ctx s = (Some e, t) \<Longrightarrow> s3_started (fst t) = s3_started (fst s)" for s e t
    by (auto simp: S3_Start_def Let_def split: if_splits prod.splits sum.splits option.splits)
  show "\<not> s3_started (fst s) \<Longrightarrow> S3_Stop s = (None, s)" for s :: "s3_client \<times> 'a"
    by (simp add: S3_Stop_def)
  show "S3_Stop s = (r, t) \<Longrightarrow> \<not> s3_started (fst t)" for s :: "s3_client \<times> 'a" and r t
    by (auto simp: S3_Stop_def split: if_splits)
qed

text \<open>The client is there exactly while the component is started.\<close>

definition s3_inv :: "s3_client \<Rightarrow> bool" where
  "s3_inv c \<longleftrightarrow> (s3_started c \<longleftrightarrow> s3_s3Client c \<noteq> None)"

lemma s3_inv_New: "S3_New opts = Inr c \<Longrightarrow> s3_inv c \<and> \<not> s3_started c"
proof -
  let ?zero = "\<lparr>s3_endpoint = [], s3_region = ''us-east-1'', s3_accessKey = [], s3_secretKey = [], s3_bucket = [],
    s3_useSSL = False, s3_logger = 0, s3_s3Client = None, s3_started = False\<rparr>"
  have "s3_started (fold apply_s3_option opts x) = s3_started x \<and> s3_s3Client (fold apply_s3_option opts x) = s3_s3Client x" for x
  proof (induction opts arbitrary: x)
    case (Cons o' opts)
    then show ?case by (cases o') simp_all
  qed simp
  from this[of ?zero] show "S3_New opts = Inr c \<Longrightarrow> s3_inv c \<and> \<not> s3_started c"
    by (auto simp: S3_New_def Let_def s3_inv_def split: if_splits)
qed

lemma s3_inv_Start: "s3_inv c \<Longrightarrow> S3_Start ops ctx (c, s) = (r, (c', t)) \<Longrightarrow> s3_inv c'"
  by (auto simp: S3_Start_def Let_def s3_inv_def split: if_splits prod.splits sum.splits option.splits)

lemma s3_inv_Stop: "s3_inv c \<Longrightarrow> S3_Stop (c, s) = (r, (c', t)) \<Longrightarrow> s3_inv c'"
  by (auto simp: S3_Stop_def s3_inv_def split: if_splits)

section \<open>An object store\<close>

text \<open>
  S3 as its documentation describes it. \<open>objects s b\<close> is the content of bucket \<open>b\<close> in the world \<open>s\<close>; reads see the
  last write and change nothing. Any call may fail: the context is cancelled, the network is down, the credentials do
  not suffice (\<open>AccessDenied\<close>). A write that failed may or may not have taken effect. One of the three not-found codes
  is reported only for a key that is not there; a key that is not there may also be reported as \<open>AccessDenied\<close>.
  \<open>up ctx b k s\<close>: the service can be reached and permits calls for the key, also the listing that lets it report missing keys;
  then writes succeed, deleting a missing key too, and a read fails only for a missing key, with code
  \<open>NoSuchKey\<close> (\<open>GetObject\<close>) or \<open>NotFound\<close> (\<open>HeadObject\<close>). The SDK does not make this package's \<open>ErrNotFound\<close>.
\<close>

type_synonym store = "string \<Rightarrow> string \<Rightarrow> string option"

definition store_set :: "store \<Rightarrow> string \<Rightarrow> string \<Rightarrow> string option \<Rightarrow> store" where
  "store_set m b k v = m(b := (m b)(k := v))"

definition written :: "goerr option \<Rightarrow> bool \<Rightarrow> store \<Rightarrow> store \<Rightarrow> store \<Rightarrow> bool" where
  "written r available old new m \<longleftrightarrow>
     (case r of None \<Rightarrow> m = new | Some e \<Rightarrow> (m = old \<or> m = new) \<and> \<not> available)"

definition missing_codes :: "string set" where
  "missing_codes = {''NoSuchKey'', ''NotFound'', ''404''}"

definition reports_missing :: "'s aws_ops \<Rightarrow> goerr \<Rightarrow> bool" where
  "reports_missing ops e \<longleftrightarrow> (\<exists>code \<in> missing_codes. api_code ops e = Some code)"

definition s3_laws :: "'s aws_ops \<Rightarrow> ('s \<Rightarrow> store) \<Rightarrow> (ctx \<Rightarrow> string \<Rightarrow> string \<Rightarrow> 's \<Rightarrow> bool) \<Rightarrow> bool" where
  "s3_laws ops objects up \<longleftrightarrow>
     (\<forall>h ctx i s r s1. put_object ops h ctx i s = (r, s1) \<longrightarrow>
        written r (up ctx (pi_Bucket i) (pi_Key i) s) (objects s) (store_set (objects s) (pi_Bucket i) (pi_Key i) (Some (pi_Body i))) (objects s1)) \<and>
     (\<forall>h ctx b k s r s1. delete_object ops h ctx b k s = (r, s1) \<longrightarrow>
        written r (up ctx b k s) (objects s) (store_set (objects s) b k None) (objects s1)) \<and>
     (\<forall>h ctx b k s r s1. get_object ops h ctx b k s = (r, s1) \<longrightarrow> objects s1 = objects s \<and>
        (case r of
           Inr v \<Rightarrow> objects s b k = Some v
         | Inl e \<Rightarrow> (reports_missing ops e \<longrightarrow> objects s b k = None) \<and> \<not> errors_Is e ErrNotFound \<and>
             (up ctx b k s \<longrightarrow> api_code ops e = Some ''NoSuchKey''))) \<and>
     (\<forall>h ctx b k s r s1. head_object ops h ctx b k s = (r, s1) \<longrightarrow> objects s1 = objects s \<and>
        (case r of
           None \<Rightarrow> objects s b k \<noteq> None
         | Some e \<Rightarrow> (reports_missing ops e \<longrightarrow> objects s b k = None) \<and> \<not> errors_Is e ErrNotFound \<and>
             (up ctx b k s \<longrightarrow> api_code ops e = Some ''NotFound'')))"

lemma s3_laws_put:
  assumes "s3_laws ops objects up" and "put_object ops h ctx i s = (r, s1)"
  shows "written r (up ctx (pi_Bucket i) (pi_Key i) s) (objects s) (store_set (objects s) (pi_Bucket i) (pi_Key i) (Some (pi_Body i))) (objects s1)"
  using assms(1)[unfolded s3_laws_def, THEN conjunct1] assms(2) by blast

lemma s3_laws_delete:
  assumes "s3_laws ops objects up" and "delete_object ops h ctx b k s = (r, s1)"
  shows "written r (up ctx b k s) (objects s) (store_set (objects s) b k None) (objects s1)"
  using assms(1)[unfolded s3_laws_def, THEN conjunct2, THEN conjunct1] assms(2) by blast

lemma s3_laws_get:
  assumes "s3_laws ops objects up" and "get_object ops h ctx b k s = (r, s1)"
  shows "objects s1 = objects s \<and>
    (case r of
       Inr v \<Rightarrow> objects s b k = Some v
     | Inl e \<Rightarrow> (reports_missing ops e \<longrightarrow> objects s b k = None) \<and> \<not> errors_Is e ErrNotFound \<and>
         (up ctx b k s \<longrightarrow> api_code ops e = Some ''NoSuchKey''))"
  using assms(1)[unfolded s3_laws_def, THEN conjunct2, THEN conjunct2, THEN conjunct1] assms(2) by blast

lemma s3_laws_head:
  assumes "s3_laws ops objects up" and "head_object ops h ctx b k s = (r, s1)"
  shows "objects s1 = objects s \<and>
    (case r of
       None \<Rightarrow> objects s b k \<noteq> None
     | Some e \<Rightarrow> (reports_missing ops e \<longrightarrow> objects s b k = None) \<and> \<not> errors_Is e ErrNotFound \<and>
         (up ctx b k s \<longrightarrow> api_code ops e = Some ''NotFound''))"
  using assms(1)[unfolded s3_laws_def, THEN conjunct2, THEN conjunct2, THEN conjunct2] assms(2) by blast

lemma isNotFoundError_iff: "isNotFoundError ops e \<longleftrightarrow> reports_missing ops e"
  by (auto simp: isNotFoundError_def reports_missing_def missing_codes_def split: option.splits)

lemma wrapped_only: "errors_Is (Errorf [Lit a, PQ k, Lit b, PW e]) t \<longleftrightarrow> t = Errorf [Lit a, PQ k, Lit b, PW e] \<or> errors_Is e t"
  by (auto simp: errors_Is_def)

lemma sentinel_not_formatted: "ErrNotFound \<noteq> Errorf ps" "e \<noteq> Errorf [Lit a, PQ k, Lit b, PW e]"
proof -
  show "ErrNotFound \<noteq> Errorf ps" by (simp add: ErrNotFound_def)
  show "e \<noteq> Errorf [Lit a, PQ k, Lit b, PW e]"
  proof
    assume "e = Errorf [Lit a, PQ k, Lit b, PW e]"
    then have "size e = size (Errorf [Lit a, PQ k, Lit b, PW e])" by simp
    then show False by simp
  qed
qed

section \<open>Reads and writes\<close>

lemma S3_Upload_writes:
  assumes "s3_laws ops objects up" and "s3_s3Client c = Some h" and "S3_Upload ops c ctx k v opts s = (r, s1)"
  shows "written r (up ctx (s3_bucket c) k s) (objects s) (store_set (objects s) (s3_bucket c) k (Some v)) (objects s1)"
proof -
  let ?ct = "upload_content_type opts"
  let ?i = "\<lparr>pi_Bucket = s3_bucket c, pi_Key = k, pi_Body = v, pi_ContentType = if ?ct \<noteq> [] then Some ?ct else None\<rparr>"
  obtain r0 where "put_object ops h ctx ?i s = (r0, s1)" and "r = map_option (\<lambda>err. Errorf [Lit ''s3: upload '', PQ k, Lit '': '', PW err]) r0"
    using assms(2,3) by (cases "put_object ops h ctx ?i s") (auto simp: S3_Upload_def getClient_def Let_def)
  with s3_laws_put[OF assms(1) this(1)] show ?thesis by (auto simp: written_def split: option.splits)
qed

lemma S3_Delete_writes:
  assumes "s3_laws ops objects up" and "s3_s3Client c = Some h" and "S3_Delete ops c ctx k s = (r, s1)"
  shows "written r (up ctx (s3_bucket c) k s) (objects s) (store_set (objects s) (s3_bucket c) k None) (objects s1)"
proof -
  obtain r0 where "delete_object ops h ctx (s3_bucket c) k s = (r0, s1)"
    and "r = map_option (\<lambda>err. Errorf [Lit ''s3: delete '', PQ k, Lit '': '', PW err]) r0"
    using assms(2,3) by (cases "delete_object ops h ctx (s3_bucket c) k s") (auto simp: S3_Delete_def getClient_def)
  with s3_laws_delete[OF assms(1) this(1)] show ?thesis by (auto simp: written_def split: option.splits)
qed

lemma S3_Exists_reads:
  assumes "s3_laws ops objects up" and "s3_s3Client c = Some h" and "S3_Exists ops c ctx k s = (r, s1)"
  shows "objects s1 = objects s \<and>
    (case r of
       Inr found \<Rightarrow> found = (k \<in> dom (objects s (s3_bucket c)))
     | Inl e \<Rightarrow> \<not> up ctx (s3_bucket c) k s \<and> (\<exists>e0. head_object ops h ctx (s3_bucket c) k s = (Some e0, s1) \<and>
         \<not> reports_missing ops e0 \<and> errors_Is e e0))"
proof -
  obtain r0 where h: "head_object ops h ctx (s3_bucket c) k s = (r0, s1)"
    and r: "r = (case r0 of None \<Rightarrow> Inr True | Some err \<Rightarrow> if reports_missing ops err then Inr False
       else Inl (Errorf [Lit ''s3: exists '', PQ k, Lit '': '', PW err]))"
    using assms(2,3) by (auto simp: S3_Exists_def getClient_def isNotFoundError_iff split: prod.splits option.splits if_splits)
  from s3_laws_head[OF assms(1) h] show ?thesis
    by (auto simp: h r wrapped_only dom_def reports_missing_def missing_codes_def split: option.splits)
qed

lemma S3_Download_reads:
  assumes "s3_laws ops objects up" and "s3_s3Client c = Some h" and "S3_Download ops c ctx k s = (r, s1)"
  shows "objects s1 = objects s \<and>
    (case r of
       Inr v \<Rightarrow> objects s (s3_bucket c) k = Some v
     | Inl e \<Rightarrow> if errors_Is e ErrNotFound then objects s (s3_bucket c) k = None
         else \<not> up ctx (s3_bucket c) k s \<and> (\<exists>e0. get_object ops h ctx (s3_bucket c) k s = (Inl e0, s1) \<and>
           \<not> reports_missing ops e0 \<and> errors_Is e e0))"
proof -
  obtain r0 where g: "get_object ops h ctx (s3_bucket c) k s = (r0, s1)"
    and r: "r = (case r0 of Inr v \<Rightarrow> Inr v | Inl err \<Rightarrow> Inl (Errorf [Lit ''s3: download '', PQ k, Lit '': '',
       PW (if reports_missing ops err then ErrNotFound else err)]))"
    using assms(2,3) by (auto simp: S3_Download_def getClient_def isNotFoundError_iff split: prod.splits sum.splits)
  from s3_laws_get[OF assms(1) g] show ?thesis
    by (auto simp: g r wrapped_only sentinel_not_formatted reports_missing_def missing_codes_def split: sum.splits)
qed

section \<open>Properties\<close>

text \<open>C14: A started client is a map of keys to contents, with failures. \<open>Upload\<close> and \<open>Delete\<close> that return nil have
  stored or removed the object of that key and touched nothing else; when they return an error the object is the old or
  the new one. \<open>Exists\<close> answers \<open>true\<close> only for a key that is there and \<open>false\<close> only for one that is not; \<open>Download\<close>
  returns the object's content, and an error that \<open>errors.Is\<close> recognises as \<open>ErrNotFound\<close> only for a key that is not
  there. Every other failure of the SDK (a refused access, a cancelled context) is returned as an error with the SDK's
  in its chain, never as \<open>false\<close> or \<open>ErrNotFound\<close>. Where the service is up, no call fails except \<open>Download\<close> of a
  missing key, with \<open>ErrNotFound\<close>. A client that is not started fails every call and does nothing.\<close>

theorem S3_refines_map:
  assumes "s3_laws ops objects up"
  shows "case (S3_Upload ops c ctx k v opts s, S3_Delete ops c ctx k s, S3_Exists ops c ctx k s, S3_Download ops c ctx k s) of
    ((ru, s1), (rd, s2), (re, s3), (rg, s4)) \<Rightarrow>
      (case s3_s3Client c of
         None \<Rightarrow> ru = Some not_started \<and> s1 = s \<and> rd = Some not_started \<and> s2 = s \<and>
           re = Inl not_started \<and> s3 = s \<and> rg = Inl not_started \<and> s4 = s
       | Some h \<Rightarrow>
           written ru (up ctx (s3_bucket c) k s) (objects s) (store_set (objects s) (s3_bucket c) k (Some v)) (objects s1) \<and>
           written rd (up ctx (s3_bucket c) k s) (objects s) (store_set (objects s) (s3_bucket c) k None) (objects s2) \<and>
           objects s3 = objects s \<and>
           (case re of
              Inr found \<Rightarrow> found = (k \<in> dom (objects s (s3_bucket c)))
            | Inl e \<Rightarrow> \<not> up ctx (s3_bucket c) k s \<and> (\<exists>e0. head_object ops h ctx (s3_bucket c) k s = (Some e0, s3) \<and>
                \<not> reports_missing ops e0 \<and> errors_Is e e0)) \<and>
           objects s4 = objects s \<and>
           (case rg of
              Inr v \<Rightarrow> objects s (s3_bucket c) k = Some v
            | Inl e \<Rightarrow> if errors_Is e ErrNotFound then objects s (s3_bucket c) k = None
                else \<not> up ctx (s3_bucket c) k s \<and> (\<exists>e0. get_object ops h ctx (s3_bucket c) k s = (Inl e0, s4) \<and>
                  \<not> reports_missing ops e0 \<and> errors_Is e e0)))"
proof (cases "s3_s3Client c")
  case None
  then show ?thesis by (simp add: S3_Upload_def S3_Delete_def S3_Exists_def S3_Download_def getClient_def)
next
  case (Some h)
  obtain ru s1 rd s2 re s3 rg s4 where res: "S3_Upload ops c ctx k v opts s = (ru, s1)" "S3_Delete ops c ctx k s = (rd, s2)"
    "S3_Exists ops c ctx k s = (re, s3)" "S3_Download ops c ctx k s = (rg, s4)" by (metis surj_pair)
  show ?thesis unfolding res Some prod.case option.case
    using S3_Upload_writes[OF assms Some res(1)] S3_Delete_writes[OF assms Some res(2)] S3_Exists_reads[OF assms Some res(3)]
      S3_Download_reads[OF assms Some res(4)] by blast
qed

text \<open>A store in which the world is the content of the buckets. A call with a cancelled context fails, and keys that
  start with a hash sign may be written, not read.\<close>

definition AccessDenied :: goerr where
  "AccessDenied = ErrExt ''AccessDenied'' []"

definition demo_s3 :: "store aws_ops" where
  "demo_s3 =
     \<lparr>load_config = (\<lambda>ctx r a k s. (Inr 0, s)), new_from_config = (\<lambda>n o'. 2), head_bucket = (\<lambda>h ctx b s. (None, s)),
      put_object = (\<lambda>h ctx i s.
        if ctx \<noteq> Background then (Some (ErrExt ''canceled'' []), s)
        else (None, store_set s (pi_Bucket i) (pi_Key i) (Some (pi_Body i)))),
      get_object = (\<lambda>h ctx b k s.
        (if ctx \<noteq> Background then Inl (ErrExt ''canceled'' []) else if HasPrefix k ''#'' then Inl AccessDenied
         else case s b k of Some v \<Rightarrow> Inr v | None \<Rightarrow> Inl (ErrExt ''NoSuchKey'' []), s)),
      delete_object = (\<lambda>h ctx b k s. if ctx \<noteq> Background then (Some (ErrExt ''canceled'' []), s) else (None, store_set s b k None)),
      head_object = (\<lambda>h ctx b k s.
        (if ctx \<noteq> Background then Some (ErrExt ''canceled'' []) else if HasPrefix k ''#'' then Some AccessDenied
         else case s b k of Some v \<Rightarrow> None | None \<Rightarrow> Some (ErrExt ''NotFound'' []), s)),
      presign_get = (\<lambda>h ctx b k d s. (Inr k, s)),
      api_code = (\<lambda>e. case e of ErrExt t [] \<Rightarrow> if t = ''canceled'' then None else Some t | _ \<Rightarrow> None)\<rparr>"

lemma demo_s3_laws: "s3_laws demo_s3 (\<lambda>s. s) (\<lambda>ctx b k s. ctx = Background \<and> \<not> HasPrefix k ''#'')"
  unfolding s3_laws_def
  by (auto simp: demo_s3_def written_def reports_missing_def missing_codes_def AccessDenied_def ErrNotFound_def errors_Is_def
      split: if_splits option.splits sum.splits)

text \<open>On a started client: an object that may not be read is not reported as missing; one that may be is read back.\<close>

theorem S3_refines_map_witness:
  "\<exists>c c1 e s1. S3_New [WithBucket ''b''] = Inr c \<and>
     S3_Start demo_s3 Background (c, store_set (\<lambda>_ _. None) ''b'' ''#secret'' (Some ''x'')) = (None, c1, s1) \<and>
     S3_Exists demo_s3 c1 Background ''#secret'' s1 = (Inl e, s1) \<and> errors_Is e AccessDenied \<and>
     (case S3_Upload demo_s3 c1 Background ''cat.jpg'' ''data'' [] s1 of
        (r, s2) \<Rightarrow> r = None \<and> s2 ''b'' ''cat.jpg'' = Some ''data'' \<and> s2 ''b'' ''#secret'' = Some ''x'')"
proof -
  obtain c where c: "S3_New [WithBucket ''b''] = Inr c" "s3_bucket c = ''b''" "\<not> s3_started c" by (simp add: S3_New_def)
  define c1 where "c1 = c\<lparr>s3_s3Client := Some 2, s3_started := True\<rparr>"
  define s where "s = store_set (\<lambda>_ _. None) ''b'' ''#secret'' (Some ''x'')"
  have c1: "s3_s3Client c1 = Some 2" "s3_bucket c1 = ''b''" using c(2) by (simp_all add: c1_def)
  have st: "S3_Start demo_s3 Background (c, s) = (None, c1, s)" using c(3) by (simp add: S3_Start_def demo_s3_def Let_def c1_def)
  define e where "e = Errorf [Lit ''s3: exists '', PQ ''#secret'', Lit '': '', PW AccessDenied]"
  have ex: "S3_Exists demo_s3 c1 Background ''#secret'' s = (Inl e, s)"
    by (simp add: S3_Exists_def getClient_def c1 demo_s3_def isNotFoundError_def AccessDenied_def HasPrefix_def e_def)
  have head: "head_object demo_s3 2 Background ''b'' ''#secret'' s = (Some AccessDenied, s)"
    by (simp add: demo_s3_def HasPrefix_def)
  obtain r2 s2 where up: "S3_Upload demo_s3 c1 Background ''cat.jpg'' ''data'' [] s = (r2, s2)" by (metis surj_pair)
  have "errors_Is e AccessDenied"
    using S3_refines_map[OF demo_s3_laws, where c = c1 and ctx = Background and k = "''#secret''" and v = "[]" and opts = "[]" and s = s] ex head c1 by (auto split: prod.splits)
  moreover have "written r2 True s (store_set s ''b'' ''cat.jpg'' (Some ''data'')) s2"
    using S3_refines_map[OF demo_s3_laws, where c = c1 and ctx = Background and k = "''cat.jpg''" and v = "''data''" and opts = "[]" and s = s] up c1
    by (auto simp: HasPrefix_def split: prod.splits)
  then have "r2 = None" "s2 ''b'' ''cat.jpg'' = Some ''data''" "s2 ''b'' ''#secret'' = Some ''x''"
    by (auto simp: written_def store_set_def s_def split: option.splits)
  ultimately show ?thesis using c(1) st ex up unfolding s_def[symmetric] by auto
qed

end
