(* ===== verification/Service.thy ===== *)
theory Service
  imports App Kafka_Consumer Resources S3
begin

text \<open>
  Composition: the platform's components under \<open>App.Run\<close>.

  The locale \<open>managed_components\<close> states what the orchestrator relies on: which component runs is
  changed only by that component's own \<open>Start\<close> and \<open>Stop\<close>, a failed \<open>Start\<close> leaves nothing running
  behind, and \<open>Stop\<close> stops. Its lemmas follow a run of \<open>App.Run\<close>. The locale \<open>preserving\<close> follows a property of
  the state that every callback keeps. Both are interpreted on a service that
  has one of each connection component, on libraries that record what is opened and closed; plugins, hooks and
  further components are the caller's and act on the outside world and the \<open>App\<close>.
\<close>

section \<open>The interface\<close>


section \<open>Properties every callback keeps\<close>


section \<open>A service\<close>

text \<open>
  One component of each kind, with what they share: handlers of the loggers and the outside world, which has the
  record of the handles acquired and released.
\<close>

record 'w platform =
  pl_producer :: "'w producer"
  pl_publisher :: "'w nats_publisher"
  pl_subscriber :: "'w subscriber"
  pl_workflow :: wf_state
  pl_redis :: redis_client
  pl_db :: db
  pl_s3 :: s3_client
  pl_observer :: observer
  pl_heap :: heap
  pl_world :: 'w


datatype slot =
    ProducerSlot | PublisherSlot | SubscriberSlot | ClientSlot | WorkerSlot | RedisSlot | DBSlot | S3Slot | ObserverSlot



fun slot_runs :: "slot \<Rightarrow> 'w platform \<Rightarrow> bool" where
  "slot_runs ProducerSlot p \<longleftrightarrow> pr_writer (pl_producer p) \<noteq> None"
| "slot_runs PublisherSlot p \<longleftrightarrow> np_conn (pl_publisher p) \<noteq> None"
| "slot_runs SubscriberSlot p \<longleftrightarrow> ns_conn (pl_subscriber p) \<noteq> None"
| "slot_runs ClientSlot p \<longleftrightarrow> wc_temporalClient (wf_cl (pl_workflow p)) \<noteq> None"
| "slot_runs WorkerSlot p \<longleftrightarrow> ww_temporalWorker (wf_wk (pl_workflow p)) \<noteq> None"
| "slot_runs RedisSlot p \<longleftrightarrow> rc_rdb (pl_redis p) \<noteq> None"
| "slot_runs DBSlot p \<longleftrightarrow> db_pool (pl_db p) \<noteq> None"
| "slot_runs S3Slot p \<longleftrightarrow> s3_started (pl_s3 p)"
| "slot_runs ObserverSlot p \<longleftrightarrow> ob_started (pl_observer p)"










text \<open>The components are registered under the numbers 0 to 8; others are the caller's.\<close>

definition slots :: "slot list" where
  "slots = [ProducerSlot, PublisherSlot, SubscriberSlot, ClientSlot, WorkerSlot, RedisSlot, DBSlot, S3Slot, ObserverSlot]"



text \<open>What the caller's callbacks do: change the outside world, not the record, and the \<open>App\<close>.\<close>

definition set_world :: "'w \<Rightarrow> 'w logged platform \<Rightarrow> 'w logged platform" where
  "set_world w p = p\<lparr>pl_world := (w, snd (pl_world p))\<rparr>"

definition on_world :: "('w \<times> app) fallible \<Rightarrow> ('w logged platform \<times> app) fallible" where
  "on_world f st = (case f (fst (pl_world (fst st)), snd st) of (r, w, a) \<Rightarrow> (r, set_world w (fst st), a))"

definition on_world0 :: "('w \<times> app \<Rightarrow> 'w \<times> app) \<Rightarrow> 'w logged platform \<times> app \<Rightarrow> 'w logged platform \<times> app" where
  "on_world0 f st = (case f (fst (pl_world (fst st)), snd st) of (w, a) \<Rightarrow> (set_world w (fst st), a))"



lemma slot_runs_world [simp]: "slot_runs sl (set_world w p) = slot_runs sl p"
  by (cases sl) (simp_all add: set_world_def)





section \<open>The books of the service\<close>

text \<open>The handles in the fields of a component, and in all of them; S3 has none.\<close>

fun slot_held :: "slot \<Rightarrow> 'w platform \<Rightarrow> handle multiset" where
  "slot_held ProducerSlot p = held_in WriterH (pr_writer (pl_producer p))"
| "slot_held PublisherSlot p = held_in PublisherH (np_conn (pl_publisher p))"
| "slot_held SubscriberSlot p = held_in SubscriberH (ns_conn (pl_subscriber p))"
| "slot_held ClientSlot p = held_in ClientH (wc_temporalClient (wf_cl (pl_workflow p)))"
| "slot_held WorkerSlot p = held_in WorkerH (ww_temporalWorker (wf_wk (pl_workflow p)))"
| "slot_held RedisSlot p = held_in RedisH (rc_rdb (pl_redis p))"
| "slot_held DBSlot p = held_in PoolH (db_pool (pl_db p))"
| "slot_held S3Slot p = {#}"
| "slot_held ObserverSlot p = observer_held (pl_observer p)"

definition all_held :: "'w platform \<Rightarrow> handle multiset" where
  "all_held p = sum_list (map (\<lambda>sl. slot_held sl p) slots)"

abbreviation the_log :: "'w logged platform \<Rightarrow> call_log" where
  "the_log p \<equiv> snd (pl_world p)"

definition books :: "'w logged platform \<Rightarrow> bool" where
  "books p \<longleftrightarrow> audit (the_log p) = Some (all_held p) \<and> only_workers (abandoned (the_log p))"















lemma slot_held_world [simp]: "slot_held sl (set_world w p) = slot_held sl p"
  by (cases sl) (simp_all add: set_world_def)

lemma books_world [simp]: "books (set_world w p) = books p"
proof -
  have "all_held (set_world w p) = all_held p" by (simp add: all_held_def)
  moreover have "the_log (set_world w p) = the_log p" by (simp add: set_world_def)
  ultimately show ?thesis by (simp only: books_def)
qed

lemma books_on_world [simp]: "books (fst (snd (on_world f st))) = books (fst st)" "books (fst (on_world0 g st)) = books (fst st)"
  by (simp_all add: on_world_def on_world0_def split: prod.split)









section \<open>Properties\<close>



end
