(* ===== verification/MemBroker.thy ===== *)
theory MemBroker
  imports Broker
begin

text \<open>
  The in-memory broker, \<open>src/pkg/broker/membroker/membroker.go\<close>.

  Handlers, hooks and middleware are function values; the model refers to them by number and
  takes their behaviour from an environment, because they act on the broker too: a handler may
  subscribe or publish while a message is being delivered. The lock protects single reads and
  writes of the broker's fields, so each operation is one step.
\<close>

record membroker =
  handlers :: "string \<Rightarrow> nat list"     \<comment> \<open>an absent topic reads as the empty slice\<close>
  hooks :: "nat list"
  middlewares :: "nat list"

record 's broker_env =
  run_handler :: "nat \<Rightarrow> (membroker \<times> 's) handler"
  run_hook :: "nat \<Rightarrow> (membroker \<times> 's) publish_hook"
  run_middleware :: "nat \<Rightarrow> (membroker \<times> 's) middleware"

definition MemBroker_New :: membroker where
  "MemBroker_New = \<lparr>handlers = (\<lambda>_. []), hooks = [], middlewares = []\<rparr>"

definition MemBroker_Publish :: "'s broker_env \<Rightarrow> ctx \<Rightarrow> message \<Rightarrow> (membroker \<times> 's) fallible" where
  "MemBroker_Publish env ctx msg st =
     (let b = fst st;
          hks = hooks b;
          mws = middlewares b;
          hdls = handlers b (m_topic msg)
      in case run_hooks (map (run_hook env) hks) ctx (msg, st) of
           (Some err, (msg', st')) \<Rightarrow> (Some err, st')
         | (None, (msg', st')) \<Rightarrow>
             run_until (\<lambda>h. applyMiddleware (run_handler env h) (map (run_middleware env) mws) ctx msg')
               hdls st')"

fun MemBroker_PublishBatch :: "'s broker_env \<Rightarrow> ctx \<Rightarrow> message list \<Rightarrow> (membroker \<times> 's) fallible" where
  "MemBroker_PublishBatch env ctx [] st = (None, st)"
| "MemBroker_PublishBatch env ctx (msg # msgs) st =
     (case MemBroker_Publish env ctx msg st of
        (Some err, st') \<Rightarrow> (Some err, st')
      | (None, st') \<Rightarrow> MemBroker_PublishBatch env ctx msgs st')"

definition MemBroker_Subscribe :: "string \<Rightarrow> nat \<Rightarrow> membroker fallible" where
  "MemBroker_Subscribe topic h b =
     (None, b\<lparr>handlers := (handlers b)(topic := handlers b topic @ [h])\<rparr>)"

definition MemBroker_WithPublishHook :: "nat \<Rightarrow> membroker \<Rightarrow> membroker" where
  "MemBroker_WithPublishHook hook b = b\<lparr>hooks := hooks b @ [hook]\<rparr>"

definition MemBroker_WithMiddleware :: "nat list \<Rightarrow> membroker \<Rightarrow> membroker" where
  "MemBroker_WithMiddleware mws b = b\<lparr>middlewares := middlewares b @ mws\<rparr>"

interpretation mem_pub: publisher "MemBroker_Publish env" "MemBroker_PublishBatch env" for env
  by unfold_locales simp_all

section \<open>Delivery\<close>

text \<open>
  For the delivery theorem, handlers that log what they receive and return a given result;
  \<open>delivered\<close> is the log a delivery to \<open>hs\<close> leaves: every handler up to and including the first
  that fails.
\<close>

fun delivered :: "(nat \<Rightarrow> goerr option) \<Rightarrow> nat list \<Rightarrow> nat list" where
  "delivered res [] = []"
| "delivered res (h # hs) = h # (if res h = None then delivered res hs else [])"

fun first_error :: "(nat \<Rightarrow> goerr option) \<Rightarrow> nat list \<Rightarrow> goerr option" where
  "first_error res [] = None"
| "first_error res (h # hs) = (case res h of None \<Rightarrow> first_error res hs | Some e \<Rightarrow> Some e)"

lemma first_error_None: "first_error res hs = None \<longleftrightarrow> (\<forall>h \<in> set hs. res h = None)"
  by (induction hs) (auto split: option.splits)

lemma delivered_all: "\<forall>h \<in> set hs. res h = None \<Longrightarrow> delivered res hs = hs"
  by (induction hs) simp_all

lemma run_until_logging:
  assumes "\<And>h b log. f h (b, log) = (res h, (b, log @ [(h, m)]))"
  shows "run_until f hs (b, log) = (first_error res hs, (b, log @ map (\<lambda>h. (h, m)) (delivered res hs)))"
  by (induction hs arbitrary: log) (simp_all add: assms split: option.splits)

section \<open>Properties\<close>

text \<open>C24: If each handler, wrapped in the registered middleware, logs what it receives, then
  \<open>Publish\<close> delivers to the handlers that were subscribed to the message's topic when it was
  called, in subscription order, each once and each with the message as the hooks left it; it
  stops at the first handler that fails and returns that handler's error. The topic a hook may
  have written does not change who receives the message.\<close>

theorem MemBroker_Publish_delivers:
  assumes hooks_ok: "run_hooks (map (run_hook env) (hooks b)) ctx (msg, (b, log)) = (None, (msg', (b', log')))"
    and logging: "\<And>h x l. applyMiddleware (run_handler env h) (map (run_middleware env) (middlewares b))
      ctx msg' (x, l) = (res h, (x, l @ [(h, msg')]))"
  shows "MemBroker_Publish env ctx msg (b, log) =
    (first_error res (handlers b (m_topic msg)),
     (b', log' @ map (\<lambda>h. (h, msg')) (delivered res (handlers b (m_topic msg)))))"
  using run_until_logging[of "\<lambda>h. applyMiddleware (run_handler env h)
      (map (run_middleware env) (middlewares b)) ctx msg'" res msg', OF logging]
  by (simp add: MemBroker_Publish_def Let_def hooks_ok)

definition log_env :: "(nat \<times> message) list broker_env" where
  "log_env = \<lparr>run_handler = (\<lambda>h ctx m st. (if h = 2 then Some (ErrNew ''bad'') else None,
       (fst st, snd st @ [(h, m)]))),
     run_hook = (\<lambda>k ctx st. (None, ((fst st)\<lparr>m_topic := ''elsewhere''\<rparr>, snd st))),
     run_middleware = (\<lambda>k h. h)\<rparr>"

definition demo_broker :: membroker where
  "demo_broker = MemBroker_WithPublishHook 0 (snd (MemBroker_Subscribe ''t'' 3
     (snd (MemBroker_Subscribe ''t'' 2 (snd (MemBroker_Subscribe ''t'' 1 MemBroker_New))))))"

definition demo_msg :: message where
  "demo_msg = \<lparr>m_topic = ''t'', m_key = [], m_value = ''v'', m_headers = [], m_partition = 0, m_offset = 0\<rparr>"

theorem MemBroker_Publish_delivers_witness:
  "MemBroker_Publish log_env Background demo_msg (demo_broker, []) =
     (Some (ErrNew ''bad''), (demo_broker,
       map (\<lambda>h. (h, demo_msg\<lparr>m_topic := ''elsewhere''\<rparr>)) [1, 2]))"
proof -
  let ?res = "\<lambda>h. if h = 2 then Some (ErrNew ''bad'') else None"
  have "MemBroker_Publish log_env Background demo_msg (demo_broker, []) =
    (first_error ?res (handlers demo_broker (m_topic demo_msg)), (demo_broker,
      [] @ map (\<lambda>h. (h, demo_msg\<lparr>m_topic := ''elsewhere''\<rparr>)) (delivered ?res (handlers demo_broker (m_topic demo_msg)))))"
    by (rule MemBroker_Publish_delivers)
      (simp_all add: log_env_def demo_broker_def MemBroker_WithPublishHook_def MemBroker_Subscribe_def
        MemBroker_New_def run_hooks_def)
  then show ?thesis
    by (simp add: demo_broker_def MemBroker_WithPublishHook_def MemBroker_Subscribe_def
        MemBroker_New_def demo_msg_def)
qed

text \<open>\<open>PublishBatch\<close> of the in-memory broker stops at the first message that fails: the messages
  before it were published in order without error, the failing one was published last with the
  returned error, and the broker and the world are as that publish left them.\<close>

lemma MemBroker_PublishBatch_first_error:
  assumes "MemBroker_PublishBatch env ctx msgs st = (Some e, st')"
  shows "\<exists>sent m rest u. msgs = sent @ m # rest \<and> MemBroker_PublishBatch env ctx sent st = (None, u) \<and>
    MemBroker_Publish env ctx m u = (Some e, st')"
  by (rule mem_pub.batch_first_error[OF assms])

end
