(* ===== verification/Saga.thy ===== *)
theory Saga
  imports Lifecycle
begin

text \<open>
  Sagas, \<open>src/pkg/workflow/saga/saga.go\<close>: the builder, forward execution, and sequential or
  parallel compensation.

  The Temporal SDK is a parameter: \<open>schedule\<close> is \<open>workflow.ExecuteActivity\<close>, which returns a future,
  and \<open>await\<close> is the future's \<open>Get\<close>. Activities are named by numbers, a nil compensation is \<open>None\<close>.
  A trace records the activities scheduled and awaited, in order, with their results.
\<close>

section \<open>The builder\<close>

datatype activity_options =
    ActivityOptions int int          \<comment> \<open>\<open>StartToCloseTimeout\<close>, \<open>RetryPolicy.MaximumAttempts\<close>\<close>
  | CustomActivityOptions nat

datatype wctx = WorkflowContext nat | WithActivityOptions wctx activity_options

record saga_step =
  action :: nat
  compensation :: "nat option"

record saga_options =
  parallelCompensation :: bool
  continueOnError :: bool
  activityOptions :: "activity_options option"

record saga =
  saga_ctx :: wctx
  saga_steps :: "saga_step list"
  saga_opts :: saga_options

datatype saga_option =
    WithParallelCompensation
  | WithSagaActivityOptions activity_options
  | WithContinueOnCompensationError

fun apply_saga_option :: "saga_option \<Rightarrow> saga_options \<Rightarrow> saga_options" where
  "apply_saga_option WithParallelCompensation o' = o'\<lparr>parallelCompensation := True\<rparr>"
| "apply_saga_option (WithSagaActivityOptions ao) o' = o'\<lparr>activityOptions := Some ao\<rparr>"
| "apply_saga_option WithContinueOnCompensationError o' = o'\<lparr>continueOnError := True\<rparr>"

definition Saga_New :: "wctx \<Rightarrow> saga_option list \<Rightarrow> saga" where
  "Saga_New ctx opts =
     \<lparr>saga_ctx = ctx, saga_steps = [],
      saga_opts = fold apply_saga_option opts
        \<lparr>parallelCompensation = False, continueOnError = False, activityOptions = None\<rparr>\<rparr>"

definition Saga_Step :: "nat \<Rightarrow> nat option \<Rightarrow> saga \<Rightarrow> saga" where
  "Saga_Step act cmp sg = sg\<lparr>saga_steps := saga_steps sg @ [\<lparr>action = act, compensation = cmp\<rparr>]\<rparr>"

section \<open>Execution\<close>

datatype saga_event = Scheduled wctx nat | Awaited wctx nat "goerr option"

record ('i, 's) temporal =
  schedule :: "wctx \<Rightarrow> nat \<Rightarrow> 'i \<Rightarrow> 's \<Rightarrow> nat \<times> 's"
  await :: "wctx \<Rightarrow> nat \<Rightarrow> 's fallible"

text \<open>\<open>workflow.ExecuteActivity(ctx, a, input).Get(ctx, nil)\<close>\<close>

definition run_activity :: "('i, 's) temporal \<Rightarrow> wctx \<Rightarrow> 'i \<Rightarrow> nat \<Rightarrow> 's \<Rightarrow>
    goerr option \<times> saga_event list \<times> 's" where
  "run_activity tp ctx input a s =
     (case schedule tp ctx a input s of
        (f, s1) \<Rightarrow> (case await tp ctx f s1 of (r, s2) \<Rightarrow> (r, [Scheduled ctx a, Awaited ctx a r], s2)))"

definition comp_error :: "nat \<Rightarrow> goerr \<Rightarrow> goerr" where
  "comp_error i err = Errorf [Lit ''compensation '', PD (int i), Lit '': '', PW err]"

text \<open>The loop from the last completed step down; the list holds the steps with their index, reversed.\<close>

fun comp_loop :: "('i, 's) temporal \<Rightarrow> bool \<Rightarrow> wctx \<Rightarrow> 'i \<Rightarrow> (nat \<times> saga_step) list \<Rightarrow> goerr list \<Rightarrow> 's \<Rightarrow>
    goerr list \<times> saga_event list \<times> 's" where
  "comp_loop tp cont ctx input [] errs s = (errs, [], s)"
| "comp_loop tp cont ctx input ((i, st) # rest) errs s =
     (case compensation st of
        None \<Rightarrow> comp_loop tp cont ctx input rest errs s
      | Some c \<Rightarrow>
          (case run_activity tp ctx input c s of
             (None, tr, s1) \<Rightarrow>
               (case comp_loop tp cont ctx input rest errs s1 of (es, tr', s2) \<Rightarrow> (es, tr @ tr', s2))
           | (Some err, tr, s1) \<Rightarrow>
               let errs' = errs @ [comp_error i err] in
               if \<not> cont then (errs', tr, s1)
               else (case comp_loop tp cont ctx input rest errs' s1 of (es, tr', s2) \<Rightarrow> (es, tr @ tr', s2))))"

definition comp_result :: "goerr list \<Rightarrow> goerr option" where
  "comp_result errs = (if errs = [] then None else Some (Errorf [PVs errs]))"

definition compensateSequential :: "('i, 's) temporal \<Rightarrow> saga_options \<Rightarrow> wctx \<Rightarrow> saga_step list \<Rightarrow> 'i \<Rightarrow> 's \<Rightarrow>
    goerr option \<times> saga_event list \<times> 's" where
  "compensateSequential tp opts ctx completed input s =
     apfst comp_result (comp_loop tp (continueOnError opts) ctx input (rev (enumerate 0 completed)) [] s)"

text \<open>The two loops of \<open>compensateParallel\<close>: schedule everything, then await everything.\<close>

fun schedule_loop :: "('i, 's) temporal \<Rightarrow> wctx \<Rightarrow> 'i \<Rightarrow> (nat \<times> saga_step) list \<Rightarrow> 's \<Rightarrow>
    (nat \<times> nat \<times> nat) list \<times> saga_event list \<times> 's" where
  "schedule_loop tp ctx input [] s = ([], [], s)"
| "schedule_loop tp ctx input ((i, st) # rest) s =
     (case compensation st of
        None \<Rightarrow> schedule_loop tp ctx input rest s
      | Some c \<Rightarrow>
          (case schedule tp ctx c input s of
             (f, s1) \<Rightarrow>
               (case schedule_loop tp ctx input rest s1 of
                  (fs, tr, s2) \<Rightarrow> ((i, c, f) # fs, Scheduled ctx c # tr, s2))))"

fun await_loop :: "('i, 's) temporal \<Rightarrow> wctx \<Rightarrow> (nat \<times> nat \<times> nat) list \<Rightarrow> 's \<Rightarrow>
    goerr list \<times> saga_event list \<times> 's" where
  "await_loop tp ctx [] s = ([], [], s)"
| "await_loop tp ctx ((i, c, f) # fs) s =
     (case await tp ctx f s of
        (r, s1) \<Rightarrow>
          (case await_loop tp ctx fs s1 of
             (es, tr, s2) \<Rightarrow>
               (case r of None \<Rightarrow> es | Some err \<Rightarrow> comp_error i err # es, Awaited ctx c r # tr, s2)))"

definition compensateParallel :: "('i, 's) temporal \<Rightarrow> wctx \<Rightarrow> saga_step list \<Rightarrow> 'i \<Rightarrow> 's \<Rightarrow>
    goerr option \<times> saga_event list \<times> 's" where
  "compensateParallel tp ctx completed input s =
     (case schedule_loop tp ctx input (rev (enumerate 0 completed)) s of
        (fs, tr, s1) \<Rightarrow> (case await_loop tp ctx fs s1 of (es, tr', s2) \<Rightarrow> (comp_result es, tr @ tr', s2)))"

definition compensate :: "('i, 's) temporal \<Rightarrow> saga_options \<Rightarrow> wctx \<Rightarrow> saga_step list \<Rightarrow> 'i \<Rightarrow> 's \<Rightarrow>
    goerr option \<times> saga_event list \<times> 's" where
  "compensate tp opts ctx completed input s =
     (if completed = [] then (None, [], s)
      else if parallelCompensation opts then compensateParallel tp ctx completed input s
      else compensateSequential tp opts ctx completed input s)"

definition step_error :: "nat \<Rightarrow> goerr \<Rightarrow> goerr option \<Rightarrow> goerr" where
  "step_error i err compErr =
     (case compErr of
        None \<Rightarrow> Errorf [Lit ''saga: step '', PD (int i), Lit '' failed: '', PW err]
      | Some ce \<Rightarrow> Errorf [Lit ''saga: step '', PD (int i), Lit '' failed: '', PW err,
                            Lit ''; compensation error: '', PV ce])"

fun execute_loop :: "('i, 's) temporal \<Rightarrow> saga_options \<Rightarrow> wctx \<Rightarrow> 'i \<Rightarrow> nat \<Rightarrow> saga_step list \<Rightarrow>
    saga_step list \<Rightarrow> 's \<Rightarrow> goerr option \<times> saga_event list \<times> 's" where
  "execute_loop tp opts ctx input i completed [] s = (None, [], s)"
| "execute_loop tp opts ctx input i completed (st # rest) s =
     (case run_activity tp ctx input (action st) s of
        (Some err, tr, s1) \<Rightarrow>
          (case compensate tp opts ctx completed input s1 of
             (compErr, tr', s2) \<Rightarrow> (Some (step_error i err compErr), tr @ tr', s2))
      | (None, tr, s1) \<Rightarrow>
          (case execute_loop tp opts ctx input (Suc i) (completed @ [st]) rest s1 of
             (r, tr', s2) \<Rightarrow> (r, tr @ tr', s2)))"

definition activity_context :: "saga \<Rightarrow> wctx" where
  "activity_context sg =
     WithActivityOptions (saga_ctx sg)
       (case activityOptions (saga_opts sg) of None \<Rightarrow> ActivityOptions (30 * second) 1 | Some ao \<Rightarrow> ao)"

definition Execute :: "('i, 's) temporal \<Rightarrow> saga \<Rightarrow> 'i \<Rightarrow> 's \<Rightarrow> goerr option \<times> saga_event list \<times> 's" where
  "Execute tp sg input s =
     execute_loop tp (saga_opts sg) (activity_context sg) input 0 [] (saga_steps sg) s"

section \<open>The saga protocol\<close>

text \<open>An activity run to its end; the compensations of the completed steps, last step first.\<close>

definition ran :: "wctx \<Rightarrow> nat \<Rightarrow> goerr option \<Rightarrow> saga_event list" where
  "ran ctx a r = [Scheduled ctx a, Awaited ctx a r]"

definition comps_of :: "(nat \<times> saga_step) list \<Rightarrow> (nat \<times> nat) list" where
  "comps_of ists = concat (map (\<lambda>(i, st). case compensation st of None \<Rightarrow> [] | Some c \<Rightarrow> [(i, c)]) ists)"

definition comps :: "saga_step list \<Rightarrow> (nat \<times> nat) list" where
  "comps completed = comps_of (rev (enumerate 0 completed))"

definition failures :: "(nat \<times> nat) list \<Rightarrow> goerr option list \<Rightarrow> goerr list" where
  "failures ics rs = somes (map2 (\<lambda>(i, c) r. map_option (comp_error i) r) ics rs)"

text \<open>
  Sequential compensation, with the results \<open>rs\<close> of the compensations that ran: all of them, or, if
  it stops at the first error, those up to it.
\<close>

definition seq_results :: "bool \<Rightarrow> (nat \<times> nat) list \<Rightarrow> goerr option list \<Rightarrow> bool" where
  "seq_results cont ics rs \<longleftrightarrow>
     (if cont then length rs = length ics
      else (\<forall>r \<in> set (butlast rs). r = None) \<and>
           (length rs = length ics \<or> (length rs < length ics \<and> rs \<noteq> [] \<and> last rs \<noteq> None)))"

inductive compensated :: "saga_options \<Rightarrow> wctx \<Rightarrow> saga_step list \<Rightarrow> goerr list \<Rightarrow> saga_event list \<Rightarrow> bool"
  for opts ctx completed where
  sequential: "\<not> parallelCompensation opts \<Longrightarrow> ics = comps completed \<Longrightarrow>
    seq_results (continueOnError opts) ics rs \<Longrightarrow>
    compensated opts ctx completed (failures ics rs) (concat (map2 (\<lambda>(i, c) r. ran ctx c r) ics rs))"
| parallel: "parallelCompensation opts \<Longrightarrow> ics = comps completed \<Longrightarrow> length rs = length ics \<Longrightarrow>
    compensated opts ctx completed (failures ics rs)
      (map (\<lambda>(i, c). Scheduled ctx c) ics @ map2 (\<lambda>(i, c) r. Awaited ctx c r) ics rs)"

inductive saga_protocol :: "saga_options \<Rightarrow> wctx \<Rightarrow> saga_step list \<Rightarrow> goerr option \<Rightarrow> saga_event list \<Rightarrow> bool"
  for opts ctx steps where
  all_done: "saga_protocol opts ctx steps None (concat (map (\<lambda>st. ran ctx (action st) None) steps))"
| rolled_back: "steps = completed @ st # rest \<Longrightarrow> compensated opts ctx completed errs tr \<Longrightarrow>
    saga_protocol opts ctx steps (Some (step_error (length completed) err (comp_result errs)))
      (concat (map (\<lambda>st. ran ctx (action st) None) completed) @ ran ctx (action st) (Some err) @ tr)"

section \<open>The code follows the protocol\<close>

lemma run_activity_ran: "run_activity tp ctx input a s = (r, tr, t) \<Longrightarrow> tr = ran ctx a r"
  by (auto simp: run_activity_def ran_def split: prod.splits)

lemma comps_of_simps [simp]:
  "comps_of [] = []"
  "comps_of ((i, st) # ists) = (case compensation st of None \<Rightarrow> [] | Some c \<Rightarrow> [(i, c)]) @ comps_of ists"
  by (simp_all add: comps_of_def)

lemma failures_simps [simp]:
  "failures ics [] = []" "failures [] rs = []"
  "failures ((i, c) # ics) (r # rs) = (case r of None \<Rightarrow> [] | Some e \<Rightarrow> [comp_error i e]) @ failures ics rs"
  by (simp_all add: failures_def split: option.splits)

lemma seq_results_Nil [simp]: "seq_results cont [] rs \<longleftrightarrow> rs = []"
  by (auto simp: seq_results_def)

lemma seq_results_ok: "seq_results cont ics rs \<Longrightarrow> seq_results cont (ic # ics) (None # rs)"
  by (auto simp: seq_results_def)

lemma seq_results_go_on: "seq_results True ics rs \<Longrightarrow> seq_results True (ic # ics) (r # rs)"
  by (simp add: seq_results_def)

lemma seq_results_stop: "seq_results False (ic # ics) [Some e]"
  by (cases ics) (auto simp: seq_results_def)

lemma comp_loop_spec:
  "comp_loop tp cont ctx input ists errs s = (es, tr, t) \<Longrightarrow>
     \<exists>rs. seq_results cont (comps_of ists) rs \<and> es = errs @ failures (comps_of ists) rs \<and>
       tr = concat (map2 (\<lambda>(i, c) r. ran ctx c r) (comps_of ists) rs)"
proof (induction ists arbitrary: errs s es tr)
  case (Cons ist ists)
  obtain i st where ist: "ist = (i, st)" by (cases ist)
  show ?case
  proof (cases "compensation st")
    case None
    with Cons ist show ?thesis by simp
  next
    case (Some c)
    obtain r tr1 s1 where ra: "run_activity tp ctx input c s = (r, tr1, s1)" by (rule prod_cases3)
    note tr1 = run_activity_ran[OF ra]
    show ?thesis
    proof (cases "r \<noteq> None \<and> \<not> cont")
      case True
      with Cons.prems ist Some ra tr1 seq_results_stop[of "(i, c)" "comps_of ists"] show ?thesis
        by (auto intro!: exI[of _ "[r]"])
    next
      case False
      define errs1 where "errs1 = errs @ (case r of None \<Rightarrow> [] | Some e \<Rightarrow> [comp_error i e])"
      from Cons.prems ist Some ra False obtain tr2 where
        "comp_loop tp cont ctx input ists errs1 s1 = (es, tr2, t)" and tr: "tr = tr1 @ tr2"
        by (auto simp: errs1_def Let_def split: option.splits prod.splits if_splits)
      from Cons.IH[OF this(1)] obtain rs where rs: "seq_results cont (comps_of ists) rs"
        "es = errs1 @ failures (comps_of ists) rs"
        "tr2 = concat (map2 (\<lambda>(i, c) r. ran ctx c r) (comps_of ists) rs)" by blast
      have "seq_results cont (comps_of (ist # ists)) (r # rs)"
        using False rs(1) ist Some by (cases r) (auto intro: seq_results_ok seq_results_go_on)
      with rs tr tr1 ist Some show ?thesis by (intro exI[of _ "r # rs"]) (simp add: errs1_def)
    qed
  qed
qed simp

lemma schedule_loop_spec:
  "schedule_loop tp ctx input ists s = (fs, tr, t) \<Longrightarrow>
     map (\<lambda>(i, c, f). (i, c)) fs = comps_of ists \<and> tr = map (\<lambda>(i, c). Scheduled ctx c) (comps_of ists)"
proof (induction ists arbitrary: s fs tr)
  case (Cons ist ists)
  then show ?case by (cases ist) (fastforce split: option.splits prod.splits)
qed simp

lemma await_loop_spec:
  "await_loop tp ctx fs s = (es, tr, t) \<Longrightarrow> ics = map (\<lambda>(i, c, f). (i, c)) fs \<Longrightarrow>
     \<exists>rs. length rs = length ics \<and> es = failures ics rs \<and> tr = map2 (\<lambda>(i, c) r. Awaited ctx c r) ics rs"
proof (induction fs arbitrary: s es tr ics)
  case (Cons icf fs)
  obtain i c f where icf: "icf = (i, c, f)" by (rule prod_cases3)
  obtain r s1 where aw: "await tp ctx f s = (r, s1)" by (cases "await tp ctx f s")
  obtain es' tr' t' where l: "await_loop tp ctx fs s1 = (es', tr', t')" by (rule prod_cases3)
  with Cons.prems icf aw have "t' = t" by simp
  from Cons.IH[OF l[unfolded this] refl] obtain rs where "length rs = length (map (\<lambda>(i, c, f). (i, c)) fs)"
    "es' = failures (map (\<lambda>(i, c, f). (i, c)) fs) rs"
    "tr' = map2 (\<lambda>(i, c) r. Awaited ctx c r) (map (\<lambda>(i, c, f). (i, c)) fs) rs" by blast
  with Cons.prems icf aw l show ?case by (intro exI[of _ "r # rs"]) (auto split: option.splits)
qed simp

lemma compensate_compensated:
  assumes "compensate tp opts ctx completed input s = (compErr, tr, t)"
  shows "\<exists>errs. compErr = comp_result errs \<and> compensated opts ctx completed errs tr"
proof -
  have nil: "compensated opts ctx [] [] []"
  proof (cases "parallelCompensation opts")
    case True
    from compensated.parallel[OF this refl, of "[]" "[]"] show ?thesis by (simp add: comps_def)
  next
    case False
    from compensated.sequential[OF this refl, of "[]" "[]"] show ?thesis by (simp add: comps_def)
  qed
  consider (none) "completed = []" | (par) "completed \<noteq> []" "parallelCompensation opts"
    | (seq) "completed \<noteq> []" "\<not> parallelCompensation opts" by blast
  then show ?thesis
  proof cases
    case none
    with assms nil show ?thesis by (auto simp: compensate_def comp_result_def)
  next
    case par
    with assms obtain fs tr1 s1 es tr2 where sl: "schedule_loop tp ctx input (rev (enumerate 0 completed)) s = (fs, tr1, s1)"
      and al: "await_loop tp ctx fs s1 = (es, tr2, t)" and r: "compErr = comp_result es" "tr = tr1 @ tr2"
      by (auto simp: compensate_def compensateParallel_def split: prod.splits)
    from schedule_loop_spec[OF sl] have "comps completed = map (\<lambda>(i, c, f). (i, c)) fs"
      and t1: "tr1 = map (\<lambda>(i, c). Scheduled ctx c) (comps completed)" by (simp_all add: comps_def)
    from await_loop_spec[OF al this(1)] obtain rs where rs: "length rs = length (comps completed)"
      "es = failures (comps completed) rs"
      "tr2 = map2 (\<lambda>(i, c) r. Awaited ctx c r) (comps completed) rs" by blast
    from compensated.parallel[OF par(2) refl rs(1), of ctx] rs t1 r show ?thesis by auto
  next
    case seq
    with assms obtain es where cl: "comp_loop tp (continueOnError opts) ctx input (rev (enumerate 0 completed)) [] s = (es, tr, t)"
      and r: "compErr = comp_result es" by (auto simp: compensate_def compensateSequential_def apfst_def map_prod_def split: prod.splits)
    from comp_loop_spec[OF cl] obtain rs where rs: "seq_results (continueOnError opts) (comps completed) rs"
      "es = failures (comps completed) rs"
      "tr = concat (map2 (\<lambda>(i, c) r. ran ctx c r) (comps completed) rs)" by (auto simp: comps_def)
    from compensated.sequential[OF seq(2) refl rs(1), of ctx] rs r show ?thesis by auto
  qed
qed

lemma execute_loop_protocol:
  assumes "execute_loop tp opts ctx input (length completed) completed rest s = (r, tr, t)"
    and "pre = concat (map (\<lambda>st. ran ctx (action st) None) completed)"
  shows "saga_protocol opts ctx (completed @ rest) r (pre @ tr)"
  using assms
proof (induction rest arbitrary: completed s tr pre)
  case Nil
  then show ?case using saga_protocol.all_done[of opts ctx completed] by simp
next
  case (Cons st rest)
  obtain q tr1 s1 where ra: "run_activity tp ctx input (action st) s = (q, tr1, s1)" by (rule prod_cases3)
  note tr1 = run_activity_ran[OF ra]
  show ?case
  proof (cases q)
    case None
    with Cons.prems(1) ra obtain tr2 where
      l: "execute_loop tp opts ctx input (length (completed @ [st])) (completed @ [st]) rest s1 = (r, tr2, t)"
      and tr: "tr = tr1 @ tr2" by (auto split: prod.splits)
    from Cons.IH[OF l refl] None tr tr1 Cons.prems(2) show ?thesis by simp
  next
    case (Some err)
    obtain ce tr2 s2 where c: "compensate tp opts ctx completed input s1 = (ce, tr2, s2)" by (rule prod_cases3)
    from compensate_compensated[OF c] obtain errs where "ce = comp_result errs"
      "compensated opts ctx completed errs tr2" by blast
    with Cons.prems ra Some c tr1 show ?thesis
      using saga_protocol.rolled_back[of "completed @ st # rest" completed st rest opts ctx errs tr2 err] by simp
  qed
qed

section \<open>What ran\<close>

definition awaited :: "saga_event list \<Rightarrow> nat list" where
  "awaited tr = concat (map (\<lambda>ev. case ev of Awaited ctx a r \<Rightarrow> [a] | Scheduled ctx a \<Rightarrow> []) tr)"

lemma awaited_simps [simp]:
  "awaited [] = []" "awaited (tr @ tr') = awaited tr @ awaited tr'" "awaited (ran ctx a r) = [a]"
  "awaited (map (\<lambda>(i, c). Scheduled ctx c) ics) = []"
  by (simp_all add: awaited_def ran_def) (induction ics; auto)

lemma awaited_forward [simp]:
  "awaited (concat (map (\<lambda>st. ran ctx (action st) None) sts)) = map action sts"
  by (induction sts) simp_all

lemma awaited_seq: "awaited (concat (map2 (\<lambda>(i, c) r. ran ctx c r) ics rs)) = take (length rs) (map snd ics)"
  by (induction ics rs rule: list_induct2') (auto simp: split: prod.splits)

lemma awaited_par: "length rs = length ics \<Longrightarrow> awaited (map2 (\<lambda>(i, c) r. Awaited ctx c r) ics rs) = map snd ics"
  by (induction rs ics rule: list_induct2) (auto simp: awaited_def)

lemma awaited_compensated:
  assumes "compensated opts ctx completed errs tr"
  shows "\<exists>k. awaited tr = take k (map snd (comps completed))"
    and "parallelCompensation opts \<or> continueOnError opts \<Longrightarrow> awaited tr = map snd (comps completed)"
proof -
  show "\<exists>k. awaited tr = take k (map snd (comps completed))"
    using assms
  proof cases
    case (sequential ics rs)
    then show ?thesis by (auto simp: awaited_seq)
  next
    case (parallel ics rs)
    then show ?thesis by (auto simp: awaited_par intro!: exI[of _ "length (comps completed)"])
  qed
  show "parallelCompensation opts \<or> continueOnError opts \<Longrightarrow> awaited tr = map snd (comps completed)"
    using assms by cases (auto simp: awaited_seq awaited_par seq_results_def)
qed

section \<open>Properties\<close>

text \<open>C10: A saga follows its protocol: every action in order up to the end or to the first failure; on
  a failure, the compensations of exactly the completed steps, last step first, one after the
  other (stopping at the first compensation error unless told to continue) or all scheduled before
  any is awaited; the error names the failing step, wraps its error and prints the compensation
  errors. All activities run with the saga's input under the activity options, the default being
  30 s and one attempt.\<close>

theorem Execute_refines_protocol:
  "case Execute tp sg input s of
     (r, tr, t) \<Rightarrow> saga_protocol (saga_opts sg) (activity_context sg) (saga_steps sg) r tr"
  using execute_loop_protocol[of tp "saga_opts sg" "activity_context sg" input "[]" "saga_steps sg" s]
  by (cases "Execute tp sg input s") (simp add: Execute_def)

text \<open>C11: A failed saga has run the actions up to the failing one, then compensations of completed
  steps in reverse order, from the last step down without gaps; all of them, if compensation is
  parallel or continues on errors. The caller can recognise the action's error with
  \<open>errors.Is\<close>.\<close>

theorem Execute_failure_compensates:
  assumes "Execute tp sg input s = (Some e, tr, t)"
  shows "\<exists>completed st rest err k. saga_steps sg = completed @ st # rest \<and> errors_Is e err \<and>
    Awaited (activity_context sg) (action st) (Some err) \<in> set tr \<and>
    awaited tr = map action completed @ action st # take k (map snd (comps completed)) \<and>
    (parallelCompensation (saga_opts sg) \<or> continueOnError (saga_opts sg) \<longrightarrow> length (comps completed) \<le> k)"
proof -
  from assms execute_loop_protocol[of tp "saga_opts sg" "activity_context sg" input "[]" "saga_steps sg" s]
  have "saga_protocol (saga_opts sg) (activity_context sg) (saga_steps sg) (Some e) tr" by (simp add: Execute_def)
  then show ?thesis
  proof cases
    case (rolled_back completed st rest errs tr' err)
    obtain k where k: "awaited tr' = take k (map snd (comps completed))"
      "parallelCompensation (saga_opts sg) \<or> continueOnError (saga_opts sg) \<longrightarrow> length (comps completed) \<le> k"
    proof (cases "parallelCompensation (saga_opts sg) \<or> continueOnError (saga_opts sg)")
      case True
      with awaited_compensated(2)[OF rolled_back(4)] that[of "length (comps completed)"] show thesis by simp
    next
      case False
      with awaited_compensated(1)[OF rolled_back(4)] that show thesis by blast
    qed
    have "errors_Is e err" using rolled_back(1)
      by (auto simp: step_error_def intro!: errors_Is_PW[of err] split: option.splits)
    moreover have "Awaited (activity_context sg) (action st) (Some err) \<in> set tr"
      using rolled_back(2) by (simp add: ran_def)
    moreover have "awaited tr = map action completed @ action st # take k (map snd (comps completed))"
      using rolled_back(2) k(1) by simp
    ultimately show ?thesis using rolled_back(3) k(2) by blast
  qed
qed

text \<open>Three steps, the second without compensation, whose last action (activity 3) fails.\<close>

definition demo_temporal :: "(unit, nat) temporal" where
  "demo_temporal = \<lparr>schedule = (\<lambda>ctx a i n. (a, Suc n)),
     await = (\<lambda>ctx f n. (if f = 3 then Some (ErrNew ''declined'') else None, n))\<rparr>"

definition demo_saga :: saga where
  "demo_saga = Saga_Step 3 (Some 13) (Saga_Step 2 None (Saga_Step 1 (Some 11)
     (Saga_New (WorkflowContext 0) [WithContinueOnCompensationError])))"

theorem Execute_failure_compensates_witness:
  "\<exists>e tr t. Execute demo_temporal demo_saga () 0 = (Some e, tr, t) \<and> errors_Is e (ErrNew ''declined'') \<and>
     awaited tr = [1, 2, 3, 11]"
proof -
  define e where "e = step_error (Suc (Suc 0)) (ErrNew ''declined'') None"
  define tr where "tr = (let c = activity_context demo_saga in ran c 1 None @ ran c 2 None @
    ran c 3 (Some (ErrNew ''declined'')) @ ran c 11 None)"
  have ex: "Execute demo_temporal demo_saga () 0 = (Some e, tr, 4)"
    by (simp add: Execute_def demo_saga_def Saga_Step_def Saga_New_def run_activity_def compensate_def
        compensateSequential_def comp_result_def demo_temporal_def e_def tr_def ran_def Let_def)
  from Execute_failure_compensates[OF this] obtain completed st rest err k where
    sg: "saga_steps demo_saga = completed @ st # rest" and err: "errors_Is e err"
    "Awaited (activity_context demo_saga) (action st) (Some err) \<in> set tr"
    and aw: "awaited tr = map action completed @ action st # take k (map snd (comps completed))" by blast
  from err(2) have "err = ErrNew ''declined''" by (auto simp: tr_def ran_def Let_def)
  with ex err aw show ?thesis by (auto simp: tr_def Let_def)
qed

end
