(* ===== verification/Discovery.thy ===== *)
theory Discovery
  imports Lifecycle "HOL-Library.Word" "HOL-Library.Multiset"
begin

text \<open>
  Service discovery: the resolver of \<open>src/pkg/discovery/resolver.go\<close> (TTL cache, round robin,
  background watchers), the types of \<open>registry.go\<close>, and the Consul registry of
  \<open>src/pkg/discovery/consul/registry.go\<close>.

  The \<open>Registry\<close> interface and the Consul API client are records of functions on the world \<open>'s\<close>,
  which also carries the clock. A cache is named by its service: \<open>getOrCreateCache\<close> never replaces
  an entry, which the model of its two locked phases shows for concurrent callers. The round-robin
  index is a 64-bit word.
\<close>

section \<open>Registry and resolver state\<close>

record inst =
  in_ID :: string
  in_Name :: string
  in_Address :: string
  in_Port :: int
  in_Tags :: "string list"
  in_Meta :: "(string \<times> string) list"

record 's registry =
  reg_register :: "ctx \<Rightarrow> inst \<Rightarrow> 's fallible"
  reg_deregister :: "ctx \<Rightarrow> string \<Rightarrow> 's fallible"
  reg_discover :: "ctx \<Rightarrow> string \<Rightarrow> 's \<Rightarrow> (goerr + inst list) \<times> 's"
  reg_watch :: "ctx \<Rightarrow> string \<Rightarrow> 's \<Rightarrow> (goerr + nat) \<times> 's"    \<comment> \<open>a channel, by number\<close>

record service_cache =
  sc_instances :: "inst list"
  sc_lastUpdate :: "int option"       \<comment> \<open>\<open>None\<close> is the zero time\<close>
  sc_index :: "64 word"

record resolver =
  rv_ttl :: int
  rv_logger :: nat
  rv_services :: "string list"
  rv_caches :: "string \<Rightarrow> service_cache option"
  rv_cancel :: "ctx option"

datatype resolver_option = WithTTL int | WithServices "string list" | WithResolverLogger nat

fun apply_resolver_option :: "resolver_option \<Rightarrow> resolver \<Rightarrow> resolver" where
  "apply_resolver_option (WithTTL d) r = r\<lparr>rv_ttl := d\<rparr>"
| "apply_resolver_option (WithServices names) r = r\<lparr>rv_services := names\<rparr>"
| "apply_resolver_option (WithResolverLogger l) r = r\<lparr>rv_logger := l\<rparr>"

definition NewResolver :: "resolver_option list \<Rightarrow> resolver" where
  "NewResolver opts = fold apply_resolver_option opts
     \<lparr>rv_ttl = 30 * second, rv_logger = 0, rv_services = [], rv_caches = (\<lambda>_. None), rv_cancel = None\<rparr>"

definition empty_cache :: service_cache where
  "empty_cache = \<lparr>sc_instances = [], sc_lastUpdate = None, sc_index = 0\<rparr>"

section \<open>Caches\<close>

definition getOrCreateCache :: "resolver \<Rightarrow> string \<Rightarrow> service_cache \<times> resolver" where
  "getOrCreateCache r service =
     (case rv_caches r service of
        Some sc \<Rightarrow> (sc, r)
      | None \<Rightarrow> (empty_cache, r\<lparr>rv_caches := (rv_caches r)(service \<mapsto> empty_cache)\<rparr>))"

definition store_cache :: "string \<Rightarrow> service_cache \<Rightarrow> resolver \<Rightarrow> resolver" where
  "store_cache service sc r = r\<lparr>rv_caches := (rv_caches r)(service \<mapsto> sc)\<rparr>"

text \<open>
  The two phases of \<open>getOrCreateCache\<close> under concurrency: a look-up under the read lock, and, on a
  miss, a second look-up and the insertion under the write lock. Caches are addresses here; the
  threads are indexed by numbers and interleave arbitrarily.
\<close>

datatype gc_pc = Entered string | Missed string | Returned string nat

record gc_state =
  gc_caches :: "string \<Rightarrow> nat option"
  gc_next :: nat
  gc_threads :: "nat \<Rightarrow> gc_pc option"

inductive gc_step :: "gc_state \<Rightarrow> gc_state \<Rightarrow> bool" where
  enter: "gc_threads g t = None \<Longrightarrow> gc_step g (g\<lparr>gc_threads := (gc_threads g)(t \<mapsto> Entered svc)\<rparr>)"
| hit: "gc_threads g t = Some (Entered svc) \<Longrightarrow> gc_caches g svc = Some a \<Longrightarrow>
    gc_step g (g\<lparr>gc_threads := (gc_threads g)(t \<mapsto> Returned svc a)\<rparr>)"
| miss: "gc_threads g t = Some (Entered svc) \<Longrightarrow> gc_caches g svc = None \<Longrightarrow>
    gc_step g (g\<lparr>gc_threads := (gc_threads g)(t \<mapsto> Missed svc)\<rparr>)"
| recheck_hit: "gc_threads g t = Some (Missed svc) \<Longrightarrow> gc_caches g svc = Some a \<Longrightarrow>
    gc_step g (g\<lparr>gc_threads := (gc_threads g)(t \<mapsto> Returned svc a)\<rparr>)"
| create: "gc_threads g t = Some (Missed svc) \<Longrightarrow> gc_caches g svc = None \<Longrightarrow>
    gc_step g (g\<lparr>gc_caches := (gc_caches g)(svc \<mapsto> gc_next g), gc_next := Suc (gc_next g),
               gc_threads := (gc_threads g)(t \<mapsto> Returned svc (gc_next g))\<rparr>)"

inductive_cases gc_step_cases: "gc_step g g'"

definition gc_init :: gc_state where
  "gc_init = \<lparr>gc_caches = (\<lambda>_. None), gc_next = 0, gc_threads = (\<lambda>_. None)\<rparr>"

section \<open>Pick\<close>

text \<open>\<open>now\<close> reads the clock of the world.\<close>

definition cache_valid :: "('s \<Rightarrow> int) \<Rightarrow> resolver \<Rightarrow> service_cache \<Rightarrow> 's \<Rightarrow> bool" where
  "cache_valid now r sc s = (case sc_lastUpdate sc of None \<Rightarrow> False | Some t \<Rightarrow> now s - t < rv_ttl r)"

text \<open>\<open>idx := sc.index.Add(1) - 1; return instances[idx % uint64(len(instances))]\<close>\<close>

definition next_instance :: "service_cache \<Rightarrow> inst list \<Rightarrow> inst \<times> service_cache" where
  "next_instance sc instances =
     (let sc' = sc\<lparr>sc_index := sc_index sc + 1\<rparr>;
          idx = sc_index sc' - 1
      in (instances ! unat (idx mod of_nat (length instances)), sc'))"

definition Pick :: "('s \<Rightarrow> int) \<Rightarrow> 's registry \<Rightarrow> ctx \<Rightarrow> string \<Rightarrow> resolver \<times> 's \<Rightarrow>
    (goerr + inst) \<times> (resolver \<times> 's)" where
  "Pick now reg ctx service st =
     (case getOrCreateCache (fst st) service of
        (sc, r) \<Rightarrow>
          let s = snd st;
              refreshed =
                (if \<not> cache_valid now r sc s \<or> sc_instances sc = [] then
                   (case reg_discover reg ctx service s of
                      (Inl err, s1) \<Rightarrow> (Inl (Errorf [Lit ''discovery: resolve '', PQ service, Lit '': '', PW err]), s1)
                    | (Inr discovered, s1) \<Rightarrow>
                        (Inr (sc\<lparr>sc_instances := discovered, sc_lastUpdate := Some (now s1)\<rparr>), s1))
                 else (Inr sc, s))
          in case refreshed of
               (Inl err, s1) \<Rightarrow> (Inl err, (r, s1))
             | (Inr sc1, s1) \<Rightarrow>
                 if sc_instances sc1 = [] then
                   (Inl (Errorf [Lit ''discovery: no instances available for '', PQ service]),
                    (store_cache service sc1 r, s1))
                 else (case next_instance sc1 (sc_instances sc1) of
                         (i, sc2) \<Rightarrow> (Inr i, (store_cache service sc2 r, s1))))"

section \<open>Background refresh\<close>

text \<open>The body of a watcher's loop: an update received from the channel.\<close>

definition watch_update :: "('s \<Rightarrow> int) \<Rightarrow> string \<Rightarrow> inst list \<Rightarrow> resolver \<times> 's \<Rightarrow> resolver \<times> 's" where
  "watch_update now service instances st =
     (case getOrCreateCache (fst st) service of
        (sc, r) \<Rightarrow> (store_cache service (sc\<lparr>sc_instances := instances, sc_lastUpdate := Some (now (snd st))\<rparr>) r, snd st))"

text \<open>\<open>Start\<close> gives the watchers it spawned: the service and its channel.\<close>

fun start_watchers :: "'s registry \<Rightarrow> ctx \<Rightarrow> string list \<Rightarrow> resolver \<times> 's \<Rightarrow>
    goerr option \<times> (string \<times> nat) list \<times> (resolver \<times> 's)" where
  "start_watchers reg ctx [] st = (None, [], st)"
| "start_watchers reg ctx (svc # svcs) st =
     (case reg_watch reg ctx svc (snd st) of
        (Inl err, s1) \<Rightarrow> (Some (Errorf [Lit ''discovery: watch '', PQ svc, Lit '': '', PW err]), [], (fst st, s1))
      | (Inr ch, s1) \<Rightarrow>
          (case start_watchers reg ctx svcs (snd (getOrCreateCache (fst st) svc), s1) of
             (r, ws, st') \<Rightarrow> (r, (svc, ch) # ws, st')))"

text \<open>On an error the context of the watchers already spawned is cancelled; \<open>cancel\<close> does that.\<close>

definition Resolver_Start :: "('s \<Rightarrow> ctx \<Rightarrow> 's) \<Rightarrow> 's registry \<Rightarrow> ctx \<Rightarrow> resolver \<times> 's \<Rightarrow>
    goerr option \<times> (string \<times> nat) list \<times> (resolver \<times> 's)" where
  "Resolver_Start cancel reg ctx st =
     (let wctx = WithCancel ctx in
      case start_watchers reg wctx (rv_services (fst st)) ((fst st)\<lparr>rv_cancel := Some wctx\<rparr>, snd st) of
        (None, ws, st') \<Rightarrow> (None, ws, st')
      | (Some err, ws, (r, s)) \<Rightarrow> (Some err, ws, (r, cancel s wctx)))"

text \<open>\<open>wait\<close> is \<open>wg.Wait()\<close>.\<close>

definition Resolver_Stop :: "('s \<Rightarrow> ctx \<Rightarrow> 's) \<Rightarrow> ('s \<Rightarrow> 's) \<Rightarrow> (resolver \<times> 's) fallible" where
  "Resolver_Stop cancel wait st =
     (None, (fst st, wait (case rv_cancel (fst st) of None \<Rightarrow> snd st | Some c \<Rightarrow> cancel (snd st) c)))"

section \<open>One cache per service\<close>

definition gc_inv :: "gc_state \<Rightarrow> bool" where
  "gc_inv g \<longleftrightarrow>
     (\<forall>t svc a. gc_threads g t = Some (Returned svc a) \<longrightarrow> gc_caches g svc = Some a) \<and>
     (\<forall>svc a. gc_caches g svc = Some a \<longrightarrow> a < gc_next g) \<and>
     (\<forall>svc svc' a. gc_caches g svc = Some a \<longrightarrow> gc_caches g svc' = Some a \<longrightarrow> svc' = svc)"

lemma gc_inv_step: "gc_step g g' \<Longrightarrow> gc_inv g \<Longrightarrow> gc_inv g'"
  by (erule gc_step_cases) (auto simp: gc_inv_def less_SucI split: if_splits)

lemma gc_inv_init: "gc_inv gc_init"
  by (simp add: gc_inv_def gc_init_def)

lemma gc_inv_reachable: "gc_step\<^sup>*\<^sup>* gc_init g \<Longrightarrow> gc_inv g"
  by (induction rule: rtranclp_induct) (auto intro: gc_inv_step gc_inv_init)

section \<open>Selection\<close>

lemma unat_idx_mod:
  "xs \<noteq> [] \<Longrightarrow> length xs < 2 ^ 64 \<Longrightarrow> unat ((w :: 64 word) mod of_nat (length xs)) = unat w mod length xs"
  by (simp add: unat_mod_distrib unat_of_nat take_bit_nat_eq_self)

lemma next_instance_nth:
  "xs \<noteq> [] \<Longrightarrow> length xs < 2 ^ 64 \<Longrightarrow>
     next_instance sc xs = (xs ! (unat (sc_index sc) mod length xs), sc\<lparr>sc_index := sc_index sc + 1\<rparr>)"
  by (simp add: next_instance_def unat_idx_mod)

lemma next_instance_mem:
  "xs \<noteq> [] \<Longrightarrow> length xs < 2 ^ 64 \<Longrightarrow> fst (next_instance sc xs) \<in> set xs"
  by (simp add: next_instance_nth)

text \<open>A valid, non-empty cache is used as it is.\<close>

lemma Pick_cached:
  assumes "rv_caches r service = Some sc" and "cache_valid now r sc s" and "sc_instances sc \<noteq> []"
    and "length (sc_instances sc) < 2 ^ 64"
  shows "Pick now reg ctx service (r, s) =
    (Inr (sc_instances sc ! (unat (sc_index sc) mod length (sc_instances sc))),
     (store_cache service (sc\<lparr>sc_index := sc_index sc + 1\<rparr>) r, s))"
  using assms by (simp add: Pick_def getOrCreateCache_def next_instance_nth)

text \<open>Otherwise \<open>Discover\<close> decides.\<close>

lemma Pick_refresh_error:
  assumes "getOrCreateCache r service = (sc, r0)" and "\<not> (cache_valid now r0 sc s \<and> sc_instances sc \<noteq> [])"
    and "reg_discover reg ctx service s = (Inl e, s1)"
  shows "Pick now reg ctx service (r, s) =
    (Inl (Errorf [Lit ''discovery: resolve '', PQ service, Lit '': '', PW e]), (r0, s1))"
  using assms by (auto simp: Pick_def)

lemma Pick_refresh_ok:
  assumes "getOrCreateCache r service = (sc, r0)" and "\<not> (cache_valid now r0 sc s \<and> sc_instances sc \<noteq> [])"
    and "reg_discover reg ctx service s = (Inr xs, s1)" and "xs \<noteq> []" and "length xs < 2 ^ 64"
  shows "Pick now reg ctx service (r, s) =
    (Inr (xs ! (unat (sc_index sc) mod length xs)),
     (store_cache service
        (sc\<lparr>sc_instances := xs, sc_lastUpdate := Some (now s1), sc_index := sc_index sc + 1\<rparr>) r0, s1))"
  using assms by (auto simp: Pick_def next_instance_nth)

text \<open>The results of successive picks, the \<open>j\<close>-th in the world \<open>ss ! j\<close>.\<close>

fun picks :: "('s \<Rightarrow> int) \<Rightarrow> 's registry \<Rightarrow> ctx \<Rightarrow> string \<Rightarrow> 's list \<Rightarrow> resolver \<Rightarrow> (goerr + inst) list" where
  "picks now reg ctx service [] r = []"
| "picks now reg ctx service (s # ss) r =
     (case Pick now reg ctx service (r, s) of (x, (r', s')) \<Rightarrow> x # picks now reg ctx service ss r')"

lemma picks_nth:
  assumes "rv_caches r service = Some sc" and "\<And>s. s \<in> set ss \<Longrightarrow> cache_valid now r sc s"
    and "sc_instances sc = xs" and "xs \<noteq> []" and "length xs < 2 ^ 64" and "unat (sc_index sc) + length ss \<le> 2 ^ 64"
  shows "picks now reg ctx service ss r =
    map (\<lambda>j. Inr (xs ! ((unat (sc_index sc) + j) mod length xs))) [0..<length ss]"
  using assms
proof (induction ss arbitrary: r sc)
  case (Cons s ss)
  define sc' where "sc' = sc\<lparr>sc_index := sc_index sc + 1\<rparr>"
  let ?r = "store_cache service sc' r"
  have p: "Pick now reg ctx service (r, s) = (Inr (xs ! (unat (sc_index sc) mod length xs)), (?r, s))"
    using Pick_cached[of r service sc now s reg ctx] Cons.prems by (simp add: sc'_def)
  have v: "cache_valid now ?r sc' u = cache_valid now r sc u" for u
    by (simp add: cache_valid_def store_cache_def sc'_def split: option.splits)
  have "picks now reg ctx service ss ?r =
      map (\<lambda>j. Inr (xs ! ((unat (sc_index sc') + j) mod length xs))) [0..<length ss]"
  proof (cases "ss = []")
    case False
    then have "unat (sc_index sc) + 1 < 2 ^ 64" using Cons.prems(6) by (cases ss) auto
    then have "unat (sc_index sc') = Suc (unat (sc_index sc))"
      by (simp add: sc'_def unat_word_ariths take_bit_nat_eq_self)
    with Cons.prems v show ?thesis by (intro Cons.IH) (auto simp: store_cache_def sc'_def)
  qed simp
  moreover have "Inr (xs ! ((unat (sc_index sc') + j) mod length xs)) = Inr (xs ! ((unat (sc_index sc) + Suc j) mod length xs))"
    if "j < length ss" for j
  proof -
    have "unat (sc_index sc) + 1 < 2 ^ 64" using Cons.prems(6) that by simp
    then show ?thesis by (simp add: sc'_def unat_word_ariths take_bit_nat_eq_self)
  qed
  ultimately show ?case using p by (simp add: map_upt_Suc del: upt_Suc)
qed simp

lemma map_nth_rotate: "xs \<noteq> [] \<Longrightarrow> map (\<lambda>j. xs ! ((i + j) mod length xs)) [0..<length xs] = rotate i xs"
  by (rule nth_equalityI) (simp_all add: nth_rotate)

lemma mset_rotate: "mset (rotate i xs) = mset xs"
proof (induction i)
  case (Suc i)
  have "mset (rotate1 ys) = mset ys" for ys :: "'a list" by (cases ys) simp_all
  with Suc show ?case by simp
qed simp

section \<open>Watchers\<close>

lemma getOrCreateCache_dom: "dom (rv_caches (snd (getOrCreateCache r svc))) = insert svc (dom (rv_caches r))"
  by (auto simp: getOrCreateCache_def split: option.splits)

lemma start_watchers_spec:
  "start_watchers reg ctx svcs st = (res, ws, (r', s')) \<Longrightarrow>
     dom (rv_caches r') = set (map fst ws) \<union> dom (rv_caches (fst st)) \<and>
     (if res = None then map fst ws = svcs else \<exists>svc post. svcs = map fst ws @ svc # post)"
proof (induction svcs arbitrary: st ws)
  case (Cons svc svcs)
  obtain d s1 where w: "reg_watch reg ctx svc (snd st) = (d, s1)" by (cases "reg_watch reg ctx svc (snd st)")
  show ?case
  proof (cases d)
    case (Inl e)
    with Cons.prems w show ?thesis by auto
  next
    case (Inr ch)
    with Cons.prems w obtain ws' where ws: "ws = (svc, ch) # ws'"
      and l: "start_watchers reg ctx svcs (snd (getOrCreateCache (fst st) svc), s1) = (res, ws', (r', s'))"
      by (auto split: prod.splits)
    from Cons.IH[OF l] ws show ?thesis by (auto simp: getOrCreateCache_dom split: if_splits)
  qed
qed auto

lemma start_watchers_cancel: "start_watchers reg ctx svcs st = (res, ws, (r', s')) \<Longrightarrow> rv_cancel r' = rv_cancel (fst st)"
  by (induction svcs arbitrary: st ws)
    (fastforce simp: getOrCreateCache_def split: prod.splits sum.splits option.splits)+

section \<open>Properties\<close>

text \<open>Two instances behind a registry that always returns both; the world is the clock.\<close>

definition demo_inst :: "string \<Rightarrow> inst" where
  "demo_inst i = \<lparr>in_ID = i, in_Name = ''svc'', in_Address = ''10.0.0.1'', in_Port = 8080, in_Tags = [], in_Meta = []\<rparr>"

definition demo_registry :: "int registry" where
  "demo_registry = \<lparr>reg_register = (\<lambda>c i s. (None, s)), reg_deregister = (\<lambda>c i s. (None, s)),
     reg_discover = (\<lambda>c n s. (Inr [demo_inst ''a'', demo_inst ''b''], s)), reg_watch = (\<lambda>c n s. (Inr 0, s))\<rparr>"

definition demo_cache :: service_cache where
  "demo_cache = \<lparr>sc_instances = [demo_inst ''a'', demo_inst ''b''], sc_lastUpdate = Some 0, sc_index = 1\<rparr>"

definition demo_resolver :: resolver where
  "demo_resolver = store_cache ''svc'' demo_cache (NewResolver [])"

lemma demo_resolver_simps:
  "rv_caches demo_resolver ''svc'' = Some demo_cache" "rv_ttl demo_resolver = 30 * second"
  by (simp_all add: demo_resolver_def store_cache_def NewResolver_def)


text \<open>C15: Round robin is fair: with a valid cache of \<open>n\<close> instances, successive picks walk through the
  instances cyclically from the current index, whatever the clock does within the TTL; any \<open>n\<close>
  picks in a row return every instance exactly as often as it is listed. The 64-bit index must not
  wrap around in between.\<close>

theorem Pick_round_robin:
  assumes "rv_caches r service = Some sc" and "\<And>s. s \<in> set ss \<Longrightarrow> cache_valid now r sc s"
    and "sc_instances sc \<noteq> []" and "length (sc_instances sc) < 2 ^ 64"
    and "unat (sc_index sc) + length ss \<le> 2 ^ 64"
  shows "picks now reg ctx service ss r =
      map (\<lambda>j. Inr (sc_instances sc ! ((unat (sc_index sc) + j) mod length (sc_instances sc)))) [0..<length ss] \<and>
    (length ss = length (sc_instances sc) \<longrightarrow>
       mset (picks now reg ctx service ss r) = image_mset Inr (mset (sc_instances sc)))"
proof -
  have p: "picks now reg ctx service ss r =
      map (\<lambda>j. Inr (sc_instances sc ! ((unat (sc_index sc) + j) mod length (sc_instances sc)))) [0..<length ss]"
    by (rule picks_nth[OF assms(1,2) refl assms(3-5)])
  then have "picks now reg ctx service ss r = map Inr (rotate (unat (sc_index sc)) (sc_instances sc))"
    if "length ss = length (sc_instances sc)"
    using that assms(3) by (simp add: map_nth_rotate[symmetric])
  then show ?thesis using p by (simp add: mset_rotate)
qed

theorem Pick_round_robin_witness:
  "picks (\<lambda>s. s) demo_registry Background ''svc'' [1, 2] demo_resolver = [Inr (demo_inst ''b''), Inr (demo_inst ''a'')]"
proof -
  have v: "\<And>s. s \<in> set [1, 2] \<Longrightarrow> cache_valid (\<lambda>s. s) demo_resolver demo_cache s"
    by (auto simp: cache_valid_def demo_cache_def demo_resolver_simps second_def)
  have "picks (\<lambda>s. s) demo_registry Background ''svc'' [1, 2] demo_resolver =
      map (\<lambda>j. Inr (sc_instances demo_cache ! ((unat (sc_index demo_cache) + j) mod length (sc_instances demo_cache)))) [0..<length [1 :: int, 2]]"
    using Pick_round_robin[where ss = "[1, 2]" and reg = demo_registry and ctx = Background, OF demo_resolver_simps(1) v]
    by (simp add: demo_cache_def del: picks.simps)
  then show ?thesis by (simp add: demo_cache_def del: picks.simps)
qed

text \<open>C16: \<open>Pick\<close> is total and never indexes out of range, at every value of the 64-bit index, its
  wrap-around included. A fresh cache is used without a call to the registry; otherwise \<open>Discover\<close>
  decides: its error is returned wrapped with the cache unchanged, an empty answer is an error, and
  any other answer replaces the cached list, stamps it with the current time, and one of its
  instances is returned.\<close>

theorem Pick_total:
  assumes "getOrCreateCache r service = (sc, r0)" and "length (sc_instances sc) < 2 ^ 64"
    and "reg_discover reg ctx service s = (d, s1)" and "\<And>xs. d = Inr xs \<Longrightarrow> length xs < 2 ^ 64"
  shows "if cache_valid now r0 sc s \<and> sc_instances sc \<noteq> []
    then \<exists>i \<in> set (sc_instances sc). Pick now reg ctx service (r, s) =
           (Inr i, (store_cache service (sc\<lparr>sc_index := sc_index sc + 1\<rparr>) r0, s))
    else case d of
        Inl e \<Rightarrow> Pick now reg ctx service (r, s) =
          (Inl (Errorf [Lit ''discovery: resolve '', PQ service, Lit '': '', PW e]), (r0, s1))
      | Inr [] \<Rightarrow> \<exists>e r'. Pick now reg ctx service (r, s) = (Inl e, (r', s1))
      | Inr xs \<Rightarrow> \<exists>i \<in> set xs. Pick now reg ctx service (r, s) =
          (Inr i, (store_cache service
             (sc\<lparr>sc_instances := xs, sc_lastUpdate := Some (now s1), sc_index := sc_index sc + 1\<rparr>) r0, s1))"
proof (cases "cache_valid now r0 sc s \<and> sc_instances sc \<noteq> []")
  case True
  with assms(1,2) next_instance_mem[of "sc_instances sc" sc] show ?thesis
    by (auto simp: Pick_def next_instance_nth)
next
  case False
  show ?thesis
  proof (cases d)
    case (Inl e)
    with False Pick_refresh_error[OF assms(1) False, of reg ctx e s1] assms(3) show ?thesis by auto
  next
    case (Inr xs)
    with assms(4) have l: "length xs < 2 ^ 64" by simp
    show ?thesis
    proof (cases "xs = []")
      case True
      with Inr False assms(1,3) show ?thesis by (auto simp: Pick_def)
    next
      case ne: False
      then have "xs ! (unat (sc_index sc) mod length xs) \<in> set xs" by simp
      with Inr False ne Pick_refresh_ok[OF assms(1) False, of reg ctx xs s1] assms(3) l show ?thesis
        by (cases xs) auto
    qed
  qed
qed

theorem Pick_total_witness:
  "\<exists>i \<in> {demo_inst ''a'', demo_inst ''b''}. \<exists>st. Pick (\<lambda>s. s) demo_registry Background ''svc'' (NewResolver [], 5) = (Inr i, st)"
proof -
  have g: "getOrCreateCache (NewResolver []) ''svc'' =
      (empty_cache, (NewResolver [])\<lparr>rv_caches := [''svc'' \<mapsto> empty_cache]\<rparr>)"
    by (simp add: getOrCreateCache_def NewResolver_def)
  have d: "reg_discover demo_registry Background ''svc'' 5 = (Inr [demo_inst ''a'', demo_inst ''b''], 5)"
    by (simp add: demo_registry_def)
  from Pick_total[OF g _ d, of "\<lambda>s. s"] show ?thesis by (auto simp: empty_cache_def)
qed

text \<open>C27: Concurrent callers share one cache per service: however the lookups under the read lock and
  the insertions under the write lock interleave, two calls for the same service return the same
  cache, and calls for different services return different ones.\<close>

theorem getOrCreateCache_one_cache:
  assumes "gc_step\<^sup>*\<^sup>* gc_init g" and "gc_threads g t = Some (Returned svc a)"
    and "gc_threads g t' = Some (Returned svc' a')"
  shows "a = a' \<longleftrightarrow> svc = svc'"
proof -
  from gc_inv_reachable[OF assms(1)] assms(2,3) have c: "gc_caches g svc = Some a" "gc_caches g svc' = Some a'"
    and inj: "\<And>svc svc' a. gc_caches g svc = Some a \<Longrightarrow> gc_caches g svc' = Some a \<Longrightarrow> svc' = svc"
    unfolding gc_inv_def by blast+
  show ?thesis
  proof
    assume "a = a'"
    with c inj[of svc a svc'] show "svc = svc'" by simp
  qed (use c in simp)
qed

theorem getOrCreateCache_one_cache_witness:
  "\<exists>g a. gc_step\<^sup>*\<^sup>* gc_init g \<and> gc_threads g 1 = Some (Returned ''svc'' a) \<and> gc_threads g 2 = Some (Returned ''svc'' a)"
proof -
  define g1 where "g1 = gc_init\<lparr>gc_threads := (gc_threads gc_init)(1 \<mapsto> Entered ''svc'')\<rparr>"
  define g2 where "g2 = g1\<lparr>gc_threads := (gc_threads g1)(2 \<mapsto> Entered ''svc'')\<rparr>"
  define g3 where "g3 = g2\<lparr>gc_threads := (gc_threads g2)(1 \<mapsto> Missed ''svc'')\<rparr>"
  define g4 where "g4 = g3\<lparr>gc_threads := (gc_threads g3)(2 \<mapsto> Missed ''svc'')\<rparr>"
  define g5 where "g5 = g4\<lparr>gc_caches := (gc_caches g4)(''svc'' \<mapsto> gc_next g4), gc_next := Suc (gc_next g4),
    gc_threads := (gc_threads g4)(1 \<mapsto> Returned ''svc'' (gc_next g4))\<rparr>"
  define g6 where "g6 = g5\<lparr>gc_threads := (gc_threads g5)(2 \<mapsto> Returned ''svc'' 0)\<rparr>"
  note d = g1_def g2_def g3_def g4_def g5_def g6_def gc_init_def
  have "gc_step gc_init g1" unfolding g1_def by (rule gc_step.enter) (simp add: d)
  moreover have "gc_step g1 g2" unfolding g2_def by (rule gc_step.enter) (simp add: d)
  moreover have "gc_step g2 g3" unfolding g3_def by (rule gc_step.miss) (simp_all add: d)
  moreover have "gc_step g3 g4" unfolding g4_def by (rule gc_step.miss) (simp_all add: d)
  moreover have "gc_step g4 g5" unfolding g5_def by (rule gc_step.create) (simp_all add: d)
  moreover have "gc_step g5 g6" unfolding g6_def by (rule gc_step.recheck_hit) (simp_all add: d)
  ultimately have "gc_step\<^sup>*\<^sup>* gc_init g6" by (meson converse_rtranclp_into_rtranclp rtranclp.rtrancl_refl)
  moreover obtain a b where ab: "gc_threads g6 1 = Some (Returned ''svc'' a)" "gc_threads g6 2 = Some (Returned ''svc'' b)"
    by (simp add: d)
  ultimately have "a = b" using getOrCreateCache_one_cache by blast
  with \<open>gc_step\<^sup>*\<^sup>* gc_init g6\<close> ab show ?thesis by blast
qed

text \<open>After a watcher's update, a pick within the TTL returns one of the instances the update
  carried, without asking the registry.\<close>

lemma watch_update_then_Pick:
  assumes "watch_update now service xs (r, s) = (r', s')" and "xs \<noteq> []" and "length xs < 2 ^ 64"
    and "now t - now s < rv_ttl r"
  shows "\<exists>i \<in> set xs. \<exists>r''. Pick now reg ctx service (r', t) = (Inr i, (r'', t))"
proof -
  obtain sc r0 where g: "getOrCreateCache r service = (sc, r0)" by (cases "getOrCreateCache r service")
  then have ttl: "rv_ttl r0 = rv_ttl r" by (auto simp: getOrCreateCache_def split: option.splits)
  let ?sc = "sc\<lparr>sc_instances := xs, sc_lastUpdate := Some (now s)\<rparr>"
  from assms(1) g have r': "r' = store_cache service ?sc r0" by (auto simp: watch_update_def)
  then have "rv_caches r' service = Some ?sc" and "cache_valid now r' ?sc t"
    using assms(4) ttl by (simp_all add: store_cache_def cache_valid_def)
  from Pick_cached[OF this] assms(2,3) show ?thesis by simp
qed

text \<open>\<open>Start\<close> gives every configured service a cache and one watcher, in order; if a \<open>Watch\<close> fails,
  the services before it have watchers, the error is returned, and their context has been cancelled
  before \<open>Start\<close> returns. The context of the watchers is kept for \<open>Stop\<close>.\<close>

lemma Resolver_Start_watches:
  "case Resolver_Start cancel reg ctx st of (res, ws, (r', s')) \<Rightarrow>
     rv_cancel r' = Some (WithCancel ctx) \<and> set (map fst ws) \<subseteq> dom (rv_caches r') \<and>
     (if res = None then map fst ws = rv_services (fst st)
      else (\<exists>svc post s1. rv_services (fst st) = map fst ws @ svc # post \<and> s' = cancel s1 (WithCancel ctx)))"
proof -
  obtain res ws r' s' where w: "start_watchers reg (WithCancel ctx) (rv_services (fst st))
      ((fst st)\<lparr>rv_cancel := Some (WithCancel ctx)\<rparr>, snd st) = (res, ws, (r', s'))" by (metis prod.exhaust)
  from start_watchers_spec[OF w] start_watchers_cancel[OF w] w show ?thesis
    by (cases res) (auto simp: Resolver_Start_def)
qed

end
