(* ===== verification/Consul.thy ===== *)
theory Consul
  imports Discovery
begin

text \<open>
  The Consul registry, \<open>src/pkg/discovery/consul/registry.go\<close>.

  The HashiCorp client is the record \<open>consul_api\<close>, with the two \<open>select\<close> statements of \<open>Watch\<close>
  (pause or cancelled, send or cancelled). The goroutine of \<open>Watch\<close> may run forever: \<open>watch_loop\<close>
  takes the number of rounds to run, and the theorems hold for every number.
\<close>

record service_entry =
  se_ID :: string
  se_Service :: string
  se_Address :: string
  se_Port :: int
  se_Tags :: "string list"
  se_Meta :: "(string \<times> string) list"

record registration =
  rg_ID :: string
  rg_Name :: string
  rg_Address :: string
  rg_Port :: int
  rg_Tags :: "string list"
  rg_Meta :: "(string \<times> string) list"
  rg_checkTTL :: string
  rg_deregisterAfter :: string

record consul_config =
  cc_address :: string
  cc_token :: string
  cc_logger :: nat

datatype consul_option = WithAddress string | WithToken string | WithConsulLogger nat

record 's consul_api =
  api_new_client :: "string \<Rightarrow> string option \<Rightarrow> goerr + nat"    \<comment> \<open>address, token if set\<close>
  api_register :: "registration \<Rightarrow> ctx \<Rightarrow> 's fallible"
  api_update_ttl :: "string \<Rightarrow> string \<Rightarrow> string \<Rightarrow> 's fallible"
  api_deregister :: "string \<Rightarrow> ctx \<Rightarrow> 's fallible"
  api_health :: "string \<Rightarrow> bool \<Rightarrow> 64 word \<Rightarrow> ctx \<Rightarrow> 's \<Rightarrow> (goerr + service_entry list \<times> 64 word) \<times> 's"
  api_ctx_err :: "ctx \<Rightarrow> 's \<Rightarrow> bool"
  api_pause :: "ctx \<Rightarrow> int \<Rightarrow> 's \<Rightarrow> bool \<times> 's"                  \<comment> \<open>true when the context ended first\<close>
  api_send :: "ctx \<Rightarrow> inst list \<Rightarrow> 's \<Rightarrow> bool \<times> 's"             \<comment> \<open>true when the context ended first\<close>

fun apply_consul_option :: "consul_option \<Rightarrow> consul_config \<Rightarrow> consul_config" where
  "apply_consul_option (WithAddress addr) c = c\<lparr>cc_address := addr\<rparr>"
| "apply_consul_option (WithToken tok) c = c\<lparr>cc_token := tok\<rparr>"
| "apply_consul_option (WithConsulLogger l) c = c\<lparr>cc_logger := l\<rparr>"

definition Consul_New :: "'s consul_api \<Rightarrow> consul_option list \<Rightarrow> goerr + nat \<times> nat" where
  "Consul_New api opts =
     (let cfg = fold apply_consul_option opts \<lparr>cc_address = ''localhost:8500'', cc_token = [], cc_logger = 0\<rparr>
      in case api_new_client api (cc_address cfg) (if cc_token cfg \<noteq> [] then Some (cc_token cfg) else None) of
           Inl err \<Rightarrow> Inl (Errorf [Lit ''consul: create client: '', PW err])
         | Inr client \<Rightarrow> Inr (client, cc_logger cfg))"

definition consul_registration :: "inst \<Rightarrow> registration" where
  "consul_registration i =
     \<lparr>rg_ID = in_ID i, rg_Name = in_Name i, rg_Address = in_Address i, rg_Port = in_Port i,
      rg_Tags = in_Tags i, rg_Meta = in_Meta i, rg_checkTTL = ''30s'', rg_deregisterAfter = ''90s''\<rparr>"

definition Consul_Register :: "'s consul_api \<Rightarrow> ctx \<Rightarrow> inst \<Rightarrow> 's fallible" where
  "Consul_Register api ctx i s =
     (case api_register api (consul_registration i) ctx s of
        (Some err, s1) \<Rightarrow> (Some (Errorf [Lit ''consul: register service '', PQ (in_ID i), Lit '': '', PW err]), s1)
      | (None, s1) \<Rightarrow>
          (case api_update_ttl api (''service:'' @ in_ID i) ''initial registration'' ''passing'' s1 of
             (Some err, s2) \<Rightarrow> (Some (Errorf [Lit ''consul: update TTL for '', PQ (in_ID i), Lit '': '', PW err]), s2)
           | (None, s2) \<Rightarrow> (None, s2)))"

definition Consul_Deregister :: "'s consul_api \<Rightarrow> ctx \<Rightarrow> string \<Rightarrow> 's fallible" where
  "Consul_Deregister api ctx iid s =
     apfst (map_option (\<lambda>err. Errorf [Lit ''consul: deregister service '', PQ iid, Lit '': '', PW err]))
       (api_deregister api iid ctx s)"

definition toInstance :: "service_entry \<Rightarrow> inst" where
  "toInstance e =
     \<lparr>in_ID = se_ID e, in_Name = se_Service e, in_Address = se_Address e, in_Port = se_Port e,
      in_Tags = se_Tags e, in_Meta = se_Meta e\<rparr>"

definition Consul_Discover :: "'s consul_api \<Rightarrow> ctx \<Rightarrow> string \<Rightarrow> 's \<Rightarrow> (goerr + inst list) \<times> 's" where
  "Consul_Discover api ctx name s =
     (case api_health api name True 0 ctx s of
        (Inl err, s1) \<Rightarrow> (Inl (Errorf [Lit ''consul: discover service '', PQ name, Lit '': '', PW err]), s1)
      | (Inr (entries, lastIndex), s1) \<Rightarrow> (Inr (map toInstance entries), s1))"

datatype watch_event = WatchQuery "64 word" | WatchEmit "64 word" "inst list"

datatype watch_status = Closed | Watching "64 word"

fun watch_loop :: "nat \<Rightarrow> 's consul_api \<Rightarrow> ctx \<Rightarrow> string \<Rightarrow> 64 word \<Rightarrow> 's \<Rightarrow>
    watch_event list \<times> watch_status \<times> 's" where
  "watch_loop 0 api ctx name waitIndex s = ([], Watching waitIndex, s)"
| "watch_loop (Suc n) api ctx name waitIndex s =
     (case api_health api name True waitIndex ctx s of
        (Inl err, s1) \<Rightarrow>
          if api_ctx_err api ctx s1 then ([WatchQuery waitIndex], Closed, s1)
          else (case api_pause api ctx (5 * second) s1 of
                  (True, s2) \<Rightarrow> ([WatchQuery waitIndex], Closed, s2)
                | (False, s2) \<Rightarrow> apfst ((#) (WatchQuery waitIndex)) (watch_loop n api ctx name waitIndex s2))
      | (Inr (entries, lastIndex), s1) \<Rightarrow>
          let instances = map toInstance entries in
          if lastIndex \<noteq> waitIndex then
            (case api_send api ctx instances s1 of
               (True, s2) \<Rightarrow> ([WatchQuery waitIndex], Closed, s2)
             | (False, s2) \<Rightarrow>
                 apfst (\<lambda>tr. WatchQuery waitIndex # WatchEmit lastIndex instances # tr)
                   (watch_loop n api ctx name lastIndex s2))
          else apfst ((#) (WatchQuery waitIndex)) (watch_loop n api ctx name waitIndex s1))"

text \<open>\<open>Watch\<close> makes the channel, starts the goroutine with wait index 0, and never fails.\<close>

definition Consul_Watch :: "nat \<Rightarrow> 's consul_api \<Rightarrow> ctx \<Rightarrow> string \<Rightarrow> 's \<Rightarrow> watch_event list \<times> watch_status \<times> 's" where
  "Consul_Watch n api ctx name s = watch_loop n api ctx name 0 s"

definition consul_registry :: "(ctx \<Rightarrow> string \<Rightarrow> 's \<Rightarrow> nat \<times> 's) \<Rightarrow> 's consul_api \<Rightarrow> 's registry" where
  "consul_registry spawn api =
     \<lparr>reg_register = Consul_Register api, reg_deregister = Consul_Deregister api,
      reg_discover = Consul_Discover api, reg_watch = (\<lambda>ctx name s. apfst Inr (spawn ctx name s))\<rparr>"

section \<open>What a watch emits\<close>

text \<open>
  Every query waits on the index of the last update sent (0 before the first), and an update is
  sent only when the index differs from it.
\<close>

fun watch_ok :: "64 word \<Rightarrow> watch_event list \<Rightarrow> bool" where
  "watch_ok w [] = True"
| "watch_ok w (WatchQuery i # tr) = (i = w \<and> watch_ok w tr)"
| "watch_ok w (WatchEmit j xs # tr) = (j \<noteq> w \<and> watch_ok j tr)"

lemma watch_loop_ok: "watch_loop n api ctx name w s = (tr, st, t) \<Longrightarrow> watch_ok w tr"
proof (induction n arbitrary: w s tr)
  case (Suc n)
  obtain d s1 where q: "api_health api name True w ctx s = (d, s1)" by (cases "api_health api name True w ctx s")
  show ?case
  proof (cases d)
    case (Inl err)
    with Suc.prems q show ?thesis
      by (auto simp: apfst_def map_prod_def dest!: Suc.IH split: if_splits prod.splits bool.splits)
  next
    case (Inr el)
    with Suc.prems q show ?thesis
      by (cases el) (auto simp: apfst_def map_prod_def Let_def dest!: Suc.IH split: if_splits prod.splits bool.splits)
  qed
qed simp

text \<open>Running longer extends what was observed.\<close>

lemma watch_loop_mono:
  "watch_loop n api ctx name w s = (tr, st, t) \<Longrightarrow>
     \<exists>tr' st' t'. watch_loop (n + m) api ctx name w s = (tr @ tr', st', t') \<and> (st = Closed \<longrightarrow> tr' = [] \<and> st' = Closed)"
proof (induction n arbitrary: w s tr)
  case 0
  then show ?case by (cases "watch_loop m api ctx name w s") auto
next
  case (Suc n)
  obtain d s1 where q: "api_health api name True w ctx s = (d, s1)" by (cases "api_health api name True w ctx s")
  obtain p s2 where pa: "api_pause api ctx (5 * second) s1 = (p, s2)" by (cases "api_pause api ctx (5 * second) s1")
  show ?case
  proof (cases d)
    case (Inl err)
    with Suc.prems q pa Suc.IH[of w s2] show ?thesis
      by (cases p; cases "api_ctx_err api ctx s1") (auto simp: apfst_def map_prod_def split: prod.splits)
  next
    case (Inr el)
    obtain es li where el: "el = (es, li)" by (cases el)
    obtain b s3 where sn: "api_send api ctx (map toInstance es) s1 = (b, s3)" by (cases "api_send api ctx (map toInstance es) s1")
    with Suc.prems q Inr el Suc.IH[of li s3] Suc.IH[of w s1] show ?thesis
      by (cases b; cases "li = w") (auto simp: apfst_def map_prod_def Let_def split: prod.splits)
  qed
qed

section \<open>Properties\<close>

text \<open>However long it runs, a Consul watch sends an update only when Consul's index changed, waits
  on the index of the last update it sent, and once it has closed its channel it stays closed; it
  closes it at the first failing query after its context ended.\<close>

lemma Consul_Watch_emits_changes:
  "case Consul_Watch n api ctx name s of
     (tr, st, t) \<Rightarrow> watch_ok 0 tr \<and>
       (st = Closed \<longrightarrow> (\<forall>m. \<exists>t'. Consul_Watch (n + m) api ctx name s = (tr, Closed, t'))) \<and>
       (\<forall>w e u. st = Watching w \<longrightarrow> api_health api name True w ctx t = (Inl e, u) \<longrightarrow> api_ctx_err api ctx u \<longrightarrow>
          watch_loop 1 api ctx name w t = ([WatchQuery w], Closed, u))"
proof -
  obtain tr st t where w: "Consul_Watch n api ctx name s = (tr, st, t)" by (rule prod_cases3)
  have "\<exists>t'. Consul_Watch (n + m) api ctx name s = (tr, Closed, t')" if "st = Closed" for m
    using watch_loop_mono[OF w[unfolded Consul_Watch_def], of m] that by (auto simp: Consul_Watch_def)
  with w watch_loop_ok[OF w[unfolded Consul_Watch_def]] show ?thesis by simp
qed

text \<open>A Consul agent with one passing instance; the world counts the calls.\<close>

definition demo_entry :: service_entry where
  "demo_entry = \<lparr>se_ID = ''a'', se_Service = ''svc'', se_Address = ''10.0.0.1'', se_Port = 80, se_Tags = [], se_Meta = []\<rparr>"

definition demo_consul :: "nat consul_api" where
  "demo_consul = \<lparr>api_new_client = (\<lambda>a t. Inr 1), api_register = (\<lambda>r c n. (None, Suc n)),
     api_update_ttl = (\<lambda>i x y n. (None, Suc n)), api_deregister = (\<lambda>i c n. (None, Suc n)),
     api_health = (\<lambda>name p w c n. (if n < 2 then Inr ([demo_entry], 7) else Inl (ErrNew ''cancelled''), Suc n)),
     api_ctx_err = (\<lambda>c n. 2 < n), api_pause = (\<lambda>c d n. (False, n)), api_send = (\<lambda>c xs n. (False, n))\<rparr>"

text \<open>Picking over Consul: with the cache expired or empty, an error of the Consul API is in the
  error chain \<open>Pick\<close> returns, and otherwise the picked instance is the conversion of one of the
  entries Consul reported as passing.\<close>

lemma Pick_over_consul:
  assumes "getOrCreateCache r service = (sc, r0)" and "\<not> (cache_valid now r0 sc s \<and> sc_instances sc \<noteq> [])"
    and "api_health api service True 0 ctx s = (d, s1)"
    and "\<And>es i. d = Inr (es, i) \<Longrightarrow> es \<noteq> [] \<and> length es < 2 ^ 64"
  shows "case d of
      Inl e \<Rightarrow> \<exists>err. fst (Pick now (consul_registry spawn api) ctx service (r, s)) = Inl err \<and> errors_Is err e
    | Inr (es, i) \<Rightarrow> \<exists>en \<in> set es. fst (Pick now (consul_registry spawn api) ctx service (r, s)) = Inr (toInstance en)"
proof (cases d)
  case (Inl e)
  let ?ce = "Errorf [Lit ''consul: discover service '', PQ service, Lit '': '', PW e]"
  have "reg_discover (consul_registry spawn api) ctx service s = (Inl ?ce, s1)"
    using assms(3) Inl by (simp add: consul_registry_def Consul_Discover_def)
  from Pick_refresh_error[OF assms(1,2) this]
  have "fst (Pick now (consul_registry spawn api) ctx service (r, s)) =
      Inl (Errorf [Lit ''discovery: resolve '', PQ service, Lit '': '', PW ?ce])" by simp
  moreover have "errors_Is ?ce e" by (rule errors_Is_PW[of e]) simp_all
  then have "errors_Is (Errorf [Lit ''discovery: resolve '', PQ service, Lit '': '', PW ?ce]) e"
    by (rule errors_Is_PW[rotated]) simp
  ultimately show ?thesis using Inl by simp
next
  case (Inr ei)
  obtain es i where ei: "ei = (es, i)" by (cases ei)
  with Inr assms(4) have es: "es \<noteq> []" "length es < 2 ^ 64" by simp_all
  have "reg_discover (consul_registry spawn api) ctx service s = (Inr (map toInstance es), s1)"
    using assms(3) Inr ei by (simp add: consul_registry_def Consul_Discover_def)
  from Pick_refresh_ok[OF assms(1,2) this] es
  have "fst (Pick now (consul_registry spawn api) ctx service (r, s)) = Inr (toInstance (es ! (unat (sc_index sc) mod length es)))"
    by simp
  moreover have "es ! (unat (sc_index sc) mod length es) \<in> set es" using es by simp
  ultimately show ?thesis using Inr ei by auto
qed

end
