(* ===== verification/Recorder.thy ===== *)
theory Recorder
  imports Http
begin

text \<open>
  \<open>httptest.ResponseRecorder\<close>, which the idempotency middleware hands to the wrapped handler, and how
  it compares with the writer of \<open>net/http\<close>.

  The recorder takes the first status it is given, informational or not, keeps a snapshot of the
  header map from that moment, and keeps every byte of the body. Without a status call the first
  write sets a detected content type unless the handler has set one. How \<open>encoding/json\<close> writes a
  value and how \<open>http.DetectContentType\<close> guesses are the parameters \<open>lib\<close>.
\<close>

section \<open>Bytes\<close>

record http_lib =
  hl_encode :: "json \<Rightarrow> string"
  hl_detect :: "string \<Rightarrow> string"

fun chunk_bytes :: "http_lib \<Rightarrow> chunk \<Rightarrow> string" where
  "chunk_bytes lib (Bytes b) = b"
| "chunk_bytes lib (JSONLine j) = hl_encode lib j @ newline"

text \<open>What the client receives, with the body in bytes.\<close>

record response =
  rs_status :: int
  rs_header :: header
  rs_body :: string

definition received :: "http_lib \<Rightarrow> write_call list \<Rightarrow> response" where
  "received lib ws = \<lparr>rs_status = sr_status (sent ws), rs_header = sr_header (sent ws),
     rs_body = concat (map (chunk_bytes lib) (sr_body (sent ws)))\<rparr>"

section \<open>Header maps built by calls\<close>

text \<open>A header map that was built by \<open>Set\<close>, \<open>Add\<close> and \<open>Del\<close>: every key once and canonical, with at least one value.\<close>

definition wf_header :: "header \<Rightarrow> bool" where
  "wf_header h \<longleftrightarrow> distinct (map fst h) \<and> (\<forall>(k, vs) \<in> set h. CanonicalKey k = k \<and> vs \<noteq> [])"

lemma of_char_upper: "of_char (upper c) = (let n = of_char c :: nat in if 97 \<le> n \<and> n \<le> 122 then n - 32 else n)"
  by (auto simp: upper_def Let_def)

lemma of_char_lower: "of_char (lower c) = (let n = of_char c :: nat in if 65 \<le> n \<and> n \<le> 90 then n + 32 else n)"
  by (simp add: lower_def Let_def)

lemma char_eq_nat: "c = d \<longleftrightarrow> (of_char c :: nat) = of_char d"
  by simp

lemma upper_upper [simp]: "upper (upper c) = upper c"
  unfolding char_eq_nat of_char_upper Let_def by auto

lemma lower_lower [simp]: "lower (lower c) = lower c"
  unfolding char_eq_nat of_char_lower Let_def by auto

lemma case_hyphen: "upper c = CHR ''-'' \<longleftrightarrow> c = CHR ''-''" "lower c = CHR ''-'' \<longleftrightarrow> c = CHR ''-''"
proof -
  have h: "(of_char CHR ''-'' :: nat) = 45" by simp
  show "upper c = CHR ''-'' \<longleftrightarrow> c = CHR ''-''" "lower c = CHR ''-'' \<longleftrightarrow> c = CHR ''-''"
    unfolding char_eq_nat of_char_upper of_char_lower Let_def h by auto
qed

lemma canon_from_canon_from: "canon_from up (canon_from up k) = canon_from up k"
  by (induction up k rule: canon_from.induct) (auto simp: case_hyphen)

lemma token_char_case: "token_char c \<Longrightarrow> token_char (upper c)" "token_char c \<Longrightarrow> token_char (lower c)"
proof -
  have "upper c = c \<or> 65 \<le> (of_char (upper c) :: nat) \<and> (of_char (upper c) :: nat) \<le> 90"
    "lower c = c \<or> 97 \<le> (of_char (lower c) :: nat) \<and> (of_char (lower c) :: nat) \<le> 122"
    unfolding char_eq_nat of_char_upper of_char_lower Let_def by auto
  then show "token_char c \<Longrightarrow> token_char (upper c)" "token_char c \<Longrightarrow> token_char (lower c)"
    by (auto simp: token_char_def Let_def)
qed

lemma token_canon: "list_all token_char k \<Longrightarrow> list_all token_char (canon_from up k)"
  by (induction up k rule: canon_from.induct) (auto simp: token_char_case)

lemma CanonicalKey_idem [simp]: "CanonicalKey (CanonicalKey k) = CanonicalKey k"
  by (simp add: CanonicalKey_def token_canon canon_from_canon_from)

lemma update_entries: "set (AList.update k v h) \<subseteq> insert (k, v) (set h)"
  by (induction h) auto

lemma wf_header_update:
  "wf_header h \<Longrightarrow> vs \<noteq> [] \<Longrightarrow> wf_header (AList.update (CanonicalKey k) vs h)"
  using distinct_update[of h "CanonicalKey k" vs] update_entries[of "CanonicalKey k" vs h]
  by (fastforce simp: wf_header_def)

lemma wf_header_delete: "wf_header h \<Longrightarrow> wf_header (AList.delete k h)"
  using distinct_delete[of h k] by (auto simp: wf_header_def AList.delete_eq)

lemma wf_header_calls:
  "wf_header h \<Longrightarrow> wf_header (Header_Set k v h)" "wf_header h \<Longrightarrow> wf_header (Header_Add k v h)"
  "wf_header h \<Longrightarrow> wf_header (Header_Del k h)"
  by (simp_all add: Header_Set_def Header_Add_def Header_Del_def wf_header_update wf_header_delete)

lemma wf_header_Nil [simp]: "wf_header []"
  by (simp add: wf_header_def)

section \<open>The recorder\<close>

text \<open>The flag \<open>wroteHeader\<close> is set exactly when the snapshot is taken.\<close>

record recorder =
  rr_Code :: int
  rr_HeaderMap :: header
  rr_snapHeader :: "header option"
  rr_Body :: string

definition NewRecorder :: recorder where
  "NewRecorder = \<lparr>rr_Code = StatusOK, rr_HeaderMap = [], rr_snapHeader = None, rr_Body = []\<rparr>"

definition rec_WriteHeader :: "int \<Rightarrow> recorder \<Rightarrow> recorder" where
  "rec_WriteHeader code rec =
     (if rr_snapHeader rec = None then rec\<lparr>rr_Code := code, rr_snapHeader := Some (rr_HeaderMap rec)\<rparr> else rec)"

definition rec_writeHeader :: "http_lib \<Rightarrow> string \<Rightarrow> recorder \<Rightarrow> recorder" where
  "rec_writeHeader lib b rec =
     (if rr_snapHeader rec \<noteq> None then rec
      else let m = rr_HeaderMap rec;
               m1 = (if map_of m ''Content-Type'' = None \<and> Header_Get m ''Transfer-Encoding'' = []
                     then Header_Set ''Content-Type'' (hl_detect lib b) m else m)
           in rec_WriteHeader StatusOK (rec\<lparr>rr_HeaderMap := m1\<rparr>))"

fun rec_call :: "http_lib \<Rightarrow> write_call \<Rightarrow> recorder \<Rightarrow> recorder" where
  "rec_call lib (SetHeader k v) rec = rec\<lparr>rr_HeaderMap := Header_Set k v (rr_HeaderMap rec)\<rparr>"
| "rec_call lib (AddHeader k v) rec = rec\<lparr>rr_HeaderMap := Header_Add k v (rr_HeaderMap rec)\<rparr>"
| "rec_call lib (DelHeader k) rec = rec\<lparr>rr_HeaderMap := Header_Del k (rr_HeaderMap rec)\<rparr>"
| "rec_call lib (WriteHeader code) rec = rec_WriteHeader code rec"
| "rec_call lib (Write b) rec =
     (let rec1 = rec_writeHeader lib (chunk_bytes lib b) rec
      in rec1\<lparr>rr_Body := rr_Body rec1 @ chunk_bytes lib b\<rparr>)"

text \<open>\<open>Result\<close> and the bytes of the buffer.\<close>

definition rec_Result :: "recorder \<Rightarrow> response" where
  "rec_Result rec = \<lparr>rs_status = rr_Code rec,
     rs_header = (case rr_snapHeader rec of None \<Rightarrow> rr_HeaderMap rec | Some h \<Rightarrow> h), rs_body = rr_Body rec\<rparr>"

definition recorded :: "http_lib \<Rightarrow> write_call list \<Rightarrow> response" where
  "recorded lib ws = rec_Result (fold (rec_call lib) ws NewRecorder)"

section \<open>Recorder and writer\<close>

definition wf_recorder :: "recorder \<Rightarrow> bool" where
  "wf_recorder rec \<longleftrightarrow> wf_header (rr_HeaderMap rec) \<and> (\<forall>h. rr_snapHeader rec = Some h \<longrightarrow> wf_header h)"

lemma wf_rec_call: "wf_recorder rec \<Longrightarrow> wf_recorder (rec_call lib c rec)"
  by (cases c) (auto simp: wf_recorder_def rec_WriteHeader_def rec_writeHeader_def Let_def wf_header_calls)

lemma wf_rec_calls: "wf_recorder rec \<Longrightarrow> wf_recorder (fold (rec_call lib) ws rec)"
  by (induction ws arbitrary: rec) (simp_all add: wf_rec_call)

lemma wf_recorded: "wf_header (rs_header (recorded lib ws))"
  using wf_rec_calls[of NewRecorder lib ws]
  by (auto simp: recorded_def rec_Result_def NewRecorder_def wf_recorder_def split: option.split)

text \<open>The status codes \<open>net/http\<close> accepts.\<close>

definition valid_calls :: "write_call list \<Rightarrow> bool" where
  "valid_calls ws \<longleftrightarrow> (\<forall>c. WriteHeader c \<in> set ws \<longrightarrow> 100 \<le> c \<and> c \<le> 999)"

lemma rec_calls_status:
  "valid_calls ws \<Longrightarrow> 100 \<le> rr_Code rec \<Longrightarrow> 100 \<le> rr_Code (fold (rec_call lib) ws rec)"
proof (induction ws arbitrary: rec)
  case (Cons c ws)
  then have "100 \<le> rr_Code (rec_call lib c rec)"
    by (cases c) (auto simp: valid_calls_def rec_WriteHeader_def rec_writeHeader_def Let_def StatusOK_def)
  with Cons show ?case by (simp add: valid_calls_def)
qed simp

lemma recorded_status: "valid_calls ws \<Longrightarrow> rs_status (recorded lib ws) \<noteq> 0"
  using rec_calls_status[of ws NewRecorder lib] by (simp add: recorded_def rec_Result_def NewRecorder_def StatusOK_def)

text \<open>Header maps that agree but for a content type that only the second one has.\<close>

definition agree :: "header \<Rightarrow> header \<Rightarrow> bool" where
  "agree h h' \<longleftrightarrow> (\<forall>k. map_of h' k = map_of h k \<or> k = ''Content-Type'' \<and> map_of h k = None)"

lemma agree_refl [simp]: "agree h h"
  by (simp add: agree_def)

lemma agree_detect: "map_of h ''Content-Type'' = None \<Longrightarrow> agree h (Header_Set ''Content-Type'' v h)"
proof -
  have "CanonicalKey ''Content-Type'' = ''Content-Type''"
    by (simp add: CanonicalKey_def token_char_def upper_def lower_def)
  then show "map_of h ''Content-Type'' = None \<Longrightarrow> agree h (Header_Set ''Content-Type'' v h)"
    by (simp add: agree_def Header_Set_def update_conv')
qed

text \<open>The recorder follows the writer as long as no informational status is sent.\<close>

definition follows :: "http_lib \<Rightarrow> net_writer \<Rightarrow> recorder \<Rightarrow> bool" where
  "follows lib w rec \<longleftrightarrow>
     (case nw_sent w of
        None \<Rightarrow> rr_HeaderMap rec = nw_header w \<and> rr_snapHeader rec = None \<and> rr_Code rec = StatusOK \<and>
          rr_Body rec = [] \<and> nw_body w = []
      | Some (code, h) \<Rightarrow> rr_Code rec = code \<and> (\<exists>h'. rr_snapHeader rec = Some h' \<and> agree h h') \<and>
          concat (map (chunk_bytes lib) (nw_body w)) = (if bodyAllowedForStatus code then rr_Body rec else []))"

lemma follows_call:
  assumes "follows lib w rec" and "\<forall>code. c = WriteHeader code \<longrightarrow> \<not> informational code"
  shows "follows lib (net_call c w) (rec_call lib c rec)"
proof (cases c)
  case (Write b)
  show ?thesis
  proof (cases "nw_sent w")
    case None
    with assms(1) have "agree (nw_header w) (rr_HeaderMap (rec_writeHeader lib (chunk_bytes lib b) rec))"
      by (auto simp: follows_def rec_writeHeader_def rec_WriteHeader_def Let_def agree_detect)
    with None assms(1) Write show ?thesis
      by (auto simp: follows_def rec_writeHeader_def rec_WriteHeader_def send_header_def send_chunk_def
          Let_def bodyAllowedForStatus_def StatusOK_def)
  qed (use assms(1) Write in \<open>auto simp: follows_def rec_writeHeader_def send_header_def send_chunk_def split: prod.splits\<close>)
qed (use assms in \<open>auto simp: follows_def rec_WriteHeader_def send_header_def split: option.splits\<close>)

lemma follows_calls:
  "follows lib w rec \<Longrightarrow> \<forall>code. WriteHeader code \<in> set ws \<longrightarrow> \<not> informational code \<Longrightarrow>
     follows lib (fold net_call ws w) (fold (rec_call lib) ws rec)"
  by (induction ws arbitrary: w rec) (simp_all add: follows_call)

lemma recorded_follows:
  assumes "\<forall>code. WriteHeader code \<in> set ws \<longrightarrow> \<not> informational code"
  shows "rs_status (recorded lib ws) = rs_status (received lib ws)"
    and "agree (rs_header (received lib ws)) (rs_header (recorded lib ws))"
    and "rs_body (received lib ws) =
      (if bodyAllowedForStatus (rs_status (received lib ws)) then rs_body (recorded lib ws) else [])"
proof -
  have "follows lib (fold net_call ws new_writer) (fold (rec_call lib) ws NewRecorder)"
    by (rule follows_calls[OF _ assms]) (simp add: follows_def new_writer_def NewRecorder_def)
  then show "rs_status (recorded lib ws) = rs_status (received lib ws)"
    "agree (rs_header (received lib ws)) (rs_header (recorded lib ws))"
    "rs_body (received lib ws) =
      (if bodyAllowedForStatus (rs_status (received lib ws)) then rs_body (recorded lib ws) else [])"
    by (auto simp: follows_def recorded_def received_def sent_def rec_Result_def send_header_def Let_def split: option.splits prod.splits)
qed

end
