(* ===== verification/Idempotency.thy ===== *)
theory Idempotency
  imports Redis Recorder
begin

text \<open>
  The idempotency middleware, \<open>src/pkg/server/idempotency.go\<close>, on its store interface, the Redis
  client as that store, and the middleware's behaviour under concurrent requests.

  A handler is the calls it makes on its response writer (theory \<open>Http\<close>); the middleware runs the
  wrapped handler on a recorder (theory \<open>Recorder\<close>). The sequential model \<open>IdempotencyMiddleware\<close> runs
  one request to its end. The step relation \<open>idem_step\<close> splits it at its store operations, which are
  atomic, and interleaves any number of requests; both use the same \<open>capture\<close>, \<open>replay\<close> and
  \<open>cached_calls\<close>, and a request that runs alone is a run of the step relation. Header values are taken
  to be valid UTF-8, which is all \<open>encoding/json\<close> keeps of them.
\<close>

section \<open>Cached responses\<close>

record cachedResponse =
  cr_StatusCode :: int
  cr_Headers :: "(string \<times> string) list"
  cr_Body :: string

record 's idem_store =
  st_SetNX :: "ctx \<Rightarrow> string \<Rightarrow> json \<Rightarrow> int \<Rightarrow> 's \<Rightarrow> (goerr + bool) \<times> 's"
  st_Get :: "ctx \<Rightarrow> string \<Rightarrow> 's \<Rightarrow> (goerr + json) \<times> 's"
  st_Set :: "ctx \<Rightarrow> string \<Rightarrow> json \<Rightarrow> int \<Rightarrow> 's fallible"

definition processing :: json where
  "processing = JString ''processing''"

text \<open>\<open>headers[k] = result.Header.Get(k)\<close> for every key: one value per header.\<close>

definition capture :: "response \<Rightarrow> cachedResponse" where
  "capture result =
     \<lparr>cr_StatusCode = rs_status result,
      cr_Headers = map (\<lambda>(k, vs). (k, Header_Get (rs_header result) k)) (rs_header result),
      cr_Body = rs_body result\<rparr>"

definition cached_calls :: "cachedResponse \<Rightarrow> write_call list" where
  "cached_calls c =
     map (\<lambda>(k, v). SetHeader k v) (cr_Headers c) @ [WriteHeader (cr_StatusCode c), Write (Bytes (cr_Body c))]"

text \<open>\<open>json.Marshal\<close> and \<open>json.Unmarshal\<close> at the type \<open>cachedResponse\<close>; an empty body is a nil slice.\<close>

definition marshal_cached :: "cachedResponse \<Rightarrow> json" where
  "marshal_cached c =
     JObj [(''status_code'', JNum (cr_StatusCode c)),
           (''headers'', JObj (map (\<lambda>(k, v). (k, JString v)) (cr_Headers c))),
           (''body'', if cr_Body c = [] then JNull else JBytes (cr_Body c))]"

definition type_error :: goerr where
  "type_error = ErrNew ''json: cannot unmarshal''"

fun decode_headers :: "(string \<times> json) list \<Rightarrow> (string \<times> string) list \<Rightarrow> goerr + (string \<times> string) list" where
  "decode_headers [] acc = Inr acc"
| "decode_headers ((k, j) # fs) acc =
     (case j of
        JString v \<Rightarrow> decode_headers fs (AList.update k v acc)
      | JNull \<Rightarrow> decode_headers fs (AList.update k [] acc)
      | _ \<Rightarrow> Inl type_error)"

definition decode_field :: "string \<Rightarrow> json \<Rightarrow> cachedResponse \<Rightarrow> goerr + cachedResponse" where
  "decode_field f j c =
     (if f = ''status_code'' then
        (case j of JNum n \<Rightarrow> Inr (c\<lparr>cr_StatusCode := n\<rparr>) | JNull \<Rightarrow> Inr c | _ \<Rightarrow> Inl type_error)
      else if f = ''headers'' then
        (case j of JObj fs \<Rightarrow> (case decode_headers fs (cr_Headers c) of Inl e \<Rightarrow> Inl e | Inr hs \<Rightarrow> Inr (c\<lparr>cr_Headers := hs\<rparr>))
         | JNull \<Rightarrow> Inr (c\<lparr>cr_Headers := []\<rparr>) | _ \<Rightarrow> Inl type_error)
      else if f = ''body'' then
        (case j of JBytes b \<Rightarrow> Inr (c\<lparr>cr_Body := b\<rparr>) | JNull \<Rightarrow> Inr (c\<lparr>cr_Body := []\<rparr>) | _ \<Rightarrow> Inl type_error)
      else Inr c)"

fun decode_fields :: "(string \<times> json) list \<Rightarrow> cachedResponse \<Rightarrow> goerr + cachedResponse" where
  "decode_fields [] c = Inr c"
| "decode_fields ((f, j) # fs) c =
     (case decode_field f j c of Inl e \<Rightarrow> Inl e | Inr c' \<Rightarrow> decode_fields fs c')"

definition unmarshal_cached :: "json \<Rightarrow> goerr + cachedResponse" where
  "unmarshal_cached j =
     (let zero = \<lparr>cr_StatusCode = 0, cr_Headers = [], cr_Body = []\<rparr> in
      case j of JObj fs \<Rightarrow> decode_fields fs zero | JNull \<Rightarrow> Inr zero | _ \<Rightarrow> Inl type_error)"

section \<open>The middleware\<close>

definition conflict :: "write_call list" where
  "conflict =
     [SetHeader ''Content-Type'' ''application/json'', WriteHeader StatusConflict,
      Write (Bytes ([CHR 0x7B, CHR 0x22] @ ''error'' @ [CHR 0x22, CHR 0x3A, CHR 0x22] @
        ''concurrent request with same idempotency key'' @ [CHR 0x22, CHR 0x7D]))]"

definition store_error :: "write_call list" where
  "store_error =
     http_Error ([CHR 0x7B, CHR 0x22] @ ''error'' @ [CHR 0x22, CHR 0x3A, CHR 0x22] @
       ''idempotency store error'' @ [CHR 0x22, CHR 0x7D]) StatusInternalServerError"

text \<open>The answer to a duplicate, from the stored value.\<close>

definition replay :: "json \<Rightarrow> write_call list" where
  "replay raw =
     (case unmarshal_cached raw of
        Inr cached \<Rightarrow> if cr_StatusCode cached \<noteq> 0 then cached_calls cached else conflict
      | Inl err \<Rightarrow> conflict)"

definition store_key :: "request \<Rightarrow> string option" where
  "store_key r = (let key = Header_Get (rq_header r) ''Idempotency-Key'' in
     if key = [] then None else Some (''idem:'' @ key))"

text \<open>A panic of the wrapped handler passes through: what it wrote is in the recorder, and nothing of it
  reaches the client.\<close>

definition IdempotencyMiddleware :: "http_lib \<Rightarrow> 's idem_store \<Rightarrow> int \<Rightarrow> 's raw_handler \<Rightarrow> 's raw_handler" where
  "IdempotencyMiddleware lib store ttl nxt r s =
     (case store_key r of
        None \<Rightarrow> nxt r s
      | Some k \<Rightarrow>
          (case st_SetNX store (rq_ctx r) k processing ttl s of
             (Inl err, s1) \<Rightarrow> ((store_error, False), s1)
           | (Inr True, s1) \<Rightarrow>
               (case nxt r s1 of
                  ((ws, panicked), s2) \<Rightarrow>
                    if panicked then (([], True), s2)
                    else let cached = capture (recorded lib ws);
                             s3 = snd (st_Set store (rq_ctx r) k (marshal_cached cached) ttl s2)
                         in ((cached_calls cached, False), s3))
           | (Inr False, s1) \<Rightarrow>
               (case st_Get store (rq_ctx r) k s1 of
                  (Inl err, s2) \<Rightarrow> ((store_error, False), s2)
                | (Inr raw, s2) \<Rightarrow> ((replay raw, False), s2))))"

text \<open>The Redis client as the store; \<open>Get\<close> into a \<open>json.RawMessage\<close> keeps the value as it is.\<close>

definition redis_store :: "'s goredis \<Rightarrow> redis_client \<Rightarrow> 's idem_store" where
  "redis_store ops c =
     \<lparr>st_SetNX = (\<lambda>ctx k v ttl. Redis_SetNX ops c ctx k (Inr v) ttl),
      st_Get = (\<lambda>ctx k. Redis_Get ops c ctx k Inr),
      st_Set = (\<lambda>ctx k v ttl. Redis_Set ops c ctx k (Inr v) ttl)\<rparr>"

section \<open>Storing and reading back\<close>

lemma decode_headers_marshal:
  "distinct (map fst hs) \<Longrightarrow> fst ` set hs \<inter> fst ` set acc = {} \<Longrightarrow>
     decode_headers (map (\<lambda>(k, v). (k, JString v)) hs) acc = Inr (acc @ hs)"
proof (induction hs arbitrary: acc)
  case (Cons h hs)
  obtain k v where h: "h = (k, v)" by (cases h)
  with Cons.prems have "AList.update k v acc = acc @ [(k, v)]" by (intro update_new_key) auto
  with Cons h show ?case by auto
qed simp

lemma unmarshal_marshal_cached:
  "distinct (map fst (cr_Headers c)) \<Longrightarrow> unmarshal_cached (marshal_cached c) = Inr c"
  by (simp add: unmarshal_cached_def marshal_cached_def decode_field_def decode_headers_marshal)

lemma capture_keys: "map fst (cr_Headers (capture res)) = map fst (rs_header res)"
  by (simp add: capture_def case_prod_beta)

lemma replay_captured:
  assumes "valid_calls ws"
  shows "replay (marshal_cached (capture (recorded lib ws))) = cached_calls (capture (recorded lib ws))"
proof -
  have "unmarshal_cached (marshal_cached (capture (recorded lib ws))) = Inr (capture (recorded lib ws))"
    using wf_recorded[of lib ws] by (intro unmarshal_marshal_cached) (simp add: wf_header_def capture_keys)
  with recorded_status[OF assms] show ?thesis by (simp add: replay_def capture_def)
qed

lemma replay_processing: "replay processing = conflict"
  by (simp add: replay_def processing_def unmarshal_cached_def)

section \<open>What the client receives\<close>

lemma set_headers:
  "distinct (map fst (nw_header w) @ map fst hs) \<Longrightarrow> \<forall>(k, v) \<in> set hs. CanonicalKey k = k \<Longrightarrow>
     fold net_call (map (\<lambda>(k, v). SetHeader k v) hs) w = w\<lparr>nw_header := nw_header w @ map (\<lambda>(k, v). (k, [v])) hs\<rparr>"
proof (induction hs arbitrary: w)
  case (Cons x hs)
  obtain k v where x: "x = (k, v)" by (cases x)
  have "Header_Set k v (nw_header w) = nw_header w @ [(k, [v])]"
    using Cons.prems x by (simp add: Header_Set_def update_new_key)
  moreover have "fold net_call (map (\<lambda>(k, v). SetHeader k v) hs) (w\<lparr>nw_header := nw_header w @ [(k, [v])]\<rparr>) =
      w\<lparr>nw_header := (nw_header w @ [(k, [v])]) @ map (\<lambda>(k, v). (k, [v])) hs\<rparr>"
    using Cons.IH[of "w\<lparr>nw_header := nw_header w @ [(k, [v])]\<rparr>"] Cons.prems x by auto
  ultimately show ?case using x by simp
qed simp

text \<open>A replayed response is the recorded one, with the first value of every header.\<close>

lemma received_cached:
  assumes "wf_header (rs_header res)" and "\<not> informational (rs_status res)"
  shows "received lib (cached_calls (capture res)) =
    \<lparr>rs_status = rs_status res, rs_header = map (\<lambda>(k, vs). (k, take 1 vs)) (rs_header res),
     rs_body = if bodyAllowedForStatus (rs_status res) then rs_body res else []\<rparr>"
proof -
  have get: "Header_Get (rs_header res) k = hd vs" if "(k, vs) \<in> set (rs_header res)" for k vs
  proof -
    have "CanonicalKey k = k" "vs \<noteq> []" "map_of (rs_header res) k = Some vs"
      using assms(1) that by (auto simp: wf_header_def)
    then show ?thesis by (cases vs) (simp_all add: Header_Get_def)
  qed
  have hs: "map (\<lambda>(k, v). (k, [v])) (cr_Headers (capture res)) = map (\<lambda>(k, vs). (k, take 1 vs)) (rs_header res)"
  proof -
    have "take 1 vs = [hd vs]" if "(k, vs) \<in> set (rs_header res)" for k vs
      using assms(1) that by (cases vs) (auto simp: wf_header_def)
    with get show ?thesis by (auto simp: capture_def)
  qed
  have "distinct (map fst (cr_Headers (capture res)))" "\<forall>(k, v) \<in> set (cr_Headers (capture res)). CanonicalKey k = k"
    using assms(1) unfolding capture_keys by (auto simp: wf_header_def capture_def)
  then have "fold net_call (map (\<lambda>(k, v). SetHeader k v) (cr_Headers (capture res))) new_writer =
      new_writer\<lparr>nw_header := map (\<lambda>(k, vs). (k, take 1 vs)) (rs_header res)\<rparr>"
    using set_headers[of new_writer "cr_Headers (capture res)"] by (simp add: new_writer_def hs)
  with assms(2) show ?thesis
    by (simp add: received_def sent_def cached_calls_def new_writer_def send_header_def send_chunk_def Let_def capture_def)
qed

lemma not_informational_sent:
  "\<forall>code. WriteHeader code \<in> set ws \<longrightarrow> \<not> informational code \<Longrightarrow> \<not> informational (sent_status ws)"
  by (induction ws rule: sent_status.induct) (auto simp: informational_def StatusOK_def)

section \<open>Concurrent requests\<close>

text \<open>
  A request that carries an idempotency key, at the points between its store operations. The store
  is the map of keys to values; \<open>runs\<close> counts the handler's executions for a key and \<open>answers\<close> keeps
  what the handler answered in each of them. Every store operation may fail, before or after it took effect, and
  the handler may panic. A key may expire between any two steps, also while its handler is still
  running; \<open>expired\<close> counts how often it did.
\<close>

datatype idem_pc =
    Arrived string                 \<comment> \<open>before \<open>SetNX\<close>\<close>
  | Running string                 \<comment> \<open>\<open>SetNX\<close> returned true, handler not yet called\<close>
  | Captured string "write_call list"       \<comment> \<open>handler returned, before \<open>Set\<close>\<close>
  | Losing string                  \<comment> \<open>\<open>SetNX\<close> returned false, before \<open>Get\<close>\<close>
  | Answered string "write_call list"
  | Panicked string

record idem_state =
  is_db :: "string \<Rightarrow> json option"
  is_threads :: "nat \<Rightarrow> idem_pc option"
  is_runs :: "string \<Rightarrow> nat"
  is_answers :: "string \<Rightarrow> write_call list list"
  is_expired :: "string \<Rightarrow> nat"

definition idem_init :: idem_state where
  "idem_init = \<lparr>is_db = (\<lambda>_. None), is_threads = (\<lambda>_. None), is_runs = (\<lambda>_. 0), is_answers = (\<lambda>_. []),
     is_expired = (\<lambda>_. 0)\<rparr>"

definition goto :: "nat \<Rightarrow> idem_pc \<Rightarrow> idem_state \<Rightarrow> idem_state" where
  "goto t p g = g\<lparr>is_threads := (is_threads g)(t \<mapsto> p)\<rparr>"

inductive idem_step :: "http_lib \<Rightarrow> idem_state \<Rightarrow> idem_state \<Rightarrow> bool" for lib where
  arrive: "is_threads g t = None \<Longrightarrow> idem_step lib g (goto t (Arrived k) g)"
| win: "is_threads g t = Some (Arrived k) \<Longrightarrow> is_db g k = None \<Longrightarrow>
    idem_step lib g (goto t (Running k) (g\<lparr>is_db := (is_db g)(k \<mapsto> processing)\<rparr>))"
| lose: "is_threads g t = Some (Arrived k) \<Longrightarrow> is_db g k = Some v \<Longrightarrow> idem_step lib g (goto t (Losing k) g)"
| handle: "is_threads g t = Some (Running k) \<Longrightarrow> valid_calls ws \<Longrightarrow>
    idem_step lib g (goto t (Captured k ws)
      (g\<lparr>is_runs := (is_runs g)(k := Suc (is_runs g k)), is_answers := (is_answers g)(k := ws # is_answers g k)\<rparr>))"
| complete: "is_threads g t = Some (Captured k ws) \<Longrightarrow>
    idem_step lib g (goto t (Answered k (cached_calls (capture (recorded lib ws))))
      (g\<lparr>is_db := (is_db g)(k \<mapsto> marshal_cached (capture (recorded lib ws)))\<rparr>))"
| duplicate: "is_threads g t = Some (Losing k) \<Longrightarrow> is_db g k = Some raw \<Longrightarrow>
    idem_step lib g (goto t (Answered k (replay raw)) g)"
| setnx_fails: "is_threads g t = Some (Arrived k) \<Longrightarrow> idem_step lib g (goto t (Answered k store_error) g)"
| setnx_reply_lost: "is_threads g t = Some (Arrived k) \<Longrightarrow> is_db g k = None \<Longrightarrow>
    idem_step lib g (goto t (Answered k store_error) (g\<lparr>is_db := (is_db g)(k \<mapsto> processing)\<rparr>))"
| get_fails: "is_threads g t = Some (Losing k) \<Longrightarrow> idem_step lib g (goto t (Answered k store_error) g)"
| set_fails: "is_threads g t = Some (Captured k ws) \<Longrightarrow>
    idem_step lib g (goto t (Answered k (cached_calls (capture (recorded lib ws)))) g)"
| panics: "is_threads g t = Some (Running k) \<Longrightarrow>
    idem_step lib g (goto t (Panicked k) (g\<lparr>is_runs := (is_runs g)(k := Suc (is_runs g k))\<rparr>))"
| expire: "is_db g k = Some v \<Longrightarrow>
    idem_step lib g (g\<lparr>is_db := (is_db g)(k := None), is_expired := (is_expired g)(k := Suc (is_expired g k))\<rparr>)"

inductive_cases idem_step_cases: "idem_step lib g g'"

text \<open>
  The requests that have won a key and not yet called the handler. Each execution, each of these requests and a
  key that is free to be won again have been paid for by an expiry, apart from the first.
\<close>

definition waiting :: "idem_state \<Rightarrow> string \<Rightarrow> nat set" where
  "waiting g k = {t. is_threads g t = Some (Running k)}"

definition free :: "idem_state \<Rightarrow> string \<Rightarrow> nat" where
  "free g k = (if is_db g k = None then 1 else 0)"

definition idem_count :: "idem_state \<Rightarrow> bool" where
  "idem_count g \<longleftrightarrow> (\<forall>k. finite (waiting g k) \<and> is_runs g k + card (waiting g k) + free g k \<le> Suc (is_expired g k))"

lemma idem_countD:
  "idem_count g \<Longrightarrow> finite (waiting g k)"
  "idem_count g \<Longrightarrow> is_runs g k + card (waiting g k) + free g k \<le> Suc (is_expired g k)"
  by (simp_all add: idem_count_def)

lemma waiting_goto:
  "waiting (goto t p g) k = (if p = Running k then insert t (waiting g k) else waiting g k - {t})"
  by (auto simp: waiting_def goto_def)

lemma waiting_update [simp]:
  "waiting (g\<lparr>is_db := d\<rparr>) k = waiting g k" "waiting (g\<lparr>is_runs := r\<rparr>) k = waiting g k"
  "waiting (g\<lparr>is_answers := a\<rparr>) k = waiting g k" "waiting (g\<lparr>is_expired := e\<rparr>) k = waiting g k"
  by (simp_all add: waiting_def)

lemma in_waiting [simp]: "t \<in> waiting g k \<longleftrightarrow> is_threads g t = Some (Running k)"
  by (simp add: waiting_def)

lemma goto_fields [simp]:
  "is_db (goto t p g) = is_db g" "is_runs (goto t p g) = is_runs g" "is_answers (goto t p g) = is_answers g"
  "is_expired (goto t p g) = is_expired g" "is_threads (goto t p g) = (is_threads g)(t \<mapsto> p)" "free (goto t p g) k = free g k"
  by (simp_all add: goto_def free_def)

lemma idem_countI:
  "(\<And>k. finite (waiting g k) \<and> is_runs g k + card (waiting g k) + free g k \<le> Suc (is_expired g k)) \<Longrightarrow> idem_count g"
  by (simp add: idem_count_def)

text \<open>A step of a request that neither wins the key nor calls the handler.\<close>

lemma idem_count_other:
  assumes "idem_count g" and "\<forall>k. p \<noteq> Running k" and "\<forall>k. is_threads g t \<noteq> Some (Running k)"
  shows "idem_count (goto t p g)"
  using assms by (simp add: idem_count_def waiting_goto)

lemma idem_count_store:
  assumes "idem_count g"
  shows "idem_count (g\<lparr>is_db := (is_db g)(k \<mapsto> v)\<rparr>)" (is "idem_count ?g")
proof (rule idem_countI)
  fix k'
  show "finite (waiting ?g k') \<and> is_runs ?g k' + card (waiting ?g k') + free ?g k' \<le> Suc (is_expired ?g k')"
    using idem_countD[OF assms, of k'] by (cases "k' = k"; cases "is_db g k'") (simp_all add: free_def)
qed

lemma idem_count_win:
  assumes "idem_count g" and "is_threads g t = Some (Arrived k)" and "is_db g k = None"
  shows "idem_count (goto t (Running k) (g\<lparr>is_db := (is_db g)(k \<mapsto> processing)\<rparr>))" (is "idem_count ?g")
proof (rule idem_countI)
  fix k'
  show "finite (waiting ?g k') \<and> is_runs ?g k' + card (waiting ?g k') + free ?g k' \<le> Suc (is_expired ?g k')"
    using idem_countD[OF assms(1), of k'] assms(2,3) by (cases "k' = k") (auto simp: waiting_goto free_def)
qed

lemma idem_count_handle:
  assumes "idem_count g" and "is_threads g t = Some (Running k)" and "\<forall>k. p \<noteq> Running k"
  shows "idem_count (goto t p (g\<lparr>is_runs := (is_runs g)(k := Suc (is_runs g k)), is_answers := a\<rparr>))" (is "idem_count ?g")
proof (rule idem_countI)
  fix k'
  have "card (waiting g k) = Suc (card (waiting g k - {t}))"
    using idem_countD(1)[OF assms(1)] assms(2) by (intro card.remove) simp_all
  moreover have "waiting g k' - {t} = waiting g k'" if "k' \<noteq> k" using assms(2) that by auto
  ultimately show "finite (waiting ?g k') \<and> is_runs ?g k' + card (waiting ?g k') + free ?g k' \<le> Suc (is_expired ?g k')"
    using idem_countD[OF assms(1), of k'] assms(2,3) by (cases "k' = k") (simp_all add: waiting_goto free_def del: card_Diff_insert)
qed

lemma idem_count_expire:
  assumes "idem_count g" and "is_db g k = Some v"
  shows "idem_count (g\<lparr>is_db := (is_db g)(k := None), is_expired := (is_expired g)(k := Suc (is_expired g k))\<rparr>)" (is "idem_count ?g")
proof (rule idem_countI)
  fix k'
  show "finite (waiting ?g k') \<and> is_runs ?g k' + card (waiting ?g k') + free ?g k' \<le> Suc (is_expired ?g k')"
    using idem_countD[OF assms(1), of k'] assms(2) by (cases "k' = k") (simp_all add: free_def)
qed

text \<open>
  The invariant: executions are counted as above; what is stored for a key and what a request is about to store or has
  answered comes from one of the executions, or is the mark, the conflict or a store error.
\<close>

definition stored_ok :: "http_lib \<Rightarrow> write_call list set \<Rightarrow> json \<Rightarrow> bool" where
  "stored_ok lib A v \<longleftrightarrow> v = processing \<or> (\<exists>ws \<in> A. v = marshal_cached (capture (recorded lib ws)))"

definition answer_ok :: "http_lib \<Rightarrow> write_call list set \<Rightarrow> write_call list \<Rightarrow> bool" where
  "answer_ok lib A vs \<longleftrightarrow> vs = conflict \<or> vs = store_error \<or> (\<exists>ws \<in> A. vs = cached_calls (capture (recorded lib ws)))"

definition thread_ok :: "http_lib \<Rightarrow> (string \<Rightarrow> write_call list set) \<Rightarrow> idem_pc option \<Rightarrow> bool" where
  "thread_ok lib A p \<longleftrightarrow>
     (case p of Some (Captured k ws) \<Rightarrow> ws \<in> A k | Some (Answered k vs) \<Rightarrow> answer_ok lib (A k) vs | _ \<Rightarrow> True)"

definition idem_inv :: "http_lib \<Rightarrow> idem_state \<Rightarrow> bool" where
  "idem_inv lib g \<longleftrightarrow>
     idem_count g \<and> (\<forall>k. length (is_answers g k) \<le> is_runs g k) \<and> (\<forall>k. \<forall>ws \<in> set (is_answers g k). valid_calls ws) \<and>
     (\<forall>k v. is_db g k = Some v \<longrightarrow> stored_ok lib (set (is_answers g k)) v) \<and>
     (\<forall>t. thread_ok lib (\<lambda>k. set (is_answers g k)) (is_threads g t))"

lemma idem_inv_init: "idem_inv lib idem_init"
  by (simp add: idem_inv_def idem_init_def idem_count_def waiting_def free_def thread_ok_def)

lemma idem_inv_goto:
  assumes "idem_inv lib g" and "idem_count (goto t p g)" and "thread_ok lib (\<lambda>k. set (is_answers g k)) (Some p)"
  shows "idem_inv lib (goto t p g)"
  using assms by (simp add: idem_inv_def)

lemma idem_inv_store:
  assumes "idem_inv lib g" and "stored_ok lib (set (is_answers g k)) v"
  shows "idem_inv lib (g\<lparr>is_db := (is_db g)(k \<mapsto> v)\<rparr>)"
  using assms by (simp add: idem_inv_def idem_count_store)

lemma replay_stored:
  assumes "stored_ok lib A v" and "\<forall>ws \<in> A. valid_calls ws"
  shows "answer_ok lib A (replay v)"
  using assms by (auto simp: stored_ok_def answer_ok_def replay_processing replay_captured)

lemma thread_ok_more: "thread_ok lib A p \<Longrightarrow> (\<And>k. A k \<subseteq> B k) \<Longrightarrow> thread_ok lib B p"
  by (auto simp: thread_ok_def answer_ok_def split: option.splits idem_pc.splits; blast)

lemma stored_ok_more: "stored_ok lib A v \<Longrightarrow> A \<subseteq> B \<Longrightarrow> stored_ok lib B v"
  by (auto simp: stored_ok_def)

lemma idem_inv_handle:
  assumes inv: "idem_inv lib g" and t: "is_threads g t = Some (Running k)" and ws: "valid_calls ws"
  shows "idem_inv lib (goto t (Captured k ws)
      (g\<lparr>is_runs := (is_runs g)(k := Suc (is_runs g k)), is_answers := (is_answers g)(k := ws # is_answers g k)\<rparr>))"
proof -
  let ?A = "\<lambda>k. set (is_answers g k)" and ?B = "\<lambda>k'. set (((is_answers g)(k := ws # is_answers g k)) k')"
  have "idem_count (goto t (Captured k ws)
      (g\<lparr>is_runs := (is_runs g)(k := Suc (is_runs g k)), is_answers := (is_answers g)(k := ws # is_answers g k)\<rparr>))"
    using inv t by (intro idem_count_handle) (simp_all add: idem_inv_def)
  moreover have "thread_ok lib ?B (is_threads g u)" for u
    by (rule thread_ok_more[of lib ?A]) (use inv in \<open>auto simp: idem_inv_def\<close>)
  moreover have "stored_ok lib (?B k') v" if "is_db g k' = Some v" for k' v
    by (rule stored_ok_more[of lib "?A k'"]) (use inv that in \<open>auto simp: idem_inv_def\<close>)
  ultimately show ?thesis using inv ws by (auto simp: idem_inv_def thread_ok_def)
qed

lemma idem_inv_panics:
  assumes "idem_inv lib g" and "is_threads g t = Some (Running k)"
  shows "idem_inv lib (goto t (Panicked k) (g\<lparr>is_runs := (is_runs g)(k := Suc (is_runs g k))\<rparr>))"
proof -
  have "idem_count (goto t (Panicked k) (g\<lparr>is_runs := (is_runs g)(k := Suc (is_runs g k))\<rparr>))"
    using assms idem_count_handle[of g t k "Panicked k" "is_answers g"] by (simp add: idem_inv_def)
  with assms(1) show ?thesis by (auto simp: idem_inv_def thread_ok_def le_SucI)
qed

lemma idem_inv_other:
  assumes "idem_inv lib g" and "\<forall>k. p \<noteq> Running k"
    and "thread_ok lib (\<lambda>k. set (is_answers g k)) (Some p)" and "\<forall>k. is_threads g t \<noteq> Some (Running k)"
  shows "idem_inv lib (goto t p g)"
  using assms by (intro idem_inv_goto idem_count_other) (simp_all add: idem_inv_def)

lemma idem_inv_win:
  assumes "idem_inv lib g" and "is_threads g t = Some (Arrived k)" and "is_db g k = None"
  shows "idem_inv lib (goto t (Running k) (g\<lparr>is_db := (is_db g)(k \<mapsto> processing)\<rparr>))"
  using assms by (intro idem_inv_goto idem_inv_store idem_count_win) (simp_all add: idem_inv_def stored_ok_def thread_ok_def)

lemma idem_inv_expire:
  assumes "idem_inv lib g" and "is_db g k = Some v"
  shows "idem_inv lib (g\<lparr>is_db := (is_db g)(k := None), is_expired := (is_expired g)(k := Suc (is_expired g k))\<rparr>)"
  using assms idem_count_expire[of g k v] by (simp add: idem_inv_def)

lemma idem_inv_step: "idem_step lib g g' \<Longrightarrow> idem_inv lib g \<Longrightarrow> idem_inv lib g'"
proof (induction rule: idem_step.induct)
  case (complete g t k ws)
  moreover from complete have "ws \<in> set (is_answers g k)" unfolding idem_inv_def thread_ok_def by (auto dest: spec[of _ t])
  ultimately show ?case
    by (intro idem_inv_other idem_inv_store) (auto simp: stored_ok_def thread_ok_def answer_ok_def)
next
  case (duplicate g t k raw)
  then have "answer_ok lib (set (is_answers g k)) (replay raw)" by (intro replay_stored) (auto simp: idem_inv_def)
  with duplicate show ?case by (intro idem_inv_other) (auto simp: thread_ok_def)
next
  case (set_fails g t k ws)
  moreover from set_fails have "ws \<in> set (is_answers g k)" unfolding idem_inv_def thread_ok_def by (auto dest: spec[of _ t])
  ultimately show ?case by (intro idem_inv_other) (auto simp: thread_ok_def answer_ok_def)
next
  case (setnx_reply_lost g t k)
  then show ?case by (intro idem_inv_other idem_inv_store) (auto simp: thread_ok_def answer_ok_def stored_ok_def)
qed (auto simp: thread_ok_def answer_ok_def idem_inv_handle idem_inv_panics idem_inv_expire idem_inv_win intro!: idem_inv_other)

lemma idem_inv_reachable: "(idem_step lib)\<^sup>*\<^sup>* idem_init g \<Longrightarrow> idem_inv lib g"
  by (induction rule: rtranclp_induct) (auto intro: idem_inv_step idem_inv_init)

text \<open>
  A request that runs alone, from the first store operation to its answer, is a run of the step
  relation, on the store that is a map and does not fail.
\<close>

definition map_store :: "(string \<Rightarrow> json option) idem_store" where
  "map_store =
     \<lparr>st_SetNX = (\<lambda>ctx k v ttl db. if db k = None then (Inr True, db(k \<mapsto> v)) else (Inr False, db)),
      st_Get = (\<lambda>ctx k db. (case db k of None \<Rightarrow> Inl (ErrNew ''not found'') | Some v \<Rightarrow> Inr v, db)),
      st_Set = (\<lambda>ctx k v ttl db. (None, db(k \<mapsto> v)))\<rparr>"

lemma request_is_run:
  assumes "is_threads g t = None" and "store_key r = Some k" and "\<And>db. nxt r db = ((ws, panicked), db)" and "valid_calls ws"
    and "IdempotencyMiddleware lib map_store ttl nxt r (is_db g) = ((vs, False), db')"
  shows "\<exists>g'. (idem_step lib)\<^sup>*\<^sup>* g g' \<and> is_db g' = db' \<and> is_threads g' t = Some (Answered k vs)"
proof -
  let ?a = "goto t (Arrived k) g"
  have arrived: "idem_step lib g ?a" "is_threads ?a t = Some (Arrived k)" "is_db ?a = is_db g"
    using idem_step.arrive[OF assms(1)] by (simp_all add: goto_def)
  show ?thesis
  proof (cases "is_db g k")
    case None
    let ?c = "cached_calls (capture (recorded lib ws))" and ?m = "marshal_cached (capture (recorded lib ws))"
    define b where "b = goto t (Running k) (?a\<lparr>is_db := (is_db ?a)(k \<mapsto> processing)\<rparr>)"
    define c where "c = goto t (Captured k ws) (b\<lparr>is_runs := (is_runs b)(k := Suc (is_runs b k)), is_answers := (is_answers b)(k := ws # is_answers b k)\<rparr>)"
    define d where "d = goto t (Answered k ?c) (c\<lparr>is_db := (is_db c)(k \<mapsto> ?m)\<rparr>)"
    from None assms(2,3,5) have v: "vs = ?c" "db' = (is_db g)(k \<mapsto> ?m)"
      by (auto simp: IdempotencyMiddleware_def map_store_def Let_def split: if_splits)
    have "idem_step lib ?a b" unfolding b_def using arrived None by (intro idem_step.win) simp_all
    moreover have "idem_step lib b c" unfolding c_def by (rule idem_step.handle) (simp_all add: b_def goto_def assms(4))
    moreover have "idem_step lib c d" unfolding d_def by (rule idem_step.complete) (simp add: c_def goto_def)
    ultimately have "(idem_step lib)\<^sup>*\<^sup>* g d" using arrived(1) by (meson converse_rtranclp_into_rtranclp rtranclp.rtrancl_refl)
    moreover have "is_db d = db'" "is_threads d t = Some (Answered k vs)" by (simp_all add: v b_def c_def d_def goto_def)
    ultimately show ?thesis by blast
  next
    case (Some raw)
    define b where "b = goto t (Losing k) ?a"
    define c where "c = goto t (Answered k (replay raw)) b"
    from Some assms(2,5) have v: "vs = replay raw" "db' = is_db g"
      by (auto simp: IdempotencyMiddleware_def map_store_def)
    have "idem_step lib ?a b" unfolding b_def using arrived Some by (intro idem_step.lose) simp_all
    moreover have "idem_step lib b c" unfolding c_def by (rule idem_step.duplicate) (simp_all add: b_def goto_def Some)
    ultimately have "(idem_step lib)\<^sup>*\<^sup>* g c" using arrived(1) by (meson converse_rtranclp_into_rtranclp rtranclp.rtrancl_refl)
    moreover have "is_db c = db'" "is_threads c t = Some (Answered k vs)" by (simp_all add: v b_def c_def goto_def)
    ultimately show ?thesis by blast
  qed
qed

section \<open>Over Redis\<close>

lemma first_request:
  assumes "redis_laws ops db" and "rc_rdb c = Some h" and "store_key r = Some k" and "db s k = None"
  obtains s1 where "db s1 = (db s)(k \<mapsto> processing)"
    and "\<And>ws s2. nxt r s1 = ((ws, True), s2) \<Longrightarrow> IdempotencyMiddleware lib (redis_store ops c) ttl nxt r s = (([], True), s2)"
    and "\<And>ws s2. nxt r s1 = ((ws, False), s2) \<Longrightarrow>
      \<exists>s3. db s3 = (db s2)(k \<mapsto> marshal_cached (capture (recorded lib ws))) \<and>
        IdempotencyMiddleware lib (redis_store ops c) ttl nxt r s = ((cached_calls (capture (recorded lib ws)), False), s3)"
proof -
  obtain s1 where nx: "Redis_SetNX ops c (rq_ctx r) k (Inr processing) ttl s = (Inr True, s1)"
    and db1: "db s1 = (db s)(k \<mapsto> processing)"
    using Redis_SetNX_ok[OF assms(1,2), of "rq_ctx r" k processing ttl s] assms(4) by auto
  show thesis
  proof (rule that[OF db1])
    show "IdempotencyMiddleware lib (redis_store ops c) ttl nxt r s = (([], True), s2)" if "nxt r s1 = ((ws, True), s2)" for ws s2
      using that nx assms(3) by (simp add: IdempotencyMiddleware_def redis_store_def)
    fix ws s2 assume "nxt r s1 = ((ws, False), s2)"
    moreover obtain s3 where "Redis_Set ops c (rq_ctx r) k (Inr (marshal_cached (capture (recorded lib ws)))) ttl s2 = (None, s3)"
      "db s3 = (db s2)(k \<mapsto> marshal_cached (capture (recorded lib ws)))"
      using Redis_Set_ok[OF assms(1,2)] by metis
    ultimately show "\<exists>s3. db s3 = (db s2)(k \<mapsto> marshal_cached (capture (recorded lib ws))) \<and>
        IdempotencyMiddleware lib (redis_store ops c) ttl nxt r s = ((cached_calls (capture (recorded lib ws)), False), s3)"
      using nx assms(3) by (intro exI[of _ s3]) (simp add: IdempotencyMiddleware_def redis_store_def)
  qed
qed

lemma later_request:
  assumes "redis_laws ops db" and "rc_rdb c = Some h" and "store_key r = Some k" and "db s k = Some v"
  shows "\<exists>s1. db s1 = db s \<and> (\<forall>nxt. IdempotencyMiddleware lib (redis_store ops c) ttl nxt r s = ((replay v, False), s1))"
proof -
  obtain s1 where nx: "Redis_SetNX ops c (rq_ctx r) k (Inr processing) ttl s = (Inr False, s1)" "db s1 = db s"
    using Redis_SetNX_ok[OF assms(1,2), of "rq_ctx r" k processing ttl s] assms(4) by auto
  moreover obtain s2 where "Redis_Get ops c (rq_ctx r) k Inr s1 = (Inr v, s2)" "db s2 = db s1"
    using Redis_Get_ok[OF assms(1,2), of s1 "rq_ctx r" k Inr] assms(4) nx(2) by auto
  ultimately show ?thesis
    using assms(3) by (intro exI[of _ s2]) (simp add: IdempotencyMiddleware_def redis_store_def)
qed

section \<open>Properties\<close>

text \<open>C7: However concurrent requests interleave, whichever store operations fail and whether or not
  the handler panics, the handler runs at most once for an idempotency key while the key is kept: it runs at most
  once more than the key has expired. Every answer for the key is the 409 conflict, the 500 store error or what was
  recorded of an execution of the handler for it: status, headers and body. As long as the key has not expired there
  is at most one such execution.\<close>

theorem idempotency_at_most_once:
  assumes "(idem_step lib)\<^sup>*\<^sup>* idem_init g"
  shows "is_runs g k \<le> Suc (is_expired g k) \<and> length (is_answers g k) \<le> is_runs g k \<and>
    (\<forall>t vs. is_threads g t = Some (Answered k vs) \<longrightarrow> vs = conflict \<or> vs = store_error \<or>
       (\<exists>ws \<in> set (is_answers g k). vs = cached_calls (capture (recorded lib ws))))"
proof -
  have inv: "idem_inv lib g" by (rule idem_inv_reachable[OF assms])
  then have "is_runs g k + card (waiting g k) + free g k \<le> Suc (is_expired g k)" by (intro idem_countD) (simp add: idem_inv_def)
  moreover have "answer_ok lib (set (is_answers g k)) vs" if "is_threads g t = Some (Answered k vs)" for t vs
    using inv that unfolding idem_inv_def thread_ok_def by (auto dest: spec[of _ t])
  ultimately show ?thesis using inv by (simp add: idem_inv_def answer_ok_def)
qed

definition demo_lib :: http_lib where
  "demo_lib = \<lparr>hl_encode = (\<lambda>j. ''{}''), hl_detect = (\<lambda>b. ''text/plain; charset=utf-8'')\<rparr>"

theorem idempotency_at_most_once_witness:
  "\<exists>g. (idem_step demo_lib)\<^sup>*\<^sup>* idem_init g \<and> is_threads g 1 = Some (Running ''k'') \<and>
     is_threads g 2 = Some (Answered ''k'' conflict) \<and> is_expired g ''k'' = 0 \<and> is_runs g ''k'' \<le> 1"
proof -
  define g1 where "g1 = goto 1 (Arrived ''k'') idem_init"
  define g2 where "g2 = goto 2 (Arrived ''k'') g1"
  define g3 where "g3 = goto 1 (Running ''k'') (g2\<lparr>is_db := (is_db g2)(''k'' \<mapsto> processing)\<rparr>)"
  define g4 where "g4 = goto 2 (Losing ''k'') g3"
  define g5 where "g5 = goto 2 (Answered ''k'' (replay processing)) g4"
  note d = g1_def g2_def g3_def g4_def g5_def idem_init_def goto_def
  have "idem_step demo_lib idem_init g1" unfolding g1_def by (rule idem_step.arrive) (simp add: d)
  moreover have "idem_step demo_lib g1 g2" unfolding g2_def by (rule idem_step.arrive) (simp add: d)
  moreover have "idem_step demo_lib g2 g3" unfolding g3_def by (rule idem_step.win) (simp_all add: d)
  moreover have "idem_step demo_lib g3 g4" unfolding g4_def by (rule idem_step.lose[where v = processing]) (simp_all add: d)
  moreover have "idem_step demo_lib g4 g5" unfolding g5_def by (rule idem_step.duplicate) (simp_all add: d)
  ultimately have r: "(idem_step demo_lib)\<^sup>*\<^sup>* idem_init g5" by (meson converse_rtranclp_into_rtranclp rtranclp.rtrancl_refl)
  have "is_threads g5 1 = Some (Running ''k'')" "is_threads g5 2 = Some (Answered ''k'' conflict)" "is_expired g5 ''k'' = 0"
    by (simp_all add: d replay_processing)
  with r idempotency_at_most_once[OF r, of "''k''"] show ?thesis by (intro exI[of _ g5]) simp
qed

text \<open>C8: The middleware is transparent to the client of a first request whose handler sends no
  informational status: the status and the body received are those of the handler without the middleware,
  and so is the first value of every header; further values of a header are lost, and only a content
  type can be added. A request without a key is passed through unchanged.\<close>

theorem idempotency_transparent:
  assumes "nxt r s1 = ((ws, False), s2)" and "\<forall>code. WriteHeader code \<in> set ws \<longrightarrow> \<not> informational code"
    and "store_key r = Some k" and "st_SetNX store (rq_ctx r) k processing ttl s = (Inr True, s1)"
  shows "\<exists>vs t. IdempotencyMiddleware lib store ttl nxt r s = ((vs, False), t) \<and>
    rs_status (received lib vs) = rs_status (received lib ws) \<and> rs_body (received lib vs) = rs_body (received lib ws) \<and>
    (\<forall>f. map_of (rs_header (received lib vs)) f = map_option (take 1) (map_of (rs_header (received lib ws)) f) \<or>
       f = ''Content-Type'' \<and> map_of (rs_header (received lib ws)) f = None) \<and>
    (\<forall>r'. store_key r' = None \<longrightarrow> IdempotencyMiddleware lib store ttl nxt r' = nxt r')"
proof -
  let ?vs = "cached_calls (capture (recorded lib ws))"
  note f = recorded_follows[OF assms(2), of lib]
  have "\<not> informational (rs_status (recorded lib ws))"
    unfolding f(1) received_def by (simp add: sent_status_sent not_informational_sent[OF assms(2)])
  note c = received_cached[OF wf_recorded this, of lib]
  have "rs_body (received lib ?vs) = rs_body (received lib ws)" unfolding c by (simp add: f(1,3))
  moreover have "rs_status (received lib ?vs) = rs_status (received lib ws)" unfolding c by (simp add: f(1))
  moreover have "map_of (rs_header (received lib ?vs)) h = map_option (take 1) (map_of (rs_header (received lib ws)) h) \<or>
      h = ''Content-Type'' \<and> map_of (rs_header (received lib ws)) h = None" for h
    unfolding c using f(2)[unfolded agree_def, rule_format, of h] by (auto simp: map_of_map)
  moreover have "\<exists>t. IdempotencyMiddleware lib store ttl nxt r s = ((?vs, False), t)"
    using assms by (simp add: IdempotencyMiddleware_def Let_def)
  moreover have "store_key r' = None \<Longrightarrow> IdempotencyMiddleware lib store ttl nxt r' = nxt r'" for r'
    by (rule ext) (simp add: IdempotencyMiddleware_def)
  ultimately show ?thesis by blast
qed

definition demo_request :: request where
  "demo_request = \<lparr>rq_ctx = Background, rq_method = ''POST'', rq_path = ''/orders'', rq_header = [(''Idempotency-Key'', [''a''])]\<rparr>"

definition demo_created :: "write_call list" where
  "demo_created = [SetHeader ''X-Order'' ''7'', WriteHeader 201, Write (Bytes ''ok'')]"

lemma demo_store_key: "store_key demo_request = Some ''idem:a''"
proof -
  have "CanonicalKey ''Idempotency-Key'' = ''Idempotency-Key''"
    by (simp add: CanonicalKey_def token_char_def upper_def lower_def)
  then show ?thesis by (simp add: store_key_def Header_Get_def demo_request_def)
qed

theorem idempotency_transparent_witness:
  "\<exists>vs t. IdempotencyMiddleware demo_lib map_store second (\<lambda>r db. ((demo_created, False), db)) demo_request Map.empty = ((vs, False), t) \<and>
     rs_status (received demo_lib vs) = 201 \<and> rs_body (received demo_lib vs) = ''ok''"
proof -
  have k: "st_SetNX map_store (rq_ctx demo_request) ''idem:a'' processing second Map.empty = (Inr True, [''idem:a'' \<mapsto> processing])"
    by (simp add: map_store_def)
  have i: "\<forall>code. WriteHeader code \<in> set demo_created \<longrightarrow> \<not> informational code"
    by (simp add: demo_created_def informational_def)
  have "rs_status (received demo_lib demo_created) = 201" "rs_body (received demo_lib demo_created) = ''ok''"
    by (simp_all add: received_def sent_def demo_created_def new_writer_def send_header_def send_chunk_def informational_def bodyAllowedForStatus_def)
  with idempotency_transparent[OF _ i demo_store_key k, of "\<lambda>r db. ((demo_created, False), db)" "[''idem:a'' \<mapsto> processing]" demo_lib]
  show ?thesis by auto
qed

text \<open>After an informational status the recorder ignores the final one: a handler that sends early hints and
  then 404 is answered with 200.\<close>

lemma idempotency_loses_final_status:
  "sr_status (sent [WriteHeader 103, WriteHeader 404]) = 404 \<and>
   sr_status (sent (cached_calls (capture (recorded lib [WriteHeader 103, WriteHeader 404])))) = 200"
  by (simp add: sent_status_sent informational_def capture_def cached_calls_def recorded_def rec_Result_def NewRecorder_def
      rec_WriteHeader_def StatusOK_def)

text \<open>Of two cookies only the first arrives.\<close>

lemma idempotency_drops_cookie:
  assumes "ws = [AddHeader ''Set-Cookie'' ''a=1'', AddHeader ''Set-Cookie'' ''b=2'', WriteHeader 204]"
  shows "sr_header (sent ws) = [(''Set-Cookie'', [''a=1'', ''b=2''])] \<and>
    sr_header (sent (cached_calls (capture (recorded lib ws)))) = [(''Set-Cookie'', [''a=1''])]"
proof -
  have "CanonicalKey ''Set-Cookie'' = ''Set-Cookie''"
    by (simp add: CanonicalKey_def token_char_def upper_def lower_def)
  then show ?thesis
    using assms by (simp add: sent_def recorded_def rec_Result_def NewRecorder_def rec_WriteHeader_def capture_def cached_calls_def
        new_writer_def send_header_def send_chunk_def informational_def bodyAllowedForStatus_def Header_Add_def Header_Set_def Header_Get_def)
qed

text \<open>A Redis whose world is its contents.\<close>

definition demo_redis :: "(string \<Rightarrow> json option) goredis" where
  "demo_redis =
     \<lparr>rd_Nil = ErrNew ''redis: nil'', rd_new = (\<lambda>o' s. (1, s)), rd_ping = (\<lambda>h ctx s. (None, s)), rd_close = (\<lambda>h s. (None, s)),
      rd_set = (\<lambda>h ctx k v ttl s. (None, s(k \<mapsto> v))),
      rd_get = (\<lambda>h ctx k s. (case s k of None \<Rightarrow> Inl (ErrNew ''redis: nil'') | Some v \<Rightarrow> Inr v, s)),
      rd_set_nx = (\<lambda>h ctx k v ttl s. case s k of None \<Rightarrow> (None, s(k \<mapsto> v)) | Some _ \<Rightarrow> (Some (ErrNew ''redis: nil''), s)),
      rd_del = (\<lambda>h ctx ks s. (None, s |` (- set ks)))\<rparr>"

lemma demo_redis_laws: "redis_laws demo_redis (\<lambda>s. s)"
proof -
  have a: "\<exists>t. case s k of None \<Rightarrow> rd_set_nx demo_redis h ctx k v ttl s = (None, t) \<and> t = s(k \<mapsto> v)
      | Some _ \<Rightarrow> rd_set_nx demo_redis h ctx k v ttl s = (Some (rd_Nil demo_redis), t) \<and> t = s" for h ctx k v ttl s
    by (cases "s k") (simp_all add: demo_redis_def)
  have b: "\<exists>t. rd_set demo_redis h ctx k v ttl s = (None, t) \<and> t = s(k \<mapsto> v)"
    "\<exists>t. t = s \<and> rd_get demo_redis h ctx k s = (case s k of None \<Rightarrow> Inl (rd_Nil demo_redis) | Some v \<Rightarrow> Inr v, t)"
    "\<exists>t. rd_del demo_redis h ctx ks s = (None, t) \<and> t = s |` (- set ks)" for h ctx k v ttl ks s
    by (simp_all add: demo_redis_def split: option.splits)
  show ?thesis unfolding redis_laws_def by (intro conjI allI a b)
qed

definition demo_client :: redis_client where
  "demo_client = \<lparr>rc_addr = ''localhost:6379'', rc_password = [], rc_db = 0, rc_logger = 0, rc_rdb = Some 1\<rparr>"

end
