(* ===== verification/Idempotent_Server.thy ===== *)
theory Idempotent_Server
  imports Idempotency Server
begin

text \<open>
  Composition: a server with its default middleware, the idempotency middleware added by \<open>Use\<close>, and the
  Redis client as its store. One request with an idempotency key and a later one with the same key go
  through the whole pipeline: recovery, access log, idempotency, further middleware, routing.
\<close>

section \<open>The default middleware\<close>


lemma router_middleware_routes [simp]:
  "router_middleware (map (\<lambda>(p, h). RMount p h) ms) = []" "router_middleware (map (\<lambda>(p, f). RRoute p f) rs) = []"
  "router_middleware mountHealthEndpoints = []"
  by (auto simp: router_middleware_def mountHealthEndpoints_def)

lemma router_middleware_simps [simp]:
  "router_middleware [] = []" "router_middleware (RUse ms # cs) = ms @ router_middleware cs"
  by (simp_all add: router_middleware_def)

lemma router_middleware_append [simp]: "router_middleware (as @ bs) = router_middleware as @ router_middleware bs"
  by (simp add: router_middleware_def)





lemma middleware_fun_routing [simp]: "middleware_fun (env\<lparr>env_routing := rt\<rparr>) = middleware_fun env"
proof (rule ext)
  show "middleware_fun (env\<lparr>env_routing := rt\<rparr>) m = middleware_fun env m" for m by (cases m) simp_all
qed

section \<open>A server with idempotency\<close>





section \<open>Properties\<close>






end
