(* ===== verification/Health_Rpc.thy ===== *)
theory Health_Rpc
  imports Server
begin

text \<open>
  The ConnectRPC health service, \<open>src/gen/platform/v1/platformv1connect/health.connect.go\<close>: client,
  handler and the unimplemented default, and how the server's error interceptor treats the latter.

  connect itself is a parameter: \<open>newClient\<close> makes a client for a URL, \<open>callUnary\<close> calls it, and
  \<open>newUnaryHandler\<close> makes an HTTP handler of a procedure name and an implementation, and \<open>newError\<close> is
  \<open>connect.NewError\<close>, whose errors unwrap to the one they were made of.
\<close>

section \<open>The generated code\<close>

definition HealthServiceName :: string where
  "HealthServiceName = ''platform.v1.HealthService''"

definition HealthServiceCheckProcedure :: string where
  "HealthServiceCheckProcedure = ''/platform.v1.HealthService/Check''"

text \<open>\<open>strings.TrimRight\<close> with the cutset of one character.\<close>

definition TrimRight :: "string \<Rightarrow> char \<Rightarrow> string" where
  "TrimRight s c = rev (dropWhile (\<lambda>d. d = c) (rev s))"

record 'c healthServiceClient =
  hc_check :: 'c

definition NewHealthServiceClient :: "(string \<Rightarrow> 'c) \<Rightarrow> string \<Rightarrow> 'c healthServiceClient" where
  "NewHealthServiceClient newClient baseURL =
     (let baseURL = TrimRight baseURL (CHR ''/'')
      in \<lparr>hc_check = newClient (baseURL @ HealthServiceCheckProcedure)\<rparr>)"

definition healthServiceClient_Check :: "('c \<Rightarrow> ctx \<Rightarrow> 'q \<Rightarrow> 's \<Rightarrow> (goerr + 'p) \<times> 's) \<Rightarrow> 'c healthServiceClient \<Rightarrow> ctx \<Rightarrow> 'q \<Rightarrow>
    's \<Rightarrow> (goerr + 'p) \<times> 's" where
  "healthServiceClient_Check callUnary c ctx req = callUnary (hc_check c) ctx req"

type_synonym ('q, 'p, 's) unary = "ctx \<Rightarrow> 'q \<Rightarrow> 's \<Rightarrow> (goerr + 'p) \<times> 's"

definition NewHealthServiceHandler :: "(string \<Rightarrow> ('q, 'p, 's) unary \<Rightarrow> 's raw_handler) \<Rightarrow> ('q, 'p, 's) unary \<Rightarrow>
    string \<times> 's raw_handler" where
  "NewHealthServiceHandler newUnaryHandler svc_Check =
     (let healthServiceCheckHandler = newUnaryHandler HealthServiceCheckProcedure svc_Check
      in (''/platform.v1.HealthService/'',
          \<lambda>r s. if rq_path r = HealthServiceCheckProcedure then healthServiceCheckHandler r s else ((NotFound, False), s)))"

definition UnimplementedHealthServiceHandler_Check :: "(connect_code \<Rightarrow> goerr \<Rightarrow> goerr) \<Rightarrow> ('q, 'p, 's) unary" where
  "UnimplementedHealthServiceHandler_Check newError ctx req s =
     (Inl (newError ConnectUnimplemented (ErrNew ''platform.v1.HealthService.Check is not implemented'')), s)"

section \<open>Facts\<close>

lemma TrimRight_append: "TrimRight (s @ replicate n c) c = TrimRight s c"
  using dropWhile_append2[of "replicate n c" "\<lambda>d. d = c" "rev s"] by (auto simp: TrimRight_def)

lemma TrimRight_id: "s = [] \<or> last s \<noteq> c \<Longrightarrow> TrimRight s c = s"
  by (cases s rule: rev_cases) (simp_all add: TrimRight_def)

text \<open>Client and handler meet: for a base URL with any number of slashes at its end the client calls the
  URL whose path is the procedure, which lies below the path the handler is to be mounted on, and the
  handler passes exactly that path on to the implementation; any other path is answered with 404.\<close>

lemma health_client_meets_handler:
  assumes "base = [] \<or> last base \<noteq> CHR ''/''" and "NewHealthServiceHandler newUnaryHandler svc = (mount, handler)"
  shows "NewHealthServiceClient newClient (base @ replicate n (CHR ''/'')) = \<lparr>hc_check = newClient (base @ HealthServiceCheckProcedure)\<rparr> \<and>
    HasPrefix HealthServiceCheckProcedure mount \<and> mount = ''/'' @ HealthServiceName @ ''/'' \<and>
    (\<forall>r. rq_path r = HealthServiceCheckProcedure \<longrightarrow> handler r = newUnaryHandler HealthServiceCheckProcedure svc r) \<and>
    (\<forall>r s. rq_path r \<noteq> HealthServiceCheckProcedure \<longrightarrow> (\<exists>ws. handler r s = ((ws, False), s) \<and> sr_status (sent ws) = 404))"
  using assms by (auto simp: NewHealthServiceClient_def NewHealthServiceHandler_def TrimRight_append TrimRight_id Let_def HasPrefix_def
      HealthServiceCheckProcedure_def HealthServiceName_def sent_status_sent NotFound_def http_Error_def informational_def StatusNotFound_def)

text \<open>A connect error that a handler returns is not a platform error: behind the error interceptor the
  unimplemented service does not answer with the code \<open>unimplemented\<close> it returns but with an internal error.\<close>

lemma interceptor_hides_connect_code:
  assumes "\<And>code err. IsError (Some (newError code err)) = IsError (Some err)"
  shows "ErrorInterceptor (UnimplementedHealthServiceHandler_Check newError ctx) req s =
    (Inl (ConnectInternal, ErrNew ''internal error''), s)"
proof -
  have "IsError (Some (ErrNew e)) = None" for e by (simp add: IsError_def)
  then show ?thesis by (simp add: ErrorInterceptor_def UnimplementedHealthServiceHandler_Check_def assms)
qed

end
