(* ===== verification/Dead_Letter.thy ===== *)
theory Dead_Letter
  imports Kafka_Consumer
begin

text \<open>
  Composition: a Kafka consumer whose dead-letter publisher is the Kafka producer of this platform. The
  consumer's loop (\<open>src/pkg/broker/kafka/consumer.go\<close>) hands what its handler refuses to
  \<open>Producer.Publish\<close> (\<open>producer.go\<close>), and the cluster keeps it in the dead-letter topic.

  The cluster is seen through \<open>log\<close>, the messages a topic holds in a state of the world. What is used of
  Kafka is that a topic only grows (within its retention) and that a message whose write was
  acknowledged is in its topic, with its key, value and headers; partition and offset are the broker's.
\<close>

section \<open>The cluster\<close>







section \<open>The producer\<close>





section \<open>The consumer\<close>









section \<open>Properties\<close>












end
