(* ===== verification/PlatformTest.thy ===== *)
theory PlatformTest
  imports App MemBroker Server Postgres
begin

text \<open>
  The test helpers of \<open>src/pkg/platformtest\<close>: \<open>app.go\<close>, \<open>broker.go\<close>, \<open>server.go\<close>, \<open>postgres.go\<close>.

  A helper that calls \<open>require\<close> ends the test on a failure: \<open>TFatal\<close> with the message. What it
  passes to \<open>t.Cleanup\<close> is a definition of its own, which gives the messages of \<open>t.Errorf\<close>. The
  goroutine check of \<open>NewTestApp\<close>'s cleanup is goleak's and is left out. \<open>database/sql\<close> with the
  pgx driver is the record \<open>sql_ops\<close>.
\<close>

datatype 'a test_result = TFatal string | TValue 'a

section \<open>Application, broker and server\<close>

definition NewTestApp :: "app_option list \<Rightarrow> app" where
  "NewTestApp opts =
     (let defaults = [App.WithLogger NopLogger, WithShutdownTimeout (1 * second)] in New (defaults @ opts))"

definition NewTestBroker :: membroker where
  "NewTestBroker = MemBroker_New"

definition NewTestServer :: "(router_call list \<Rightarrow> router_call \<Rightarrow> bool) \<Rightarrow> 's net_ops \<Rightarrow> server_option list \<Rightarrow> 's \<Rightarrow>
    ((server \<times> string) test_result \<times> 's) option" where
  "NewTestServer chi ops opts s =
     (case Server_New ([WithAddr '':0''] @ opts) of
        Inl err \<Rightarrow> Some (TFatal ''platformtest: create server'', s)
      | Inr srv \<Rightarrow>
          (case Server_Start chi ops (srv, s) of
             None \<Rightarrow> None
           | Some (Some err, x, s1) \<Rightarrow> Some (TFatal ''platformtest: start server'', s1)
           | Some (None, x, s1) \<Rightarrow>
               Some (if Server_Addr x = [] then TFatal ''platformtest: server addr must not be empty after start''
                     else TValue (x, ''http://'' @ Server_Addr x), s1)))"

definition test_server_cleanup :: "'s net_ops \<Rightarrow> server \<times> 's \<Rightarrow> goerr list \<times> (server \<times> 's)" where
  "test_server_cleanup ops st =
     (case Server_Stop ops (WithTimeout Background (5 * second)) st of
        (Some stopErr, st1) \<Rightarrow> ([Errorf [Lit ''platformtest: stop server: '', PV stopErr]], st1)
      | (None, st1) \<Rightarrow> ([], st1))"

section \<open>Database names in connection strings\<close>

text \<open>The index after the first \<open>//\<close>, 0 if there is none: \<open>schemeEnd\<close>.\<close>

fun scheme_end :: "nat \<Rightarrow> string \<Rightarrow> nat" where
  "scheme_end i (a # b # cs) = (if a = CHR ''/'' \<and> b = CHR ''/'' then i + 2 else scheme_end (Suc i) (b # cs))"
| "scheme_end i _ = 0"

fun index_from :: "char \<Rightarrow> nat \<Rightarrow> string \<Rightarrow> nat option" where
  "index_from c i [] = None"
| "index_from c i (d # ds) = (if d = c then Some i else index_from c (Suc i) ds)"

definition replaceDBName :: "string \<Rightarrow> string \<Rightarrow> string" where
  "replaceDBName dsn newDB =
     (if HasPrefix dsn ''postgres://'' \<or> HasPrefix dsn ''postgresql://'' then
        (let schemeEnd = scheme_end 0 dsn in
         (case index_from (CHR ''/'') schemeEnd (drop schemeEnd dsn) of
            None \<Rightarrow> if dsn \<noteq> [] \<and> last dsn \<noteq> CHR ''/'' then dsn @ ''/'' @ newDB else dsn @ newDB
          | Some i \<Rightarrow>
              (let dbStart = i + 1;
                   dbEnd = (case index_from (CHR ''?'') dbStart (drop dbStart dsn) of None \<Rightarrow> length dsn | Some j \<Rightarrow> j)
               in take dbStart dsn @ newDB @ drop dbEnd dsn)))
      else dsn @ '' dbname='' @ newDB)"

section \<open>A database per test\<close>






section \<open>Facts\<close>

lemma scheme_end_prefix: "scheme_end 0 (''postgres://'' @ x) = 11" "scheme_end 0 (''postgresql://'' @ x) = 13"
  by simp_all


lemma index_from_miss: "c \<notin> set a \<Longrightarrow> index_from c i a = None"
  by (induction a arbitrary: i) auto


text \<open>Without a path the name goes to the end, also when the URI has parameters and the end is one of them.\<close>

lemma replaceDBName_no_path:
  assumes "sch \<in> {''postgres://'', ''postgresql://''}" and "CHR ''/'' \<notin> set auth" and "auth \<noteq> []"
  shows "replaceDBName (sch @ auth) new = sch @ auth @ ''/'' @ new"
proof -
  have uri: "HasPrefix (sch @ auth) ''postgres://'' \<or> HasPrefix (sch @ auth) ''postgresql://''"
    using assms(1) by (auto simp: HasPrefix_def)
  have se: "scheme_end 0 (sch @ auth) = length sch" using assms(1) scheme_end_prefix by auto
  have "last (sch @ auth) \<noteq> CHR ''/''" using assms(2,3) by (metis last_appendR last_in_set)
  with uri se assms(3) show ?thesis by (simp add: replaceDBName_def index_from_miss[OF assms(2)])
qed










text \<open>The options come after \<open>WithDSN\<close>, so a DSN among them wins.\<close>

lemma test_db_dsn_overridden:
  "\<exists>d. DB_New ([WithDSN (replaceDBName dsn dbName)] @ opts @ [WithDSN other]) = Inr d \<and> db_dsn d = other"
  by (simp add: DB_New_def)





section \<open>Properties\<close>



end
