(* ===== verification/Config.thy ===== *)
theory Config
  imports Lifecycle
begin

text \<open>
  The configuration loader, \<open>src/pkg/config/loader.go\<close>.

  koanf and fsnotify are parameters. A loaded configuration is a value of type \<open>'k\<close>; \<open>koanf_ops\<close> says
  what loading a source into it does, in the world \<open>'s\<close> that holds the files and the environment.
  The names of environment variables are byte strings; \<open>strings.ToLower\<close> is modelled on ASCII.
\<close>

section \<open>Environment variable names\<close>

definition to_lower_char :: "char \<Rightarrow> char" where
  "to_lower_char c = (let n = of_char c :: nat in if 65 \<le> n \<and> n \<le> 90 then char_of (n + 32) else c)"

definition ToLower :: "string \<Rightarrow> string" where
  "ToLower = map to_lower_char"

text \<open>\<open>strings.ReplaceAll(key, "__", ".")\<close>: left to right, without overlap.\<close>

fun replace_dunder :: "string \<Rightarrow> string" where
  "replace_dunder (a # b # cs) =
     (if a = CHR ''_'' \<and> b = CHR ''_'' then CHR ''.'' # replace_dunder cs else a # replace_dunder (b # cs))"
| "replace_dunder cs = cs"

definition env_key :: "string \<Rightarrow> string \<Rightarrow> string" where
  "env_key pre name = replace_dunder (ToLower (TrimPrefix name pre))"

section \<open>The loader\<close>

record ('v, 'k, 's) koanf_ops =
  k_new :: 'k
  load_confmap :: "(string \<times> 'v) list \<Rightarrow> 'k \<Rightarrow> goerr + 'k"
  load_file :: "string \<Rightarrow> 's \<Rightarrow> 'k \<Rightarrow> goerr + 'k"
  load_env :: "string \<Rightarrow> (string \<Rightarrow> string) \<Rightarrow> 's \<Rightarrow> 'k \<Rightarrow> goerr + 'k"

record ('v, 'k) loader =
  ld_k :: 'k
  ld_filePaths :: "string list"
  ld_envPrefix :: string
  ld_defaults :: "(string \<times> 'v) list option"
  ld_onReloadError :: bool               \<comment> \<open>whether the callback is set\<close>

datatype 'v loader_option =
    WithFile string
  | WithFiles "string list"
  | WithEnvPrefix string
  | WithDefaults "(string \<times> 'v) list"
  | WithOnReloadError

fun apply_loader_option :: "'v loader_option \<Rightarrow> ('v, 'k) loader \<Rightarrow> ('v, 'k) loader" where
  "apply_loader_option (WithFile path) l = l\<lparr>ld_filePaths := ld_filePaths l @ [path]\<rparr>"
| "apply_loader_option (WithFiles paths) l = l\<lparr>ld_filePaths := ld_filePaths l @ paths\<rparr>"
| "apply_loader_option (WithEnvPrefix p) l = l\<lparr>ld_envPrefix := p\<rparr>"
| "apply_loader_option (WithDefaults d) l = l\<lparr>ld_defaults := Some d\<rparr>"
| "apply_loader_option WithOnReloadError l = l\<lparr>ld_onReloadError := True\<rparr>"

fun load_files :: "('v, 'k, 's) koanf_ops \<Rightarrow> 's \<Rightarrow> string list \<Rightarrow> 'k \<Rightarrow> goerr + 'k" where
  "load_files ops s [] k = Inr k"
| "load_files ops s (fp # fps) k =
     (case load_file ops fp s k of
        Inl err \<Rightarrow> Inl (Errorf [Lit ''config: load file '', PQ fp, Lit '': '', PW err])
      | Inr k' \<Rightarrow> load_files ops s fps k')"

definition loadSources :: "('v, 'k, 's) koanf_ops \<Rightarrow> 's \<Rightarrow> ('v, 'k) loader \<Rightarrow> 'k \<Rightarrow> goerr + 'k" where
  "loadSources ops s l k0 =
     (case (case ld_defaults l of
              None \<Rightarrow> Inr k0
            | Some d \<Rightarrow>
                (case load_confmap ops d k0 of
                   Inl err \<Rightarrow> Inl (Errorf [Lit ''config: load defaults: '', PW err]) | Inr k \<Rightarrow> Inr k)) of
        Inl err \<Rightarrow> Inl err
      | Inr k1 \<Rightarrow>
          (case load_files ops s (ld_filePaths l) k1 of
             Inl err \<Rightarrow> Inl err
           | Inr k2 \<Rightarrow>
               if ld_envPrefix l \<noteq> [] then
                 (let pre = ld_envPrefix l @ ''__'' in
                  case load_env ops pre (env_key pre) s k2 of
                    Inl err \<Rightarrow> Inl (Errorf [Lit ''config: load env: '', PW err])
                  | Inr k3 \<Rightarrow> Inr k3)
               else Inr k2))"

definition NewLoader :: "('v, 'k, 's) koanf_ops \<Rightarrow> 'v loader_option list \<Rightarrow> 's \<Rightarrow> goerr + ('v, 'k) loader" where
  "NewLoader ops opts s =
     (let l = fold apply_loader_option opts
                \<lparr>ld_k = k_new ops, ld_filePaths = [], ld_envPrefix = [], ld_defaults = None, ld_onReloadError = False\<rparr>
      in case loadSources ops s l (k_new ops) of Inl err \<Rightarrow> Inl err | Inr k \<Rightarrow> Inr (l\<lparr>ld_k := k\<rparr>))"

text \<open>\<open>unmarshal\<close> is koanf's \<open>Unmarshal\<close> for the target's type.\<close>

definition Loader_Load :: "('k \<Rightarrow> goerr + 'a) \<Rightarrow> ('v, 'k) loader \<Rightarrow> goerr + 'a" where
  "Loader_Load unmarshal l =
     (case unmarshal (ld_k l) of Inl err \<Rightarrow> Inl (Errorf [Lit ''config: unmarshal: '', PW err]) | Inr x \<Rightarrow> Inr x)"

section \<open>Watching\<close>

text \<open>What the \<open>select\<close> of the watch loop can receive, with the world at that moment.\<close>

datatype watch_input = CtxDone | FileEvent bool | EventsClosed | WatcherError | ErrorsClosed

datatype watch_call = OnChange | OnReloadError goerr

definition reload :: "('v, 'k, 's) koanf_ops \<Rightarrow> 's \<Rightarrow> ('v, 'k) loader \<Rightarrow> watch_call list \<times> ('v, 'k) loader" where
  "reload ops s l =
     (case loadSources ops s l (k_new ops) of
        Inl err \<Rightarrow> (if ld_onReloadError l then [OnReloadError err] else [], l)
      | Inr k \<Rightarrow> ([OnChange], l\<lparr>ld_k := k\<rparr>))"

fun watch_loop :: "('v, 'k, 's) koanf_ops \<Rightarrow> (watch_input \<times> 's) list \<Rightarrow> ('v, 'k) loader \<Rightarrow>
    watch_call list \<times> ('v, 'k) loader" where
  "watch_loop ops [] l = ([], l)"
| "watch_loop ops ((i, s) # is) l =
     (case i of
        CtxDone \<Rightarrow> ([], l)
      | EventsClosed \<Rightarrow> ([], l)
      | ErrorsClosed \<Rightarrow> ([], l)
      | WatcherError \<Rightarrow> watch_loop ops is l
      | FileEvent written \<Rightarrow>
          if written then
            (case reload ops s l of (cs, l') \<Rightarrow> (case watch_loop ops is l' of (cs', l'') \<Rightarrow> (cs @ cs', l'')))
          else watch_loop ops is l)"

text \<open>
  \<open>Watch\<close>: \<open>new_watcher\<close> and \<open>add\<close> are fsnotify's; an error of either is returned before the loop.
\<close>

fun add_all :: "(string \<Rightarrow> goerr option) \<Rightarrow> string list \<Rightarrow> goerr option" where
  "add_all add [] = None"
| "add_all add (fp # fps) =
     (case add fp of
        Some err \<Rightarrow> Some (Errorf [Lit ''config: watch: add file '', PQ fp, Lit '': '', PW err])
      | None \<Rightarrow> add_all add fps)"

definition Watch :: "('v, 'k, 's) koanf_ops \<Rightarrow> goerr option \<Rightarrow> (string \<Rightarrow> goerr option) \<Rightarrow> (watch_input \<times> 's) list \<Rightarrow>
    ('v, 'k) loader \<Rightarrow> goerr option \<times> watch_call list \<times> ('v, 'k) loader" where
  "Watch ops new_watcher add is l =
     (if ld_filePaths l = [] then (Some (Errorf [Lit ''config: watch: no files configured'']), [], l)
      else (case new_watcher of
              Some err \<Rightarrow> (Some (Errorf [Lit ''config: watch: create watcher: '', PW err]), [], l)
            | None \<Rightarrow>
                (case add_all add (ld_filePaths l) of
                   Some err \<Rightarrow> (Some err, [], l)
                 | None \<Rightarrow> (None, watch_loop ops is l))))"

section \<open>Key mapping\<close>

fun dunder_free :: "string \<Rightarrow> bool" where
  "dunder_free (a # b # cs) = (\<not> (a = CHR ''_'' \<and> b = CHR ''_'') \<and> dunder_free (b # cs))"
| "dunder_free cs = True"

lemma replace_dunder_free: "dunder_free cs \<Longrightarrow> replace_dunder cs = cs"
  by (induction cs rule: dunder_free.induct) auto

text \<open>A path segment: no double underscore, and no underscore at its end.\<close>

definition segment :: "string \<Rightarrow> bool" where
  "segment g \<longleftrightarrow> g \<noteq> [] \<and> dunder_free g \<and> last g \<noteq> CHR ''_''"

lemma replace_segment:
  "g \<noteq> [] \<Longrightarrow> dunder_free g \<Longrightarrow> last g \<noteq> CHR ''_'' \<Longrightarrow> replace_dunder (g @ ''__'' @ rest) = g @ CHR ''.'' # replace_dunder rest"
proof (induction g rule: dunder_free.induct)
  case (1 a b cs)
  then show ?case by auto
qed auto

lemma replace_join:
  "\<forall>g \<in> set gs. segment g \<Longrightarrow> replace_dunder (join_with ''__'' gs) = join_with ''.'' gs"
proof (induction "''__''" gs rule: join_with.induct)
  case (3 x y xs)
  then have "replace_dunder (x @ ''__'' @ join_with ''__'' (y # xs)) = x @ CHR ''.'' # replace_dunder (join_with ''__'' (y # xs))"
    by (intro replace_segment) (simp_all add: segment_def)
  with 3 show ?case by simp
qed (simp_all add: segment_def replace_dunder_free)

definition to_upper_char :: "char \<Rightarrow> char" where
  "to_upper_char c = (let n = of_char c :: nat in if 97 \<le> n \<and> n \<le> 122 then char_of (n - 32) else c)"

definition no_capitals :: "string \<Rightarrow> bool" where
  "no_capitals g \<longleftrightarrow> (\<forall>c \<in> set g. \<not> (65 \<le> (of_char c :: nat) \<and> (of_char c :: nat) \<le> 90))"

lemma lower_upper_char: "\<not> (65 \<le> (of_char c :: nat) \<and> (of_char c :: nat) \<le> 90) \<Longrightarrow> to_lower_char (to_upper_char c) = c"
proof (cases "97 \<le> (of_char c :: nat) \<and> (of_char c :: nat) \<le> 122")
  case True
  then have "((of_char c :: nat) - 32) mod 256 = of_char c - 32" by (intro mod_less) linarith
  moreover from True have "65 \<le> (of_char c :: nat) - 32" "(of_char c :: nat) - 32 \<le> 90" by linarith+
  ultimately show ?thesis using True by (simp add: to_lower_char_def to_upper_char_def Let_def)
qed (auto simp: to_lower_char_def to_upper_char_def Let_def)

lemma ToLower_upper: "no_capitals g \<Longrightarrow> ToLower (map to_upper_char g) = g"
  by (induction g) (auto simp: ToLower_def no_capitals_def lower_upper_char)

lemma no_capitals_join: "\<forall>g \<in> set gs. no_capitals g \<Longrightarrow> no_capitals (join_with ''__'' gs)"
  by (induction "''__''" gs rule: join_with.induct) (auto simp: no_capitals_def)

section \<open>Precedence\<close>

text \<open>
  What koanf documents about merging, seen through \<open>look\<close>, the value at a key path: a loaded source
  overrides the keys it has and leaves the others. \<open>file_map\<close> and \<open>env_map\<close> are what the providers
  read: for the environment, the variables with the prefix, under the names the callback gives.
\<close>

definition koanf_laws :: "('v, 'k, 's) koanf_ops \<Rightarrow> ('k \<Rightarrow> string \<rightharpoonup> 'v) \<Rightarrow> (string \<Rightarrow> 's \<Rightarrow> string \<rightharpoonup> 'v) \<Rightarrow>
    (string \<Rightarrow> (string \<Rightarrow> string) \<Rightarrow> 's \<Rightarrow> string \<rightharpoonup> 'v) \<Rightarrow> bool" where
  "koanf_laws ops look file_map env_map \<longleftrightarrow>
     look (k_new ops) = Map.empty \<and>
     (\<forall>d k k'. load_confmap ops d k = Inr k' \<longrightarrow> look k' = look k ++ map_of d) \<and>
     (\<forall>fp s k k'. load_file ops fp s k = Inr k' \<longrightarrow> look k' = look k ++ file_map fp s) \<and>
     (\<forall>pre f s k k'. load_env ops pre f s k = Inr k' \<longrightarrow> look k' = look k ++ env_map pre f s)"

definition merged :: "(string \<Rightarrow> 's \<Rightarrow> string \<rightharpoonup> 'v) \<Rightarrow> (string \<Rightarrow> (string \<Rightarrow> string) \<Rightarrow> 's \<Rightarrow> string \<rightharpoonup> 'v) \<Rightarrow>
    's \<Rightarrow> ('v, 'k) loader \<Rightarrow> string \<rightharpoonup> 'v" where
  "merged file_map env_map s l =
     foldl (++) (case ld_defaults l of None \<Rightarrow> Map.empty | Some d \<Rightarrow> map_of d) (map (\<lambda>fp. file_map fp s) (ld_filePaths l)) ++
     (if ld_envPrefix l = [] then Map.empty
      else let pre = ld_envPrefix l @ ''__'' in env_map pre (env_key pre) s)"

lemma load_files_merged:
  "koanf_laws ops look fm em \<Longrightarrow> load_files ops s fps k = Inr k' \<Longrightarrow>
     look k' = foldl (++) (look k) (map (\<lambda>fp. fm fp s) fps)"
proof (induction fps arbitrary: k)
  case (Cons fp fps)
  then obtain k1 where "load_file ops fp s k = Inr k1" and l: "load_files ops s fps k1 = Inr k'"
    by (auto split: sum.splits)
  then have "look k1 = look k ++ fm fp s" using Cons.prems(1) by (simp add: koanf_laws_def)
  with Cons.IH[OF Cons.prems(1) l] show ?case by simp
qed simp

lemma loadSources_merged:
  assumes laws: "koanf_laws ops look fm em" and "loadSources ops s l (k_new ops) = Inr k"
  shows "look k = merged fm em s l"
proof -
  from assms(2) obtain k1 k2 where
    k1: "(case ld_defaults l of None \<Rightarrow> Inr (k_new ops) | Some d \<Rightarrow> load_confmap ops d (k_new ops)) = Inr k1"
    and k2: "load_files ops s (ld_filePaths l) k1 = Inr k2"
    and k: "if ld_envPrefix l = [] then k = k2
      else load_env ops (ld_envPrefix l @ ''__'') (env_key (ld_envPrefix l @ ''__'')) s k2 = Inr k"
    by (auto simp: loadSources_def Let_def split: option.splits sum.splits if_splits)
  from laws k1 have "look k1 = (case ld_defaults l of None \<Rightarrow> Map.empty | Some d \<Rightarrow> map_of d)"
    by (auto simp: koanf_laws_def split: option.splits)
  with load_files_merged[OF laws k2] laws k show ?thesis
    by (auto simp: merged_def koanf_laws_def Let_def split: if_splits)
qed

section \<open>Watching keeps a working configuration\<close>

lemma loadSources_k: "loadSources ops s (l\<lparr>ld_k := k\<rparr>) k0 = loadSources ops s l k0"
  by (auto simp: loadSources_def Let_def split: sum.splits option.splits)

lemma reload_cases:
  obtains err where "loadSources ops s l (k_new ops) = Inl err"
      "reload ops s l = (if ld_onReloadError l then [OnReloadError err] else [], l)"
    | k where "loadSources ops s l (k_new ops) = Inr k" "reload ops s l = ([OnChange], l\<lparr>ld_k := k\<rparr>)"
  by (cases "loadSources ops s l (k_new ops)") (simp_all add: reload_def)

lemma watch_loop_config:
  "watch_loop ops is l = (cs, l') \<Longrightarrow>
     l' = l\<lparr>ld_k := ld_k l'\<rparr> \<and>
     (if OnChange \<in> set cs then \<exists>s \<in> snd ` set is. loadSources ops s l (k_new ops) = Inr (ld_k l') else ld_k l' = ld_k l)"
proof (induction "is" arbitrary: l cs)
  case (Cons i "is")
  obtain inp s where i: "i = (inp, s)" by (cases i)
  show ?case
  proof (cases "inp = FileEvent True")
    case False
    with Cons.IH[of l cs] Cons.prems i show ?thesis by (cases inp) (auto split: if_splits)
  next
    case True
    show ?thesis
    proof (cases rule: reload_cases[of ops s l])
      case (1 err)
      with Cons.prems i True obtain cs2 where "watch_loop ops is l = (cs2, l')"
        "cs = (if ld_onReloadError l then [OnReloadError err] else []) @ cs2" by (auto split: prod.splits)
      with Cons.IH[of l cs2] show ?thesis by auto
    next
      case (2 k)
      with Cons.prems i True obtain cs2 where w: "watch_loop ops is (l\<lparr>ld_k := k\<rparr>) = (cs2, l')"
        and cs: "cs = OnChange # cs2" by (auto split: prod.splits)
      from Cons.IH[OF w] cs 2 i show ?thesis by (auto simp: loadSources_k split: if_splits)
    qed
  qed
qed simp

section \<open>Properties\<close>

text \<open>Environment variables reach nested keys: the variable named by the prefix and the upper-case
  segments of a key path, joined by double underscores, sets the path in dot notation; single
  underscores inside a segment are kept.\<close>

lemma env_key_round_trip:
  assumes "\<forall>g \<in> set gs. segment g \<and> no_capitals g"
  shows "env_key (pre @ ''__'') (pre @ ''__'' @ map to_upper_char (join_with ''__'' gs)) = join_with ''.'' gs"
proof -
  have "TrimPrefix ((pre @ ''__'') @ x) (pre @ ''__'') = x" for x :: string by (rule TrimPrefix_append)
  then show ?thesis using assms by (simp add: env_key_def ToLower_upper no_capitals_join replace_join)
qed

text \<open>A variable with single underscores, such as the documented \<open>MYAPP_SERVER_ADDR\<close> for the prefix
  \<open>MYAPP\<close>, does not carry the prefix the loader asks the environment for, so it is not read.\<close>

lemma single_underscore_not_read:
  "HasPrefix (pre @ ''_'' @ c # rest) (pre @ ''__'') = (c = CHR ''_'')"
  by (simp add: HasPrefix_def)

text \<open>C28: Sources are merged in their documented order: the environment overrides the files, a later
  file overrides an earlier one, and all override the defaults; a key keeps the last value given.\<close>

theorem loader_precedence:
  assumes "koanf_laws ops look file_map env_map" and "NewLoader ops opts s = Inr l"
  shows "look (ld_k l) = merged file_map env_map s l"
proof -
  from assms(2) obtain l0 k where "loadSources ops s l0 (k_new ops) = Inr k" "l = l0\<lparr>ld_k := k\<rparr>"
    by (auto simp: NewLoader_def Let_def split: sum.splits)
  with loadSources_merged[OF assms(1)] show ?thesis by (simp add: merged_def)
qed

text \<open>A koanf whose configurations are maps; the world gives the files' contents, a missing file is an error.\<close>

definition demo_koanf :: "(nat, string \<rightharpoonup> nat, string \<Rightarrow> (string \<rightharpoonup> nat) option) koanf_ops" where
  "demo_koanf = \<lparr>k_new = Map.empty, load_confmap = (\<lambda>d k. Inr (k ++ map_of d)),
     load_file = (\<lambda>fp s k. case s fp of None \<Rightarrow> Inl (ErrNew ''no such file'') | Some m \<Rightarrow> Inr (k ++ m)),
     load_env = (\<lambda>pre f s k. Inr (k ++ [f (pre @ ''PORT'') \<mapsto> 9]))\<rparr>"

definition demo_files :: "string \<Rightarrow> (string \<rightharpoonup> nat) option" where
  "demo_files = [''a.yaml'' \<mapsto> [''port'' \<mapsto> 1, ''x'' \<mapsto> 1], ''b.yaml'' \<mapsto> [''x'' \<mapsto> 2]]"

theorem loader_precedence_witness:
  "\<exists>l. NewLoader demo_koanf [WithDefaults [(''y'', 0)], WithFiles [''a.yaml'', ''b.yaml''], WithEnvPrefix ''P''] demo_files = Inr l \<and>
     ld_k l ''port'' = Some 9 \<and> ld_k l ''x'' = Some 2 \<and> ld_k l ''y'' = Some 0"
proof -
  let ?fm = "\<lambda>fp s. case s fp of None \<Rightarrow> Map.empty | Some m \<Rightarrow> m" and ?em = "\<lambda>pre f s. [f (pre @ ''PORT'') \<mapsto> 9]"
  have laws: "koanf_laws demo_koanf (\<lambda>k. k) ?fm ?em"
    by (auto simp: koanf_laws_def demo_koanf_def split: option.splits)
  obtain l where l: "NewLoader demo_koanf [WithDefaults [(''y'', 0)], WithFiles [''a.yaml'', ''b.yaml''], WithEnvPrefix ''P''] demo_files = Inr l"
    and c: "ld_defaults l = Some [(''y'', 0)]" "ld_filePaths l = [''a.yaml'', ''b.yaml'']" "ld_envPrefix l = ''P''"
    by (simp add: NewLoader_def loadSources_def demo_koanf_def demo_files_def Let_def)
  have "env_key ''P__'' ''P__PORT'' = ''port''"
    by (simp add: env_key_def TrimPrefix_def HasPrefix_def ToLower_def to_lower_char_def char_of_def bit_0)
  with loader_precedence[OF laws l] l c show ?thesis by (simp add: merged_def demo_files_def)
qed

text \<open>C29: A failed reload is rolled back: whatever happens while watching, the configuration in effect
  is the old one, or one that loaded completely during the watch; it changes only together with a
  call of the change callback.\<close>

theorem Watch_keeps_working_config:
  assumes "Watch ops nw add is l = (err, cs, l')"
  shows "l' = l\<lparr>ld_k := ld_k l'\<rparr> \<and>
    (if OnChange \<in> set cs then \<exists>s \<in> snd ` set is. loadSources ops s l (k_new ops) = Inr (ld_k l') else ld_k l' = ld_k l)"
proof -
  from assms have "watch_loop ops is l = (cs, l') \<or> (cs = [] \<and> l' = l)"
    by (auto simp: Watch_def split: if_splits option.splits)
  then show ?thesis using watch_loop_config by fastforce
qed

theorem Watch_keeps_working_config_witness:
  "ld_k (snd (snd (Watch demo_koanf None (\<lambda>fp. None) [(FileEvent True, \<lambda>_. None), (CtxDone, \<lambda>_. None)]
     \<lparr>ld_k = [''port'' \<mapsto> 1], ld_filePaths = [''a.yaml''], ld_envPrefix = [], ld_defaults = None, ld_onReloadError = True\<rparr>))) = [''port'' \<mapsto> 1]"
proof -
  let ?l = "\<lparr>ld_k = [''port'' \<mapsto> (1 :: nat)], ld_filePaths = [''a.yaml''], ld_envPrefix = [], ld_defaults = None, ld_onReloadError = True\<rparr>"
  let ?w = "Watch demo_koanf None (\<lambda>fp. None) [(FileEvent True, \<lambda>_. None), (CtxDone, \<lambda>_. None)] ?l"
  obtain err cs l' where w: "?w = (err, cs, l')" by (rule prod_cases3)
  then have "OnChange \<notin> set cs" by (auto simp: Watch_def reload_def loadSources_def demo_koanf_def)
  with Watch_keeps_working_config[OF w] w show ?thesis by simp
qed

end
