(* ===== verification/Paths.thy ===== *)
theory Paths
  imports Lifecycle
begin

text \<open>
  The parts of Go's \<open>path/filepath\<close> (on Unix) and \<open>strings\<close> the command line tool uses: lexical
  path operations, \<open>ReplaceAll\<close>, and \<open>filepath.Walk\<close> over a file tree.
\<close>

section \<open>Lexical paths\<close>

fun split_on :: "char \<Rightarrow> string \<Rightarrow> string list" where
  "split_on c [] = [[]]"
| "split_on c (x # xs) =
     (if x = c then [] # split_on c xs
      else (case split_on c xs of [] \<Rightarrow> [[x]] | y # ys \<Rightarrow> (x # y) # ys))"

abbreviation slash :: char where "slash \<equiv> CHR ''/''"

text \<open>\<open>Clean\<close>: the segments, the kept ones on a stack.\<close>

fun clean_segs :: "bool \<Rightarrow> string list \<Rightarrow> string list \<Rightarrow> string list" where
  "clean_segs rooted [] acc = rev acc"
| "clean_segs rooted (s # ss) acc =
     (if s = [] \<or> s = ''.'' then clean_segs rooted ss acc
      else if s = ''..'' then
        (case acc of
           [] \<Rightarrow> clean_segs rooted ss (if rooted then [] else [s])
         | a # as \<Rightarrow> if a = ''..'' then clean_segs rooted ss (s # acc) else clean_segs rooted ss as)
      else clean_segs rooted ss (s # acc))"

definition Clean :: "string \<Rightarrow> string" where
  "Clean p =
     (let rooted = HasPrefix p ''/'';
          body = join_with ''/'' (clean_segs rooted (split_on slash p) [])
      in if rooted then slash # body else if body = [] then ''.'' else body)"

definition Join :: "string list \<Rightarrow> string" where
  "Join es =
     (let es' = dropWhile (\<lambda>e. e = []) es in
      if es' = [] then [] else Clean (join_with ''/'' es'))"

definition strip_slashes :: "string \<Rightarrow> string" where
  "strip_slashes p = rev (dropWhile (\<lambda>c. c = slash) (rev p))"

definition Base :: "string \<Rightarrow> string" where
  "Base p =
     (if p = [] then ''.''
      else let q = strip_slashes p in if q = [] then ''/'' else last (split_on slash q))"

definition Dir :: "string \<Rightarrow> string" where
  "Dir p = Clean (rev (dropWhile (\<lambda>c. c \<noteq> slash) (rev p)))"

section \<open>Replacing\<close>

function ReplaceAll :: "string \<Rightarrow> string \<Rightarrow> string \<Rightarrow> string" where
  "ReplaceAll old new s =
     (if old = [] \<or> s = [] then s
      else if HasPrefix s old then new @ ReplaceAll old new (drop (length old) s)
      else hd s # ReplaceAll old new (tl s))"
  by pat_completeness auto
termination by (relation "measure (\<lambda>(old, new, s). length s)") auto

declare ReplaceAll.simps [simp del]

section \<open>File system calls\<close>

record 's fs_ops =
  mkdir_all :: "string \<Rightarrow> 's fallible"
  write_file :: "string \<Rightarrow> string \<Rightarrow> 's fallible"

text \<open>
  \<open>files\<close> are the regular files with their content. Both calls may fail. Making directories leaves the files as they
  are; a write touches only its own file, which has the content when it succeeds, and anything when it fails.
\<close>

definition fs_laws :: "'s fs_ops \<Rightarrow> ('s \<Rightarrow> string \<Rightarrow> string option) \<Rightarrow> bool" where
  "fs_laws ops files \<longleftrightarrow>
     (\<forall>d s r s1. mkdir_all ops d s = (r, s1) \<longrightarrow> files s1 = files s) \<and>
     (\<forall>p c s r s1. write_file ops p c s = (r, s1) \<longrightarrow>
        (\<forall>q. q \<noteq> p \<longrightarrow> files s1 q = files s q) \<and> (r = None \<longrightarrow> files s1 p = Some c))"

definition never_fails :: "'s fs_ops \<Rightarrow> bool" where
  "never_fails ops \<longleftrightarrow> (\<forall>d s. fst (mkdir_all ops d s) = None) \<and> (\<forall>p c s. fst (write_file ops p c s) = None)"

text \<open>What a sequence of writes that ended with result \<open>r\<close> has done to the files.\<close>

definition touched :: "(string \<Rightarrow> string option) \<Rightarrow> (string \<times> string) list \<Rightarrow> goerr option \<Rightarrow> (string \<Rightarrow> string option) \<Rightarrow> bool" where
  "touched m ws r m' \<longleftrightarrow> (\<forall>p. p \<notin> fst ` set ws \<longrightarrow> m' p = m p) \<and> (r = None \<longrightarrow> m' = m ++ map_of (rev ws))"

lemma touched_Nil [simp]: "touched m [] r m' \<longleftrightarrow> m' = m"
  by (auto simp: touched_def)

lemma touched_failed: "touched m ws (Some e) m' \<Longrightarrow> touched m (ws @ vs) (Some e) m'"
  by (auto simp: touched_def)

lemma touched_append: "touched m ws None m1 \<Longrightarrow> touched m1 vs r m2 \<Longrightarrow> touched m (ws @ vs) r m2"
  unfolding touched_def by (simp only: set_append image_Un Un_iff rev_append map_of_append map_add_assoc de_Morgan_disj) metis

lemma fs_mkdir: "fs_laws ops files \<Longrightarrow> mkdir_all ops d s = (r, s1) \<Longrightarrow> files s1 = files s"
  unfolding fs_laws_def by blast

lemma fs_write: "fs_laws ops files \<Longrightarrow> write_file ops p c s = (r, s1) \<Longrightarrow> touched (files s) [(p, c)] r (files s1)"
proof -
  assume "fs_laws ops files" "write_file ops p c s = (r, s1)"
  then have "\<forall>q. q \<noteq> p \<longrightarrow> files s1 q = files s q" "r = None \<longrightarrow> files s1 p = Some c" unfolding fs_laws_def by blast+
  then show ?thesis by (auto simp: touched_def fun_eq_iff)
qed

section \<open>Walking a file tree\<close>

text \<open>
  A tree as \<open>filepath.Walk\<close> sees it: an entry that cannot be examined, a file, or a directory whose
  entries, sorted by name, can be read or not.
\<close>

datatype fs_node =
    Gone string goerr
  | FileNode string
  | DirNode string "goerr + fs_node list"

fun node_name :: "fs_node \<Rightarrow> string" where
  "node_name (Gone n e) = n"
| "node_name (FileNode n) = n"
| "node_name (DirNode n r) = n"

datatype walk_result = WalkOk | SkipDir | WalkErr goerr

text \<open>
  The visited function gets the path, whether the entry is a directory (\<open>None\<close> if it could not be
  examined) and the error. Skipping at a file, which leaves the rest of its directory out, does not
  occur in the sources' visitors and is treated as skipping nothing.
\<close>

type_synonym 's visitor = "string \<Rightarrow> bool option \<Rightarrow> goerr option \<Rightarrow> 's \<Rightarrow> walk_result \<times> 's"

fun walk :: "'s visitor \<Rightarrow> string \<Rightarrow> fs_node \<Rightarrow> 's \<Rightarrow> walk_result \<times> 's"
  and walk_all :: "'s visitor \<Rightarrow> string \<Rightarrow> fs_node list \<Rightarrow> 's \<Rightarrow> walk_result \<times> 's" where
  "walk v p (Gone n e) s = v p None (Some e) s"
| "walk v p (FileNode n) s = v p (Some False) None s"
| "walk v p (DirNode n (Inl e)) s = v p (Some True) (Some e) s"
| "walk v p (DirNode n (Inr ns)) s =
     (case v p (Some True) None s of
        (WalkOk, s1) \<Rightarrow> walk_all v p ns s1
      | (res, s1) \<Rightarrow> (res, s1))"
| "walk_all v p [] s = (WalkOk, s)"
| "walk_all v p (n # ns) s =
     (case walk v (Join [p, node_name n]) n s of
        (WalkErr e, s1) \<Rightarrow> (WalkErr e, s1)
      | (_, s1) \<Rightarrow> walk_all v p ns s1)"

definition Walk :: "'s visitor \<Rightarrow> string \<Rightarrow> fs_node \<Rightarrow> 's fallible" where
  "Walk v root n s =
     (case walk v root n s of
        (WalkErr e, s1) \<Rightarrow> (Some e, s1)
      | (_, s1) \<Rightarrow> (None, s1))"

section \<open>Facts\<close>

text \<open>What every visit keeps, the walk keeps.\<close>

lemma walk_invariant:
  "(\<And>p i e s. P s \<Longrightarrow> P (snd (v p i e s))) \<Longrightarrow> P s \<Longrightarrow> P (snd (walk v p n s))"
  "(\<And>p i e s. P s \<Longrightarrow> P (snd (v p i e s))) \<Longrightarrow> P s \<Longrightarrow> P (snd (walk_all v p ns s))"
proof (induction v p n s and v p ns s rule: walk_walk_all.induct)
  case (4 v p n ns s)
  obtain r s1 where v: "v p (Some True) None s = (r, s1)" by (cases "v p (Some True) None s")
  have "P s1" using "4.prems"(1)[OF "4.prems"(2), of p "Some True" None] v by simp
  with v 4 show ?case by (cases r) auto
next
  case (6 v p n ns s)
  obtain r s1 where w: "walk v (Join [p, node_name n]) n s = (r, s1)" by (cases "walk v (Join [p, node_name n]) n s")
  have "P s1" using 6 w by force
  with w 6 show ?case by (cases r) auto
qed auto

lemma split_on_not_Nil [simp]: "split_on c s \<noteq> []"
  by (induction s) (auto split: list.splits)

lemma split_on_plain: "c \<notin> set s \<Longrightarrow> split_on c s = [s]"
  by (induction s) auto

lemma split_on_append: "c \<notin> set s \<Longrightarrow> split_on c (s @ c # t) = s # split_on c t"
  by (induction s) auto

text \<open>A name that can stand in a path as one segment.\<close>

definition plain_name :: "string \<Rightarrow> bool" where
  "plain_name s \<longleftrightarrow> s \<noteq> [] \<and> s \<noteq> ''.'' \<and> s \<noteq> ''..'' \<and> slash \<notin> set s"

lemma split_on_join: "ss \<noteq> [] \<Longrightarrow> \<forall>s \<in> set ss. slash \<notin> set s \<Longrightarrow> split_on slash (join_with ''/'' ss) = ss"
proof (induction ss rule: induct_list012)
  case (3 x y zs)
  then show ?case using split_on_append[of slash x "join_with ''/'' (y # zs)"] by simp
qed (simp_all add: split_on_plain)

lemma clean_segs_plain: "\<forall>s \<in> set ss. plain_name s \<Longrightarrow> clean_segs rooted ss acc = rev acc @ ss"
  by (induction ss arbitrary: acc) (simp_all add: plain_name_def)

text \<open>On relative paths of plain names, \<open>Join\<close> appends segments.\<close>

definition rel_path :: "string list \<Rightarrow> string" where
  "rel_path ss = join_with ''/'' ss"

lemma Clean_rel_path:
  assumes "ss \<noteq> []" and "\<forall>s \<in> set ss. plain_name s"
  shows "Clean (rel_path ss) = rel_path ss"
proof -
  have sp: "split_on slash (rel_path ss) = ss"
    unfolding rel_path_def using assms by (intro split_on_join) (auto simp: plain_name_def)
  obtain s ss' where ss: "ss = s # ss'" using assms(1) by (cases ss) auto
  obtain c cs where c: "s = c # cs" "c \<noteq> slash" using assms(2) ss by (cases s) (auto simp: plain_name_def)
  have "\<exists>ds. rel_path ss = c # ds" unfolding ss rel_path_def c(1) by (cases ss') simp_all
  then obtain ds where "rel_path ss = c # ds" ..
  with c(2) have ne: "rel_path ss \<noteq> []" and "\<not> HasPrefix (rel_path ss) ''/''" by (simp_all add: HasPrefix_def)
  with sp ne show ?thesis by (simp add: Clean_def clean_segs_plain[OF assms(2)] rel_path_def[symmetric])
qed

lemma Join_rel_path:
  assumes "ss \<noteq> []" and "\<forall>s \<in> set ss. plain_name s" and "plain_name n"
  shows "Join [rel_path ss, n] = rel_path (ss @ [n])"
proof -
  obtain s ss' where ss: "ss = s # ss'" using assms(1) by (cases ss) auto
  have "rel_path ss \<noteq> []" using assms(2) ss by (cases ss') (auto simp: rel_path_def plain_name_def)
  moreover have "join_with ''/'' [rel_path ss, n] = rel_path (ss @ [n])"
    using assms(1) unfolding rel_path_def by (induction ss rule: induct_list012) simp_all
  moreover have "\<forall>s \<in> set (ss @ [n]). plain_name s" using assms(2,3) by simp
  ultimately show ?thesis using Clean_rel_path[of "ss @ [n]"] by (simp add: Join_def)
qed

lemma rel_path_append: "ss \<noteq> [] \<Longrightarrow> ts \<noteq> [] \<Longrightarrow> rel_path (ss @ ts) = rel_path ss @ ''/'' @ rel_path ts"
proof -
  assume ts: "ts \<noteq> []"
  then obtain t ts' where t: "ts = t # ts'" by (cases ts) auto
  show "ss \<noteq> [] \<Longrightarrow> rel_path (ss @ ts) = rel_path ss @ ''/'' @ rel_path ts"
    unfolding rel_path_def t by (induction ss rule: induct_list012) simp_all
qed

lemma Join_rel_paths:
  assumes "ss \<noteq> []" and "ts \<noteq> []" and "\<forall>s \<in> set (ss @ ts). plain_name s"
  shows "Join [rel_path ss, rel_path ts] = rel_path (ss @ ts)"
proof -
  obtain s ss' where ss: "ss = s # ss'" using assms(1) by (cases ss) auto
  have "rel_path ss \<noteq> []" using assms(3) ss by (cases ss') (auto simp: rel_path_def plain_name_def)
  moreover have "join_with ''/'' [rel_path ss, rel_path ts] = rel_path (ss @ ts)"
    using rel_path_append[OF assms(1,2)] by simp
  ultimately show ?thesis using Clean_rel_path[of "ss @ ts"] assms by (simp add: Join_def)
qed

lemma Base_rel_path:
  assumes "ss \<noteq> []" and "\<forall>s \<in> set ss. plain_name s"
  shows "Base (rel_path ss) = last ss"
proof -
  have l: "plain_name (last ss)" using assms by simp
  have "rel_path ss = rel_path (butlast ss) @ (if butlast ss = [] then [] else ''/'') @ last ss"
    using assms(1) unfolding rel_path_def by (induction ss rule: induct_list012) auto
  then obtain pre where pre: "rel_path ss = pre @ last ss" by (metis append.assoc)
  obtain c cs where c: "rev (last ss) = c # cs" "c \<noteq> slash"
  proof (cases "rev (last ss)")
    case (Cons d ds)
    then have "d \<in> set (last ss)" by (metis list.set_intros(1) set_rev)
    with l have "d \<noteq> slash" by (auto simp: plain_name_def)
    with Cons show ?thesis by (rule that)
  qed (use l in \<open>simp add: plain_name_def\<close>)
  then have "last ss = rev cs @ [c]" by (metis rev.simps(2) rev_rev_ident)
  then have "strip_slashes (rel_path ss) = rel_path ss" using c(2) by (simp add: strip_slashes_def pre)
  moreover have "split_on slash (rel_path ss) = ss"
    unfolding rel_path_def using assms by (intro split_on_join) (auto simp: plain_name_def)
  moreover have "rel_path ss \<noteq> []" using pre l by (auto simp: plain_name_def)
  ultimately show ?thesis by (simp add: Base_def)
qed

end
