(* ===== verification/Scaffold.thy ===== *)
theory Scaffold
  imports Config Paths
begin

text \<open>
  Project generation, \<open>src/internal/scaffold/scaffold.go\<close>.

  The embedded template files are a list of paths and contents in the order \<open>fs.WalkDir\<close> visits them
  (directories are passed over). \<open>text/template\<close> is the record \<open>tmpl_engine\<close>, with the generator's
  functions registered. Names are ASCII, as in \<open>Config\<close>.
\<close>

section \<open>Names\<close>

record scaffold_data =
  sd_Name :: string
  sd_Module :: string
  sd_Postgres :: bool
  sd_Kafka :: bool
  sd_NATS :: bool
  sd_Redis :: bool
  sd_Temporal :: bool
  sd_S3 :: bool
  sd_Connect :: bool

definition ToUpper :: "string \<Rightarrow> string" where
  "ToUpper = map to_upper_char"

definition titleCase :: "string \<Rightarrow> string" where
  "titleCase s = (if s = [] then s else ToUpper (take 1 s) @ drop 1 s)"

definition snakeCase :: "string \<Rightarrow> string" where
  "snakeCase s = ReplaceAll ''-'' ''_'' s"

text \<open>The loop of \<open>pascalCase\<close>; the first argument is \<open>upper\<close>.\<close>

fun pascal_loop :: "bool \<Rightarrow> string \<Rightarrow> string" where
  "pascal_loop up [] = []"
| "pascal_loop up (r # rs) =
     (if r = CHR ''-'' \<or> r = CHR ''_'' then pascal_loop True rs
      else if up then ToUpper [r] @ pascal_loop False rs
      else r # pascal_loop False rs)"

definition pascalCase :: "string \<Rightarrow> string" where
  "pascalCase s = pascal_loop True s"

fun strip_first_suffix :: "string \<Rightarrow> string list \<Rightarrow> string \<Rightarrow> string" where
  "strip_first_suffix low [] s = s"
| "strip_first_suffix low (sfx # ss) s =
     (if HasSuffix low sfx then take (length s - length sfx) s else strip_first_suffix low ss s)"

definition serviceName :: "string \<Rightarrow> string" where
  "serviceName s = pascalCase (strip_first_suffix (ToLower s) [''-service'', ''_service'', ''-svc'', ''_svc''] s)"

definition componentEnabled :: "string \<Rightarrow> scaffold_data \<Rightarrow> bool" where
  "componentEnabled component data =
     (if component = ''postgres'' then sd_Postgres data
      else if component = ''kafka'' then sd_Kafka data
      else if component = ''nats'' then sd_NATS data
      else if component = ''redis'' then sd_Redis data
      else if component = ''temporal'' then sd_Temporal data
      else if component = ''s3'' then sd_S3 data
      else if component = ''connect'' then sd_Connect data
      else False)"

text \<open>The functions \<open>New\<close> registers for the templates.\<close>

definition Generator_New :: "(string \<times> (string \<Rightarrow> string)) list" where
  "Generator_New = [(''upper'', ToUpper), (''title'', titleCase), (''pascal'', pascalCase), (''snake'', snakeCase),
     (''serviceName'', serviceName)]"

section \<open>Rendering\<close>

record 't tmpl_engine =
  tmpl_parse :: "string \<Rightarrow> string \<Rightarrow> goerr + 't"      \<comment> \<open>name, content\<close>
  tmpl_exec :: "'t \<Rightarrow> scaffold_data \<Rightarrow> goerr + string"

text \<open>The path after \<open>templates/\<close>, split at its first slash: component and rest.\<close>

definition template_component :: "string \<Rightarrow> string" where
  "template_component path = (let rel = TrimPrefix path ''templates/'' in takeWhile (\<lambda>c. c \<noteq> slash) rel)"

definition template_rel :: "string \<Rightarrow> string" where
  "template_rel path =
     (let rel = TrimPrefix path ''templates/'' in
      if slash \<in> set rel then tl (dropWhile (\<lambda>c. c \<noteq> slash) rel) else rel)"

definition out_path :: "string \<Rightarrow> scaffold_data \<Rightarrow> string \<Rightarrow> string" where
  "out_path outputDir data path =
     Join [outputDir, ReplaceAll ''__name__'' (snakeCase (sd_Name data)) (TrimSuffix (template_rel path) ''.tmpl'')]"

definition render_file :: "'t tmpl_engine \<Rightarrow> 's fs_ops \<Rightarrow> string \<Rightarrow> scaffold_data \<Rightarrow> string \<times> string \<Rightarrow> 's fallible" where
  "render_file eng ops outputDir data f s =
     (let path = fst f; component = template_component path in
      if \<not> HasSuffix path ''.tmpl'' then (None, s)
      else if component \<noteq> ''base'' \<and> \<not> componentEnabled component data then (None, s)
      else
        let outPath = out_path outputDir data path in
        (case mkdir_all ops (Dir outPath) s of
           (Some err, s1) \<Rightarrow> (Some (Errorf [Lit ''creating directory for '', PS outPath, Lit '': '', PW err]), s1)
         | (None, s1) \<Rightarrow>
             (case tmpl_parse eng (Base path) (snd f) of
                Inl err \<Rightarrow> (Some (Errorf [Lit ''parsing template '', PS path, Lit '': '', PW err]), s1)
              | Inr tmpl \<Rightarrow>
                  (case tmpl_exec eng tmpl data of
                     Inl err \<Rightarrow> (Some (Errorf [Lit ''executing template '', PS path, Lit '': '', PW err]), s1)
                   | Inr out \<Rightarrow>
                       (case write_file ops outPath out s1 of
                          (Some err, s2) \<Rightarrow> (Some (Errorf [Lit ''writing '', PS outPath, Lit '': '', PW err]), s2)
                        | (None, s2) \<Rightarrow> (None, s2))))))"

definition Render :: "'t tmpl_engine \<Rightarrow> 's fs_ops \<Rightarrow> (string \<times> string) list \<Rightarrow> string \<Rightarrow> string \<Rightarrow> scaffold_data \<Rightarrow> 's fallible" where
  "Render eng ops templateFS validateProto outputDir data s =
     (let validateDir = Join [outputDir, ''proto'', ''buf'', ''validate''];
          copied =
            (if sd_Connect data then
               (case mkdir_all ops validateDir s of
                  (Some err, s1) \<Rightarrow> (Some (Errorf [Lit ''creating validate proto directory: '', PW err]), s1)
                | (None, s1) \<Rightarrow>
                    (case write_file ops (Join [validateDir, ''validate.proto'']) validateProto s1 of
                       (Some err, s2) \<Rightarrow> (Some (Errorf [Lit ''writing validate.proto: '', PW err]), s2)
                     | (None, s2) \<Rightarrow> (None, s2)))
             else (None, s))
      in case copied of
           (Some err, s1) \<Rightarrow> (Some err, s1)
         | (None, s1) \<Rightarrow> run_until (render_file eng ops outputDir data) templateFS s1)"

section \<open>Facts\<close>

lemma ReplaceAll_hyphen: "ReplaceAll ''-'' ''_'' s = map (\<lambda>c. if c = CHR ''-'' then CHR ''_'' else c) s"
proof (induction s)
  case Nil
  then show ?case by (simp add: ReplaceAll.simps[of _ _ "[]"])
next
  case (Cons c s)
  then show ?case by (simp add: ReplaceAll.simps[of _ _ "c # s"] HasPrefix_def)
qed

lemma pascal_loop_snake: "pascal_loop up (map (\<lambda>c. if c = CHR ''-'' then CHR ''_'' else c) s) = pascal_loop up s"
  by (induction s arbitrary: up) simp_all

definition is_upper :: "char \<Rightarrow> bool" where
  "is_upper c \<longleftrightarrow> (let n = of_char c :: nat in 65 \<le> n \<and> n \<le> 90)"

definition is_lower :: "char \<Rightarrow> bool" where
  "is_lower c \<longleftrightarrow> (let n = of_char c :: nat in 97 \<le> n \<and> n \<le> 122)"

definition is_digit :: "char \<Rightarrow> bool" where
  "is_digit c \<longleftrightarrow> (let n = of_char c :: nat in 48 \<le> n \<and> n \<le> 57)"

definition is_alnum :: "char \<Rightarrow> bool" where
  "is_alnum c \<longleftrightarrow> is_upper c \<or> is_lower c \<or> is_digit c"

text \<open>A project name: letters, digits and separators, with a letter before any digit.\<close>

definition project_name :: "string \<Rightarrow> bool" where
  "project_name s \<longleftrightarrow>
     list_all (\<lambda>c. is_alnum c \<or> c = CHR ''-'' \<or> c = CHR ''_'') s \<and>
     (case dropWhile (\<lambda>c. c = CHR ''-'' \<or> c = CHR ''_'') s of [] \<Rightarrow> False | c # _ \<Rightarrow> \<not> is_digit c)"

text \<open>What Go accepts as the name of an exported declaration (on ASCII).\<close>

definition exported_identifier :: "string \<Rightarrow> bool" where
  "exported_identifier s \<longleftrightarrow> (case s of [] \<Rightarrow> False | c # cs \<Rightarrow> is_upper c \<and> list_all is_alnum cs)"

lemma to_upper_alnum: "is_alnum c \<Longrightarrow> is_alnum (to_upper_char c) \<and> (\<not> is_digit c \<longrightarrow> is_upper (to_upper_char c))"
  by (auto simp: is_alnum_def is_upper_def is_lower_def is_digit_def to_upper_char_def Let_def)

lemma pascal_loop_alnum:
  "list_all (\<lambda>c. is_alnum c \<or> c = CHR ''-'' \<or> c = CHR ''_'') s \<Longrightarrow> list_all is_alnum (pascal_loop up s)"
  by (induction s arbitrary: up) (auto simp: ToUpper_def to_upper_alnum)

lemma pascal_loop_separators:
  "pascal_loop True (dropWhile (\<lambda>c. c = CHR ''-'' \<or> c = CHR ''_'') s) = pascal_loop True s"
  by (induction s) simp_all

text \<open>Of two suffixes of a string the shorter is a suffix of the longer.\<close>

lemma HasSuffix_nested: "HasSuffix s p \<Longrightarrow> HasSuffix s q \<Longrightarrow> length q \<le> length p \<Longrightarrow> drop (length p - length q) p = q"
  by (auto simp: HasSuffix_def) (metis add.commute diff_le_mono2 drop_drop le_add_diff_inverse2 length_drop)

definition service_suffixes :: "string list" where
  "service_suffixes = [''-service'', ''_service'', ''-svc'', ''_svc'']"

lemma strip_service_suffix:
  assumes "HasSuffix low sfx" and "sfx \<in> set service_suffixes"
  shows "strip_first_suffix low service_suffixes s = take (length s - length sfx) s"
proof -
  have "p = sfx \<or> \<not> HasSuffix low p" if "p \<in> set service_suffixes" for p
  proof (rule ccontr)
    assume "\<not> (p = sfx \<or> \<not> HasSuffix low p)"
    then have "p \<noteq> sfx" "HasSuffix low p" by auto
    moreover from this assms(1) have "drop (length p - length sfx) p = sfx \<or> drop (length sfx - length p) sfx = p"
      using HasSuffix_nested by (metis linear)
    ultimately show False using that assms(2) by (auto simp: service_suffixes_def)
  qed
  then have "strip_first_suffix low ps s = take (length s - length sfx) s"
    if "sfx \<in> set ps" "set ps \<subseteq> set service_suffixes" for ps
    using that assms(1)
  proof (induction ps)
    case (Cons p ps)
    then show ?case by (cases "p = sfx") auto
  qed simp
  from this[OF assms(2)] show ?thesis by simp
qed

lemma HasSuffix_ToLower: "HasSuffix (ToLower (s @ t)) (ToLower t)"
  by (simp add: ToLower_def)

text \<open>What \<open>Render\<close> writes, in terms of its own helpers: the paths and contents, in order.\<close>

definition selected :: "scaffold_data \<Rightarrow> string \<Rightarrow> bool" where
  "selected data path \<longleftrightarrow> HasSuffix path ''.tmpl'' \<and>
     (template_component path = ''base'' \<or> componentEnabled (template_component path) data)"

definition rendered :: "'t tmpl_engine \<Rightarrow> scaffold_data \<Rightarrow> string \<times> string \<Rightarrow> goerr + string" where
  "rendered eng data f = (case tmpl_parse eng (Base (fst f)) (snd f) of Inl e \<Rightarrow> Inl e | Inr t \<Rightarrow> tmpl_exec eng t data)"

definition file_writes :: "'t tmpl_engine \<Rightarrow> string \<Rightarrow> scaffold_data \<Rightarrow> string \<times> string \<Rightarrow> (string \<times> string) list" where
  "file_writes eng outputDir data f =
     (if selected data (fst f) then [(out_path outputDir data (fst f), projr (rendered eng data f))] else [])"

definition proto_writes :: "string \<Rightarrow> string \<Rightarrow> scaffold_data \<Rightarrow> (string \<times> string) list" where
  "proto_writes validateProto outputDir data =
     (if sd_Connect data
      then [(Join [Join [outputDir, ''proto'', ''buf'', ''validate''], ''validate.proto''], validateProto)] else [])"

definition renders :: "'t tmpl_engine \<Rightarrow> scaffold_data \<Rightarrow> string \<times> string \<Rightarrow> bool" where
  "renders eng data f \<longleftrightarrow> (\<exists>out. rendered eng data f = Inr out)"

lemma render_file_effect:
  assumes "fs_laws ops files" and "render_file eng ops outputDir data f s = (r, s1)"
  shows "touched (files s) (file_writes eng outputDir data f) r (files s1) \<and>
    (r = None \<longrightarrow> selected data (fst f) \<longrightarrow> renders eng data f)"
proof (cases "selected data (fst f)")
  case False
  with assms(2) show ?thesis by (auto simp: render_file_def selected_def file_writes_def Let_def split: if_splits)
next
  case True
  let ?p = "out_path outputDir data (fst f)"
  obtain r1 t1 where m: "mkdir_all ops (Dir ?p) s = (r1, t1)" by fastforce
  have same: "touched (files s) [(?p, c)] (Some e) (files t1)" for c e using fs_mkdir[OF assms(1) m] by (simp add: touched_def)
  show ?thesis
  proof (cases "r1 = None \<and> renders eng data f")
    case False
    then have "\<exists>e. (r, s1) = (Some e, t1)"
      using assms(2) m True by (auto simp: render_file_def selected_def renders_def rendered_def Let_def split: option.splits sum.splits)
    with same True show ?thesis by (auto simp: file_writes_def)
  next
    case True
    then obtain out where out: "rendered eng data f = Inr out" by (auto simp: renders_def)
    obtain r2 t2 where w: "write_file ops ?p out t1 = (r2, t2)" by fastforce
    from True out \<open>selected data (fst f)\<close> m w assms(2) have "(r = None) = (r2 = None)" "s1 = t2"
      by (auto simp: render_file_def selected_def rendered_def Let_def split: option.splits sum.splits)
    with fs_write[OF assms(1) w] fs_mkdir[OF assms(1) m] True \<open>selected data (fst f)\<close> out show ?thesis
      by (auto simp: file_writes_def touched_def)
  qed
qed

lemma render_file_succeeds:
  assumes "never_fails ops" and "selected data (fst f) \<Longrightarrow> renders eng data f"
  shows "fst (render_file eng ops outputDir data f s) = None"
proof -
  have calls: "mkdir_all ops d u \<noteq> (Some e, v)" "write_file ops p c u \<noteq> (Some e, v)" for d p c u e v
    using assms(1) by (auto simp: never_fails_def) (metis fst_conv option.distinct(1))+
  show ?thesis using assms(2)
    by (auto simp: render_file_def selected_def renders_def rendered_def Let_def calls split: prod.splits option.splits sum.splits)
qed

lemma render_files_effect:
  assumes "fs_laws ops files" and "run_until (render_file eng ops outputDir data) fs s = (r, s1)"
  shows "touched (files s) (concat (map (file_writes eng outputDir data) fs)) r (files s1) \<and>
    (r = None \<longrightarrow> (\<forall>f \<in> set fs. selected data (fst f) \<longrightarrow> renders eng data f))"
  using assms(2)
proof (induction fs arbitrary: s)
  case (Cons f fs)
  obtain r1 t where f: "render_file eng ops outputDir data f s = (r1, t)" by fastforce
  note eff = render_file_effect[OF assms(1) f]
  show ?case
  proof (cases r1)
    case None
    with Cons.prems f have "run_until (render_file eng ops outputDir data) fs t = (r, s1)" by simp
    from Cons.IH[OF this] eff None show ?thesis by (auto intro: touched_append)
  next
    case (Some e)
    with Cons.prems f eff show ?thesis by (auto intro: touched_failed)
  qed
qed simp

lemma render_files_succeed:
  assumes "never_fails ops" and "\<forall>f \<in> set fs. selected data (fst f) \<longrightarrow> renders eng data f"
  shows "fst (run_until (render_file eng ops outputDir data) fs s) = None"
  using assms(2)
proof (induction fs arbitrary: s)
  case (Cons f fs)
  then have "fst (render_file eng ops outputDir data f s) = None" by (intro render_file_succeeds[OF assms(1)]) simp
  with Cons show ?case by (cases "render_file eng ops outputDir data f s") auto
qed simp

lemma Render_effect:
  assumes "fs_laws ops files" and "Render eng ops templateFS validateProto outputDir data s = (r, s1)"
  shows "touched (files s) (proto_writes validateProto outputDir data @ concat (map (file_writes eng outputDir data) templateFS)) r (files s1) \<and>
    (r = None \<longrightarrow> (\<forall>f \<in> set templateFS. selected data (fst f) \<longrightarrow> renders eng data f))"
proof (cases "sd_Connect data")
  case False
  with assms(2) have "run_until (render_file eng ops outputDir data) templateFS s = (r, s1)" by (simp add: Render_def Let_def)
  from render_files_effect[OF assms(1) this] False show ?thesis by (simp add: proto_writes_def)
next
  case True
  let ?vd = "Join [outputDir, ''proto'', ''buf'', ''validate'']"
  obtain r1 t1 where m: "mkdir_all ops ?vd s = (r1, t1)" by fastforce
  obtain r2 t2 where w: "write_file ops (Join [?vd, ''validate.proto'']) validateProto t1 = (r2, t2)" by fastforce
  have p: "touched (files s) (proto_writes validateProto outputDir data) r2 (files t2)"
    using fs_write[OF assms(1) w] fs_mkdir[OF assms(1) m] True by (simp add: proto_writes_def)
  consider (no_dir) e where "r = Some e" "s1 = t1" | (not_written) e where "r = Some e" "s1 = t2" "r2 \<noteq> None"
    | (rendering) "run_until (render_file eng ops outputDir data) templateFS t2 = (r, s1)" "r2 = None"
    using assms(2) m w True by (auto simp: Render_def Let_def split: option.splits)
  then show ?thesis
  proof cases
    case no_dir
    with fs_mkdir[OF assms(1) m] show ?thesis by (simp add: touched_def)
  next
    case not_written
    with p show ?thesis by (auto simp: touched_def)
  next
    case rendering
    with p render_files_effect[OF assms(1) rendering(1)] touched_append show ?thesis by blast
  qed
qed

lemma Render_succeeds:
  assumes "never_fails ops" and "\<forall>f \<in> set templateFS. selected data (fst f) \<longrightarrow> renders eng data f"
  shows "fst (Render eng ops templateFS validateProto outputDir data s) = None"
proof -
  have calls: "mkdir_all ops d u \<noteq> (Some e, v)" "write_file ops p c u \<noteq> (Some e, v)" for d p c u e v
    using assms(1) by (auto simp: never_fails_def) (metis fst_conv option.distinct(1))+
  show ?thesis using render_files_succeed[OF assms] by (auto simp: Render_def Let_def calls split: prod.splits option.splits)
qed

section \<open>The templates of the repository\<close>

text \<open>
  The tree under \<open>src/internal/scaffold/templates\<close>, in the order it is walked: each template with the flag of the
  command line that asks for it and the file it makes in the project, written out; \<open>n\<close> is the project's name in
  snake case.
\<close>

definition template_layout :: "string \<Rightarrow> (string \<times> (scaffold_data \<Rightarrow> bool) \<times> string list) list" where
  "template_layout n =
    [(''templates/base/.golangci.yml.tmpl'', \<lambda>_. True, [''.golangci.yml'']),
     (''templates/base/Dockerfile.tmpl'', \<lambda>_. True, [''Dockerfile'']),
     (''templates/base/Makefile.tmpl'', \<lambda>_. True, [''Makefile'']),
     (''templates/base/cmd/main.go.tmpl'', \<lambda>_. True, [''cmd'', ''main.go'']),
     (''templates/base/config/config.yaml.tmpl'', \<lambda>_. True, [''config'', ''config.yaml'']),
     (''templates/base/internal/adapters/handlers/itemhandler/handler.go.tmpl'', \<lambda>_. True,
        [''internal'', ''adapters'', ''handlers'', ''itemhandler'', ''handler.go'']),
     (''templates/base/internal/app/service.go.tmpl'', \<lambda>_. True, [''internal'', ''app'', ''service.go'']),
     (''templates/base/internal/domain/model.go.tmpl'', \<lambda>_. True, [''internal'', ''domain'', ''model.go'']),
     (''templates/base/internal/domain/repository.go.tmpl'', \<lambda>_. True, [''internal'', ''domain'', ''repository.go'']),
     (''templates/connect/buf.gen.yaml.tmpl'', sd_Connect, [''buf.gen.yaml'']),
     (''templates/connect/buf.yaml.tmpl'', sd_Connect, [''buf.yaml'']),
     (''templates/connect/config/config.connect.yaml.tmpl'', sd_Connect, [''config'', ''config.connect.yaml'']),
     (''templates/connect/proto/__name__/v1/service.proto.tmpl'', sd_Connect, [''proto'', n, ''v1'', ''service.proto'']),
     (''templates/kafka/config/config.kafka.yaml.tmpl'', sd_Kafka, [''config'', ''config.kafka.yaml'']),
     (''templates/kafka/internal/adapters/kafkaconsumer/consumer.go.tmpl'', sd_Kafka,
        [''internal'', ''adapters'', ''kafkaconsumer'', ''consumer.go'']),
     (''templates/nats/config/config.nats.yaml.tmpl'', sd_NATS, [''config'', ''config.nats.yaml'']),
     (''templates/nats/internal/adapters/natsconsumer/consumer.go.tmpl'', sd_NATS,
        [''internal'', ''adapters'', ''natsconsumer'', ''consumer.go'']),
     (''templates/postgres/config/config.postgres.yaml.tmpl'', sd_Postgres, [''config'', ''config.postgres.yaml'']),
     (''templates/postgres/internal/adapters/postgresrepo/postgres.go.tmpl'', sd_Postgres,
        [''internal'', ''adapters'', ''postgresrepo'', ''postgres.go'']),
     (''templates/postgres/migrations/000001_init.up.sql.tmpl'', sd_Postgres, [''migrations'', ''000001_init.up.sql'']),
     (''templates/redis/config/config.redis.yaml.tmpl'', sd_Redis, [''config'', ''config.redis.yaml'']),
     (''templates/s3/config/config.s3.yaml.tmpl'', sd_S3, [''config'', ''config.s3.yaml'']),
     (''templates/temporal/config/config.temporal.yaml.tmpl'', sd_Temporal, [''config'', ''config.temporal.yaml'']),
     (''templates/temporal/internal/adapters/temporalworker/worker.go.tmpl'', sd_Temporal,
        [''internal'', ''adapters'', ''temporalworker'', ''worker.go'']),
     (''templates/temporal/internal/domain/workflow.go.tmpl'', sd_Temporal, [''internal'', ''domain'', ''workflow.go''])]"

definition snake_name :: "string \<Rightarrow> string" where
  "snake_name = map (\<lambda>c. if c = CHR ''-'' then CHR ''_'' else c)"

text \<open>The component of every template, and its path below the project, as \<open>Render\<close> computes them.\<close>

lemma layout_row:
  assumes "(tpl, used, segs) \<in> set (template_layout n)"
  shows "selected data tpl = used data \<and> ReplaceAll ''__name__'' n (TrimSuffix (template_rel tpl) ''.tmpl'') = rel_path segs \<and>
    segs \<noteq> [] \<and> (\<forall>s \<in> set segs. s = n \<or> plain_name s)"
proof -
  have "list_all (\<lambda>(tpl, used, segs). selected data tpl = used data \<and>
      ReplaceAll ''__name__'' n (TrimSuffix (template_rel tpl) ''.tmpl'') = rel_path segs \<and>
      segs \<noteq> [] \<and> (\<forall>s \<in> set segs. s = n \<or> plain_name s)) (template_layout n)"
    unfolding template_layout_def list.pred_inject prod.case
    by (intro conjI; simp add: selected_def template_component_def componentEnabled_def template_rel_def TrimPrefix_def TrimSuffix_def
        HasSuffix_def HasPrefix_def ReplaceAll.simps rel_path_def plain_name_def Let_def)
  with assms show ?thesis by (auto simp: list_all_iff)
qed

lemma plain_snake: "plain_name s \<Longrightarrow> plain_name (snake_name s)"
proof -
  assume s: "plain_name s"
  have dots: "snake_name s = map (\<lambda>_. CHR ''.'') s \<Longrightarrow> s = map (\<lambda>_. CHR ''.'') s"
    unfolding snake_name_def by (induction s) (auto split: if_splits)
  have len: "snake_name s = xs \<Longrightarrow> length s = length xs" for xs by (auto simp: snake_name_def)
  have "snake_name s \<noteq> ''.''" "snake_name s \<noteq> ''..''"
    using s dots len[of "''.''"] len[of "''..''"] by (auto simp: plain_name_def length_Suc_conv)
  with s show ?thesis by (auto simp: plain_name_def snake_name_def)
qed

text \<open>The files of the project in directory \<open>dirs\<close> made from the templates, by the table.\<close>

definition project_writes :: "'t tmpl_engine \<Rightarrow> (string \<times> string) list \<Rightarrow> string list \<Rightarrow> scaffold_data \<Rightarrow> (string \<times> string) list" where
  "project_writes eng templateFS dirs data =
     concat (map2 (\<lambda>(tpl, used, segs) f. if used data then [(rel_path (dirs @ segs), projr (rendered eng data f))] else [])
       (template_layout (snake_name (sd_Name data))) templateFS)"

lemma project_writes_files:
  assumes "map fst templateFS = map fst (template_layout n)" and "n = snake_name (sd_Name data)" and "plain_name (sd_Name data)"
    and "dirs \<noteq> []" and "\<forall>d \<in> set dirs. plain_name d"
  shows "concat (map (file_writes eng (rel_path dirs) data) templateFS) = project_writes eng templateFS dirs data"
proof -
  have row: "file_writes eng (rel_path dirs) data (tpl, c) =
      (if used data then [(rel_path (dirs @ segs), projr (rendered eng data (tpl, c)))] else [])"
    if "(tpl, used, segs) \<in> set (template_layout n)" for tpl used segs c
  proof -
    note l = layout_row[OF that, of data]
    then have "\<forall>s \<in> set (dirs @ segs). plain_name s" using assms(2,3,5) plain_snake by auto
    then have "Join [rel_path dirs, rel_path segs] = rel_path (dirs @ segs)" using l assms(4) by (intro Join_rel_paths) auto
    then show ?thesis using l assms(2) by (simp add: file_writes_def out_path_def snakeCase_def ReplaceAll_hyphen snake_name_def)
  qed
  have "map (file_writes eng (rel_path dirs) data) fs =
      map2 (\<lambda>(tpl, used, segs) f. if used data then [(rel_path (dirs @ segs), projr (rendered eng data f))] else []) rows fs"
    if "map fst fs = map fst rows" "set rows \<subseteq> set (template_layout n)" for fs rows
    using that
  proof (induction rows arbitrary: fs)
    case (Cons row' rows)
    obtain tpl used segs where r: "row' = (tpl, used, segs)" by (cases row') auto
    with Cons.prems(1) obtain c fs' where "fs = (tpl, c) # fs'" by (cases fs) auto
    with Cons r show ?case by (simp add: row)
  qed simp
  from this[OF assms(1)] show ?thesis by (simp add: project_writes_def assms(2))
qed

text \<open>A template engine that repeats the template before the name, and a file system of plain maps.\<close>

definition demo_engine :: "string tmpl_engine" where
  "demo_engine = \<lparr>tmpl_parse = (\<lambda>_ content. Inr content), tmpl_exec = (\<lambda>t data. Inr (t @ sd_Name data))\<rparr>"

definition demo_fs :: "(string \<Rightarrow> string option) fs_ops" where
  "demo_fs = \<lparr>mkdir_all = (\<lambda>_ s. (None, s)), write_file = (\<lambda>p c s. (None, s(p \<mapsto> c)))\<rparr>"

definition demo_data :: scaffold_data where
  "demo_data = \<lparr>sd_Name = ''my-app'', sd_Module = ''m'', sd_Postgres = False, sd_Kafka = True, sd_NATS = False,
     sd_Redis = False, sd_Temporal = False, sd_S3 = False, sd_Connect = False\<rparr>"

definition demo_templates :: "(string \<times> string) list" where
  "demo_templates = map (\<lambda>r. (fst r, Base (fst r))) (template_layout [])"

lemma demo_fs_laws: "fs_laws demo_fs (\<lambda>s. s)" "never_fails demo_fs"
  by (simp_all add: fs_laws_def never_fails_def demo_fs_def)

section \<open>Properties\<close>

text \<open>C37: \<open>pascalCase\<close> turns every project name into a name Go accepts for an exported declaration, also
  after \<open>snakeCase\<close>, and \<open>serviceName\<close> drops a service suffix in any case: \<open>order-service\<close>,
  \<open>order_SVC\<close> and \<open>order\<close> give the same name.\<close>

theorem pascalCase_exported:
  assumes "project_name s"
  shows "exported_identifier (pascalCase s) \<and> pascalCase (snakeCase s) = pascalCase s \<and>
    (ToLower sfx \<in> {''-service'', ''_service'', ''-svc'', ''_svc''} \<longrightarrow> serviceName (s @ sfx) = pascalCase s)"
proof (intro conjI impI)
  define t where "t = dropWhile (\<lambda>c. c = CHR ''-'' \<or> c = CHR ''_'') s"
  obtain c cs where t: "t = c # cs" and d: "\<not> is_digit c" using assms by (auto simp: project_name_def t_def split: list.splits)
  have "\<not> (c = CHR ''-'' \<or> c = CHR ''_'')"
    using t hd_dropWhile[of "\<lambda>c. c = CHR ''-'' \<or> c = CHR ''_''" s] by (simp add: t_def)
  then have nsep: "c \<noteq> CHR ''-''" "c \<noteq> CHR ''_''" by simp_all
  have "set t \<subseteq> set s" unfolding t_def by (auto dest: set_dropWhileD)
  then have ok: "list_all (\<lambda>c. is_alnum c \<or> c = CHR ''-'' \<or> c = CHR ''_'') t"
    using assms by (auto simp: project_name_def list_all_iff)
  have "pascalCase s = to_upper_char c # pascal_loop False cs"
    using pascal_loop_separators[of s] t nsep by (simp add: pascalCase_def t_def[symmetric] ToUpper_def)
  moreover have "is_alnum c" using ok t nsep by simp
  ultimately show "exported_identifier (pascalCase s)"
    using ok t d by (simp add: exported_identifier_def to_upper_alnum pascal_loop_alnum)
  show "pascalCase (snakeCase s) = pascalCase s"
    by (simp add: pascalCase_def snakeCase_def ReplaceAll_hyphen pascal_loop_snake)
  assume sfx: "ToLower sfx \<in> {''-service'', ''_service'', ''-svc'', ''_svc''}"
  have len: "length (ToLower sfx) = length sfx" by (simp add: ToLower_def)
  have "strip_first_suffix (ToLower (s @ sfx)) service_suffixes (s @ sfx) = s"
    using strip_service_suffix[OF HasSuffix_ToLower, of sfx s "s @ sfx"] sfx len by (simp add: service_suffixes_def)
  then show "serviceName (s @ sfx) = pascalCase s" by (simp add: serviceName_def service_suffixes_def)
qed

theorem pascalCase_exported_witness:
  "exported_identifier (pascalCase ''order'') \<and> serviceName ''order-SVC'' = ''Order'' \<and>
    pascalCase (snakeCase ''order'') = ''Order''"
proof -
  have "project_name ''order''" "pascalCase ''order'' = ''Order''" "ToLower ''-SVC'' = ''-svc''" by code_simp+
  then show ?thesis using pascalCase_exported[of "''order''" "''-SVC''"] by simp
qed

end
