(* ===== verification/Cli.thy ===== *)
theory Cli
  imports Scaffold "HOL-Library.Word"
begin

text \<open>
  The commands of \<open>src/cmd/goplatform\<close> that run once: \<open>init\<close> (\<open>init.go\<close>) and \<open>migrate\<close>
  (\<open>migrate.go\<close>). A command is its \<open>RunE\<close> function on the flag values.

  \<open>cli_env\<close> holds what the commands use of the process: environment variables, the file system,
  the command's output, the working directory (\<open>filepath.Abs\<close>) and the clock as
  \<open>time.Now().Format("20060102150405")\<close>. \<open>migrator\<close> is the golang-migrate library.
\<close>

record 's cli_env =
  getenv :: "string \<Rightarrow> string"                       \<comment> \<open>unset variables read as empty\<close>
  cli_fs :: "'s fs_ops"
  cli_print :: "string \<Rightarrow> 's \<Rightarrow> 's"
  abs_path :: "string \<Rightarrow> goerr + string"
  timestamp :: "'s \<Rightarrow> string"

record ('m, 's) migrator =
  mg_new :: "string \<Rightarrow> string \<Rightarrow> 's \<Rightarrow> (goerr + 'm) \<times> 's"   \<comment> \<open>source URL, database URL\<close>
  mg_up :: "'m \<Rightarrow> 's fallible"
  mg_steps :: "'m \<Rightarrow> 64 word \<Rightarrow> 's fallible"
  mg_close :: "'m \<Rightarrow> 's \<Rightarrow> 's"
  ErrNoChange :: goerr

definition nl :: string where "nl = [CHR 0x0A]"

section \<open>init\<close>

definition init_module :: "(string \<Rightarrow> string) \<Rightarrow> string \<Rightarrow> string \<Rightarrow> string" where
  "init_module env name module =
     (if module = [] then
        (let user = (if env ''USER'' = [] then ''user'' else env ''USER'')
         in ''github.com/'' @ user @ ''/'' @ Base name)
      else module)"

definition init_components :: "scaffold_data \<Rightarrow> string list" where
  "init_components data =
     (if sd_Postgres data then [''postgres''] else []) @ (if sd_Kafka data then [''kafka''] else []) @
     (if sd_NATS data then [''nats''] else []) @ (if sd_Redis data then [''redis''] else []) @
     (if sd_Temporal data then [''temporal''] else []) @ (if sd_S3 data then [''s3''] else []) @
     (if sd_Connect data then [''connect''] else [])"

text \<open>The flags come as the component fields of \<open>flags\<close>; name and module are filled in here.\<close>

definition runInit ::
    "'s cli_env \<Rightarrow> 't tmpl_engine \<Rightarrow> (string \<times> string) list \<Rightarrow> string \<Rightarrow> string \<Rightarrow> string \<Rightarrow> scaffold_data \<Rightarrow> 's fallible" where
  "runInit env eng templateFS validateProto name module flags s =
     (let outputDir = name; baseName = Base name; mod' = init_module (getenv env) name module in
      (case mkdir_all (cli_fs env) outputDir s of
         (Some err, s1) \<Rightarrow> (Some (Errorf [Lit ''creating project directory: '', PW err]), s1)
       | (None, s1) \<Rightarrow>
           (case write_file (cli_fs env) (Join [outputDir, ''go.mod'']) (''module '' @ mod' @ nl @ nl @ ''go 1.25'' @ nl) s1 of
              (Some err, s2) \<Rightarrow> (Some (Errorf [Lit ''writing go.mod: '', PW err]), s2)
            | (None, s2) \<Rightarrow>
                (let data = flags\<lparr>sd_Name := baseName, sd_Module := mod'\<rparr> in
                 (case Render eng (cli_fs env) templateFS validateProto outputDir data s2 of
                    (Some err, s3) \<Rightarrow> (Some (Errorf [Lit ''rendering templates: '', PW err]), s3)
                  | (None, s3) \<Rightarrow>
                      (let components = init_components data in
                       (None, cli_print env
                          (if components \<noteq> [] then ''Created project '' @ name @ '' with '' @ join_with '', '' components @ nl
                           else ''Created project '' @ name @ nl) s3)))))))"

section \<open>migrate\<close>

definition resolveDSN :: "(string \<Rightarrow> string) \<Rightarrow> string \<Rightarrow> goerr + string" where
  "resolveDSN env dsn0 =
     (let dsn = (if dsn0 = [] then env ''POSTGRES_DSN'' else dsn0) in
      if dsn = [] then Inl (Errorf [Lit ''DSN not set: use --dsn flag or POSTGRES_DSN env var''])
      else if HasPrefix dsn ''postgres://'' then Inr (''pgx://'' @ TrimPrefix dsn ''postgres://'')
      else if HasPrefix dsn ''postgresql://'' then Inr (''pgx://'' @ TrimPrefix dsn ''postgresql://'')
      else Inr dsn)"

definition resolveSourceURL :: "'s cli_env \<Rightarrow> string \<Rightarrow> goerr + string" where
  "resolveSourceURL env dir =
     (case abs_path env dir of
        Inl err \<Rightarrow> Inl (Errorf [Lit ''resolving migrations path: '', PW err])
      | Inr absDir \<Rightarrow> Inr (''file://'' @ absDir))"

text \<open>The body of \<open>migrate up\<close>; \<open>m.Close()\<close> is deferred, so it runs on every return after \<open>migrate.New\<close>.\<close>

definition migrateUp :: "'s cli_env \<Rightarrow> ('m, 's) migrator \<Rightarrow> string \<Rightarrow> string \<Rightarrow> 's fallible" where
  "migrateUp env mg dsn dir s =
     (case resolveDSN (getenv env) dsn of
        Inl err \<Rightarrow> (Some err, s)
      | Inr dbURL \<Rightarrow>
          (case resolveSourceURL env dir of
             Inl err \<Rightarrow> (Some err, s)
           | Inr sourceURL \<Rightarrow>
               (case mg_new mg sourceURL dbURL s of
                  (Inl err, s1) \<Rightarrow> (Some (Errorf [Lit ''migrate: init: '', PW err]), s1)
                | (Inr m, s1) \<Rightarrow>
                    (case mg_up mg m s1 of
                       (Some err, s2) \<Rightarrow>
                         if errors_Is err (ErrNoChange mg)
                         then (None, mg_close mg m (cli_print env (''No new migrations to apply.'' @ nl) s2))
                         else (Some (Errorf [Lit ''migrate: up: '', PW err]), mg_close mg m s2)
                     | (None, s2) \<Rightarrow>
                         (None, mg_close mg m (cli_print env (''Migrations applied successfully.'' @ nl) s2))))))"

definition migrateDown :: "'s cli_env \<Rightarrow> ('m, 's) migrator \<Rightarrow> string \<Rightarrow> string \<Rightarrow> 64 word \<Rightarrow> 's fallible" where
  "migrateDown env mg dsn dir steps s =
     (case resolveDSN (getenv env) dsn of
        Inl err \<Rightarrow> (Some err, s)
      | Inr dbURL \<Rightarrow>
          (case resolveSourceURL env dir of
             Inl err \<Rightarrow> (Some err, s)
           | Inr sourceURL \<Rightarrow>
               (case mg_new mg sourceURL dbURL s of
                  (Inl err, s1) \<Rightarrow> (Some (Errorf [Lit ''migrate: init: '', PW err]), s1)
                | (Inr m, s1) \<Rightarrow>
                    (case mg_steps mg m (- steps) s1 of
                       (Some err, s2) \<Rightarrow>
                         if errors_Is err (ErrNoChange mg)
                         then (None, mg_close mg m (cli_print env (''No migrations to rollback.'' @ nl) s2))
                         else (Some (Errorf [Lit ''migrate: down: '', PW err]), mg_close mg m s2)
                     | (None, s2) \<Rightarrow>
                         (None, mg_close mg m (cli_print env
                            (''Rolled back '' @ string_of_int (sint steps) @ '' migration(s).'' @ nl) s2))))))"

definition runMigrateCreate :: "'s cli_env \<Rightarrow> string \<Rightarrow> string \<Rightarrow> 's fallible" where
  "runMigrateCreate env dir name s =
     (case mkdir_all (cli_fs env) dir s of
        (Some err, s1) \<Rightarrow> (Some (Errorf [Lit ''creating migrations directory: '', PW err]), s1)
      | (None, s1) \<Rightarrow>
          (let upFile = Join [dir, timestamp env s1 @ ''_'' @ name @ ''.up.sql''];
               downFile = Join [dir, timestamp env s1 @ ''_'' @ name @ ''.down.sql'']
           in (case write_file (cli_fs env) upFile [] s1 of
                 (Some err, s2) \<Rightarrow> (Some (Errorf [Lit ''creating up migration: '', PW err]), s2)
               | (None, s2) \<Rightarrow>
                   (case write_file (cli_fs env) downFile [] s2 of
                      (Some err, s3) \<Rightarrow> (Some (Errorf [Lit ''creating down migration: '', PW err]), s3)
                    | (None, s3) \<Rightarrow>
                        (None, cli_print env (''Created migration files:'' @ nl @ ''  '' @ upFile @ nl @ ''  '' @ downFile @ nl) s3)))))"

section \<open>Facts\<close>

text \<open>What golang-migrate documents, with \<open>open_dbs\<close> the connections held: \<open>New\<close> opens one if it succeeds,
  running migrations opens and closes none, \<open>Close\<close> closes the one it is called on.\<close>

definition migrator_laws :: "'s cli_env \<Rightarrow> ('m, 's) migrator \<Rightarrow> ('s \<Rightarrow> 'm set) \<Rightarrow> bool" where
  "migrator_laws env mg open_dbs \<longleftrightarrow>
     (\<forall>u d s e s1. mg_new mg u d s = (Inl e, s1) \<longrightarrow> open_dbs s1 = open_dbs s) \<and>
     (\<forall>u d s m s1. mg_new mg u d s = (Inr m, s1) \<longrightarrow> m \<notin> open_dbs s \<and> open_dbs s1 = insert m (open_dbs s)) \<and>
     (\<forall>m s r s1. mg_up mg m s = (r, s1) \<longrightarrow> open_dbs s1 = open_dbs s) \<and>
     (\<forall>m k s r s1. mg_steps mg m k s = (r, s1) \<longrightarrow> open_dbs s1 = open_dbs s) \<and>
     (\<forall>m s. open_dbs (mg_close mg m s) = open_dbs s - {m}) \<and>
     (\<forall>t s. open_dbs (cli_print env t s) = open_dbs s)"

lemma migrator_calls:
  assumes "migrator_laws env mg open_dbs"
  shows "mg_new mg u d s = (Inl e, s1) \<Longrightarrow> open_dbs s1 = open_dbs s"
    and "mg_new mg u d s = (Inr m, s1) \<Longrightarrow> m \<notin> open_dbs s \<and> open_dbs s1 = insert m (open_dbs s)"
    and "mg_up mg m s = (r, s1) \<Longrightarrow> open_dbs s1 = open_dbs s"
    and "mg_steps mg m k s = (r, s1) \<Longrightarrow> open_dbs s1 = open_dbs s"
    and "open_dbs (mg_close mg m s) = open_dbs s - {m}"
    and "open_dbs (cli_print env t s) = open_dbs s"
  using assms unfolding migrator_laws_def by metis+

text \<open>The database URL is the DSN with its PostgreSQL scheme, if it has one, replaced by the driver's;
  resolving a resolved DSN changes nothing.\<close>

lemma resolveDSN_scheme:
  assumes "sch \<in> {''postgres://'', ''postgresql://''}"
  shows "resolveDSN env (sch @ rest) = Inr (''pgx://'' @ rest)"
  using assms by (auto simp: resolveDSN_def TrimPrefix_def HasPrefix_def)

lemma resolveDSN_idem: "resolveDSN env dsn = Inr u \<Longrightarrow> resolveDSN env u = Inr u"
  by (auto simp: resolveDSN_def Let_def HasPrefix_def split: if_splits)

text \<open>A migrator that numbers its connections and knows how many migrations are applied.\<close>

record demo_db =
  dd_open :: "nat set"
  dd_version :: int
  dd_out :: string

definition demo_cli :: "demo_db cli_env" where
  "demo_cli = \<lparr>getenv = (\<lambda>_. []), cli_fs = \<lparr>mkdir_all = (\<lambda>_ s. (None, s)), write_file = (\<lambda>_ _ s. (None, s))\<rparr>,
     cli_print = (\<lambda>t s. s\<lparr>dd_out := dd_out s @ t\<rparr>), abs_path = (\<lambda>d. Inr (''/w/'' @ d)), timestamp = (\<lambda>_. ''20250101000000'')\<rparr>"

definition demo_migrator :: "(nat, demo_db) migrator" where
  "demo_migrator =
     \<lparr>mg_new = (\<lambda>u d s. let m = (if dd_open s = {} then 0 else Suc (Max (dd_open s))) in
        if finite (dd_open s) then (Inr m, s\<lparr>dd_open := insert m (dd_open s)\<rparr>) else (Inl (ErrNew ''too many''), s)),
      mg_up = (\<lambda>m s. if dd_version s = 3 then (Some (ErrNew ''no change''), s) else (None, s\<lparr>dd_version := 3\<rparr>)),
      mg_steps = (\<lambda>m k s. (None, s\<lparr>dd_version := dd_version s + sint k\<rparr>)),
      mg_close = (\<lambda>m s. s\<lparr>dd_open := dd_open s - {m}\<rparr>),
      ErrNoChange = ErrNew ''no change''\<rparr>"

lemma demo_migrator_laws: "migrator_laws demo_cli demo_migrator dd_open"
proof -
  have "(if A = {} then 0 else Suc (Max A)) \<notin> A" if "finite A" for A :: "nat set"
    using that Max_ge[of A "Suc (Max A)"] Suc_n_not_le_n[of "Max A"] by (cases "A = {}") auto
  then show ?thesis by (auto simp: migrator_laws_def demo_migrator_def demo_cli_def Let_def split: if_splits)
qed

text \<open>A process with an empty environment on a given file system.\<close>

definition cli_of :: "'s fs_ops \<Rightarrow> 's cli_env" where
  "cli_of fs = \<lparr>getenv = (\<lambda>_. []), cli_fs = fs, cli_print = (\<lambda>_ s. s), abs_path = Inr, timestamp = (\<lambda>_. [])\<rparr>"

text \<open>The paths \<open>init\<close> joins, and what it does to the files.\<close>

lemma init_paths:
  assumes "dirs \<noteq> []" and "\<forall>d \<in> set dirs. plain_name d"
  shows "Join [rel_path dirs, ''go.mod''] = rel_path (dirs @ [''go.mod''])"
    and "Join [Join [rel_path dirs, ''proto'', ''buf'', ''validate''], ''validate.proto''] =
      rel_path (dirs @ [''proto'', ''buf'', ''validate'', ''validate.proto''])"
proof -
  show "Join [rel_path dirs, ''go.mod''] = rel_path (dirs @ [''go.mod''])"
    using assms by (intro Join_rel_path) (simp_all add: plain_name_def)
  have ne: "rel_path dirs \<noteq> []" using assms by (cases dirs; cases "tl dirs") (auto simp: rel_path_def plain_name_def)
  have "Join [rel_path dirs, ''proto'', ''buf'', ''validate''] = Join [rel_path dirs, rel_path [''proto'', ''buf'', ''validate'']]"
    using ne by (simp add: Join_def rel_path_def)
  also have "\<dots> = rel_path (dirs @ [''proto'', ''buf'', ''validate''])"
    using assms by (intro Join_rel_paths) (auto simp: plain_name_def)
  finally show "Join [Join [rel_path dirs, ''proto'', ''buf'', ''validate''], ''validate.proto''] =
      rel_path (dirs @ [''proto'', ''buf'', ''validate'', ''validate.proto''])"
    using assms Join_rel_path[of "dirs @ [''proto'', ''buf'', ''validate'']" "''validate.proto''"] by (auto simp: plain_name_def)
qed

lemma runInit_effect:
  assumes "fs_laws (cli_fs env) files" and "\<forall>t s. files (cli_print env t s) = files s"
    and "data = flags\<lparr>sd_Name := Base name, sd_Module := init_module (getenv env) name module\<rparr>"
    and "runInit env eng templateFS validateProto name module flags s = (r, s1)"
  shows "touched (files s) ((Join [name, ''go.mod''], ''module '' @ sd_Module data @ nl @ nl @ ''go 1.25'' @ nl) #
      proto_writes validateProto name data @ concat (map (file_writes eng name data) templateFS)) r (files s1) \<and>
    (r = None \<longrightarrow> (\<forall>f \<in> set templateFS. selected data (fst f) \<longrightarrow> renders eng data f))"
proof -
  let ?mod = "''module '' @ sd_Module data @ nl @ nl @ ''go 1.25'' @ nl"
  obtain r1 t1 where m: "mkdir_all (cli_fs env) name s = (r1, t1)" by fastforce
  obtain r2 t2 where w: "write_file (cli_fs env) (Join [name, ''go.mod'']) ?mod t1 = (r2, t2)" by fastforce
  obtain r3 t3 where R: "Render eng (cli_fs env) templateFS validateProto name data t2 = (r3, t3)" by fastforce
  have mw: "touched (files s) [(Join [name, ''go.mod''], ?mod)] r2 (files t2)"
    using fs_write[OF assms(1) w] fs_mkdir[OF assms(1) m] by simp
  consider (no_dir) e where "r = Some e" "s1 = t1" | (no_mod) e where "r = Some e" "s1 = t2" "r2 \<noteq> None"
    | (render) e where "r2 = None" "r = Some e" "s1 = t3" "r3 \<noteq> None"
    | (created) "r2 = None" "r = None" "r3 = None" "files s1 = files t3"
    using assms(2,4) m w R by (auto simp: runInit_def Let_def assms(3) split: option.splits)
  then show ?thesis
  proof cases
    case no_dir
    with fs_mkdir[OF assms(1) m] show ?thesis by (simp add: touched_def)
  next
    case no_mod
    with mw show ?thesis by (auto simp: touched_def)
  next
    case render
    with touched_append[OF mw[unfolded render(1)] conjunct1[OF Render_effect[OF assms(1) R]]] show ?thesis
      by (auto simp: touched_def)
  next
    case created
    with touched_append[OF mw[unfolded created(1)] conjunct1[OF Render_effect[OF assms(1) R]]] Render_effect[OF assms(1) R]
    show ?thesis by simp
  qed
qed

lemma runInit_succeeds:
  assumes "never_fails (cli_fs env)" and "data = flags\<lparr>sd_Name := Base name, sd_Module := init_module (getenv env) name module\<rparr>"
    and "\<forall>f \<in> set templateFS. renders eng data f" and "runInit env eng templateFS validateProto name module flags s = (r, s1)"
  shows "r = None"
proof -
  have calls: "mkdir_all (cli_fs env) d u \<noteq> (Some e, v)" "write_file (cli_fs env) p c u \<noteq> (Some e, v)" for d p c u e v
    using assms(1) by (auto simp: never_fails_def) (metis fst_conv option.distinct(1))+
  have "fst (Render eng (cli_fs env) templateFS validateProto name data u) = None" for u
    using assms(3) by (intro Render_succeeds[OF assms(1)]) simp
  then have "Render eng (cli_fs env) templateFS validateProto name data u \<noteq> (Some e, v)" for u e v
    by (metis fst_conv option.distinct(1))
  with assms(2,4) show ?thesis by (auto simp: runInit_def Let_def calls split: prod.splits option.splits)
qed

lemma layout_zip:
  assumes "map fst templateFS = map fst (template_layout n)" and "((tpl, used, segs), f) \<in> set (zip (template_layout n) templateFS)"
  shows "selected data (fst f) = used data"
proof -
  obtain i where i: "i < length templateFS" "template_layout n ! i = (tpl, used, segs)" "templateFS ! i = f"
    "i < length (template_layout n)" using assms(2) by (auto simp: set_zip)
  have "fst f = tpl" using arg_cong[OF assms(1), of "\<lambda>xs. xs ! i"] i by simp
  moreover have "(tpl, used, segs) \<in> set (template_layout n)" using i by (metis nth_mem)
  ultimately show ?thesis using layout_row by blast
qed

section \<open>Properties\<close>

text \<open>C34: What \<open>init\<close> writes. The project directory is a relative path of plain names; the embedded templates are
  those of the repository, with any content. When the command returns nil, the directory has a \<open>go.mod\<close> for the given
  module path, or the one derived from the user and the last path element, \<open>validate.proto\<close> for ConnectRPC projects,
  and exactly the files the table of templates lists for the chosen components, at the paths listed there, each
  with what its template renders for the project's data; no other file has changed. When it fails, at most
  those files have been touched. On a file system that does not fail, and with templates that render, it succeeds.\<close>

theorem runInit_creates_project:
  assumes "fs_laws (cli_fs env) files" and "\<forall>t s. files (cli_print env t s) = files s"
    and "dirs \<noteq> []" and "\<forall>d \<in> set dirs. plain_name d"
    and "map fst templateFS = map fst (template_layout (snake_name (last dirs)))"
    and "data = flags\<lparr>sd_Name := last dirs, sd_Module := if module \<noteq> [] then module
      else ''github.com/'' @ (if getenv env ''USER'' = [] then ''user'' else getenv env ''USER'') @ ''/'' @ last dirs\<rparr>"
    and "ws = [(rel_path (dirs @ [''go.mod'']), ''module '' @ sd_Module data @ nl @ nl @ ''go 1.25'' @ nl)] @
      (if sd_Connect flags then [(rel_path (dirs @ [''proto'', ''buf'', ''validate'', ''validate.proto'']), validateProto)] else []) @
      project_writes eng templateFS dirs data"
    and "runInit env eng templateFS validateProto (rel_path dirs) module flags s = (r, s1)"
  shows "(\<forall>p. p \<notin> fst ` set ws \<longrightarrow> files s1 p = files s p) \<and>
    (r = None \<longrightarrow> files s1 = files s ++ map_of (rev ws) \<and>
       (\<forall>((tpl, used, segs), f) \<in> set (zip (template_layout (snake_name (last dirs))) templateFS).
          used data \<longrightarrow> (\<exists>out. rendered eng data f = Inr out))) \<and>
    (never_fails (cli_fs env) \<and> (\<forall>f \<in> set templateFS. \<exists>out. rendered eng data f = Inr out) \<longrightarrow> r = None)"
proof -
  have sd: "sd_Name data = last dirs" "sd_Connect data = sd_Connect flags" by (simp_all add: assms(6))
  have plain: "plain_name (last dirs)" using assms(3,4) by simp
  have data: "data = flags\<lparr>sd_Name := Base (rel_path dirs), sd_Module := init_module (getenv env) (rel_path dirs) module\<rparr>"
    unfolding assms(6) init_module_def Base_rel_path[OF assms(3,4)] Let_def by simp
  have ws: "touched m ws r m' \<longleftrightarrow> touched m ((Join [rel_path dirs, ''go.mod''], ''module '' @ sd_Module data @ nl @ nl @ ''go 1.25'' @ nl) #
      proto_writes validateProto (rel_path dirs) data @ concat (map (file_writes eng (rel_path dirs) data) templateFS)) r m'" for m r m'
    using project_writes_files[OF assms(5), of data dirs eng] init_paths[OF assms(3,4)] sd plain assms(3,4)
    by (simp add: assms(7) proto_writes_def)
  have "touched (files s) ws r (files s1) \<and> (r = None \<longrightarrow> (\<forall>f \<in> set templateFS. selected data (fst f) \<longrightarrow> renders eng data f))"
    unfolding ws using runInit_effect[OF assms(1,2) data assms(8)] .
  moreover have "r = None" if "never_fails (cli_fs env)" "\<forall>f \<in> set templateFS. renders eng data f"
    using runInit_succeeds[OF that(1) data that(2) assms(8)] .
  moreover have "used data \<longrightarrow> selected data (fst f) \<and> f \<in> set templateFS"
    if "((tpl, used, segs), f) \<in> set (zip (template_layout (snake_name (last dirs))) templateFS)" for tpl used segs f
    using layout_zip[OF assms(5) that, of data] set_zip_rightD[OF that] by simp
  ultimately show ?thesis unfolding touched_def renders_def by fast
qed

text \<open>A project with Kafka in \<open>work/my-app\<close>.\<close>

theorem runInit_creates_project_witness:
  "case runInit (cli_of demo_fs) demo_engine demo_templates ''v'' ''work/my-app'' [] demo_data Map.empty of
     (r, s1) \<Rightarrow> r = None \<and>
       s1 ''work/my-app/go.mod'' = Some (''module github.com/user/my-app'' @ nl @ nl @ ''go 1.25'' @ nl) \<and>
       s1 ''work/my-app/config/config.kafka.yaml'' = Some ''config.kafka.yaml.tmplmy-app'' \<and>
       s1 ''work/my-app/config/config.nats.yaml'' = None"
proof -
  let ?dirs = "[''work'', ''my-app'']" and ?env = "cli_of demo_fs"
  let ?data = "demo_data\<lparr>sd_Name := last ?dirs, sd_Module := if ([] :: string) \<noteq> [] then [] else ''github.com/'' @
    (if getenv ?env ''USER'' = [] then ''user'' else getenv ?env ''USER'') @ ''/'' @ last ?dirs\<rparr>"
  let ?ws = "[(rel_path (?dirs @ [''go.mod'']), ''module '' @ sd_Module ?data @ nl @ nl @ ''go 1.25'' @ nl)] @
    (if sd_Connect demo_data then [(rel_path (?dirs @ [''proto'', ''buf'', ''validate'', ''validate.proto'']), ''v'')] else []) @
    project_writes demo_engine demo_templates ?dirs ?data"
  obtain r s1 where run: "runInit ?env demo_engine demo_templates ''v'' (rel_path ?dirs) [] demo_data Map.empty = (r, s1)" by fastforce
  have d: "rel_path ?dirs = ''work/my-app''" by (simp add: rel_path_def)
  have h: "fs_laws (cli_fs ?env) (\<lambda>s. s)" "\<forall>t s. cli_print ?env t s = s" "?dirs \<noteq> []" "\<forall>d \<in> set ?dirs. plain_name d"
    "map fst demo_templates = map fst (template_layout (snake_name (last ?dirs)))" "never_fails (cli_fs ?env)"
    "\<forall>f \<in> set demo_templates. \<exists>out. rendered demo_engine ?data f = Inr out"
    by (simp_all add: demo_fs_laws cli_of_def plain_name_def demo_templates_def template_layout_def rendered_def demo_engine_def)
  have "r = None" "s1 = Map.empty ++ map_of (rev ?ws)"
    using runInit_creates_project[OF h(1,2,3,4,5) refl refl run] h(6,7) by blast+
  moreover have "map_of (rev ?ws) ''work/my-app/go.mod'' = Some (''module github.com/user/my-app'' @ nl @ nl @ ''go 1.25'' @ nl)"
    "map_of (rev ?ws) ''work/my-app/config/config.kafka.yaml'' = Some ''config.kafka.yaml.tmplmy-app''"
    "map_of (rev ?ws) ''work/my-app/config/config.nats.yaml'' = None" by code_simp+
  ultimately show ?thesis using run by (simp add: d)
qed

text \<open>\<open>migrate up\<close> and \<open>migrate down\<close> leave the set of open database connections as they found it, whatever
  fails; "no change" counts as success; and a PostgreSQL DSN reaches the driver with only its scheme replaced.\<close>

lemma migrate_no_leak:
  assumes "migrator_laws env mg open_dbs"
  shows "open_dbs (snd (migrateUp env mg dsn dir s)) = open_dbs s \<and>
    open_dbs (snd (migrateDown env mg dsn dir steps s)) = open_dbs s \<and>
    (resolveDSN (getenv env) dsn = Inr u \<and> resolveSourceURL env dir = Inr v \<and> mg_new mg v u s = (Inr m, s1) \<and>
       mg_up mg m s1 = (Some e, s2) \<and> errors_Is e (ErrNoChange mg) \<longrightarrow> fst (migrateUp env mg dsn dir s) = None)"
proof (intro conjI impI)
  note calls = migrator_calls[OF assms]
  show "open_dbs (snd (migrateUp env mg dsn dir s)) = open_dbs s"
    by (auto simp: migrateUp_def calls split: sum.split prod.split option.split dest: calls(1-4))
  show "open_dbs (snd (migrateDown env mg dsn dir steps s)) = open_dbs s"
    by (auto simp: migrateDown_def calls split: sum.split prod.split option.split dest: calls(1-4))
qed (auto simp: migrateUp_def)

end
