(* ===== verification/Hot_Reload.thy ===== *)
theory Hot_Reload
  imports Paths
begin

text \<open>
  The development server \<open>goplatform run\<close>, \<open>src/cmd/goplatform/run.go\<close>: the runner of the child
  process, the watched directories, and the reload loop with its debounce timer.

  Operating system calls are the record \<open>proc_ops\<close>. Every access to \<open>runner.cmd\<close> is under its
  mutex, so \<open>restart\<close> and \<open>stop\<close> are single steps. \<open>select\<close> and the timers run concurrently: the
  loop is a step function on a list of events in the order in which they happen, in which a timer
  that has expired and its callback that runs are separate events. Progress messages are left out.
\<close>

section \<open>The runner\<close>

text \<open>\<open>exec.Cmd\<close>: the process id once \<open>Start\<close> has succeeded.\<close>

record Cmd =
  Process :: "nat option"

record runner =
  r_cmd :: "Cmd option"

record 's proc_ops =
  sigterm :: "nat \<Rightarrow> 's \<Rightarrow> 's"
  wait_for :: "nat \<Rightarrow> int \<Rightarrow> 's \<Rightarrow> bool \<times> 's"     \<comment> \<open>\<open>Wait\<close> in a goroutine, raced with \<open>time.After\<close>\<close>
  sigkill :: "nat \<Rightarrow> 's \<Rightarrow> 's"
  wait_end :: "nat \<Rightarrow> 's \<Rightarrow> 's"                  \<comment> \<open>\<^verbatim>\<open><-done\<close> after the kill\<close>
  go_build :: "'s fallible"
  start_main :: "'s \<Rightarrow> (goerr + nat) \<times> 's"
  new_watcher :: "'s fallible"
  watcher_add :: "string \<Rightarrow> 's fallible"

definition current_process :: "runner \<Rightarrow> nat option" where
  "current_process r = (case r_cmd r of None \<Rightarrow> None | Some c \<Rightarrow> Process c)"

definition terminate_process :: "'s proc_ops \<Rightarrow> int \<Rightarrow> nat \<Rightarrow> 's \<Rightarrow> 's" where
  "terminate_process ops grace p s =
     (case wait_for ops p grace (sigterm ops p s) of
        (True, s1) \<Rightarrow> s1
      | (False, s1) \<Rightarrow> wait_end ops p (sigkill ops p s1))"

definition restart :: "'s proc_ops \<Rightarrow> (runner \<times> 's) fallible" where
  "restart ops st =
     (let r = fst st;
          s1 = (case current_process r of None \<Rightarrow> snd st | Some p \<Rightarrow> terminate_process ops (3 * second) p (snd st))
      in case go_build ops s1 of
           (Some err, s2) \<Rightarrow> (Some (Errorf [Lit ''run: build failed: '', PW err]), r, s2)
         | (None, s2) \<Rightarrow>
             (case start_main ops s2 of
                (Inl err, s3) \<Rightarrow> (Some (Errorf [Lit ''run: start failed: '', PW err]), r\<lparr>r_cmd := Some \<lparr>Process = None\<rparr>\<rparr>, s3)
              | (Inr p, s3) \<Rightarrow> (None, r\<lparr>r_cmd := Some \<lparr>Process = Some p\<rparr>\<rparr>, s3)))"

definition runner_stop :: "'s proc_ops \<Rightarrow> runner \<times> 's \<Rightarrow> runner \<times> 's" where
  "runner_stop ops st =
     (case current_process (fst st) of
        None \<Rightarrow> st
      | Some p \<Rightarrow> ((fst st)\<lparr>r_cmd := None\<rparr>, terminate_process ops (5 * second) p (snd st)))"

section \<open>Watched directories\<close>

definition skipped_dir :: "string \<Rightarrow> bool" where
  "skipped_dir base \<longleftrightarrow> HasPrefix base ''.'' \<or> base = ''vendor'' \<or> base = ''node_modules'' \<or> base = ''tmp''"

definition watch_visit :: "(string \<Rightarrow> 's fallible) \<Rightarrow> 's visitor" where
  "watch_visit add path isDir err s =
     (case err of
        Some e \<Rightarrow> (WalkErr e, s)
      | None \<Rightarrow>
          if isDir \<noteq> Some True then (WalkOk, s)
          else if skipped_dir (Base path) then (SkipDir, s)
          else (case add path s of (Some e, s1) \<Rightarrow> (WalkErr e, s1) | (None, s1) \<Rightarrow> (WalkOk, s1)))"

definition addRecursive :: "(string \<Rightarrow> 's fallible) \<Rightarrow> string \<Rightarrow> fs_node \<Rightarrow> 's fallible" where
  "addRecursive add root n s = Walk (watch_visit add) root n s"

definition isGoFile :: "string \<Rightarrow> bool" where
  "isGoFile name = HasSuffix name ''.go''"

section \<open>The reload loop\<close>

record runConfig =
  configFile :: string
  run_addr :: string
  noReload :: bool
  watchDirs :: "string list"

datatype fs_op = Create | Write | Remove | Rename | Chmod

datatype dev_event =
    CtxDone
  | FsEvent string "fs_op set"
  | EventsClosed
  | WatcherError goerr
  | ErrorsClosed
  | TimerExpires
  | CallbackRuns

text \<open>
  \<open>armed\<close>: the debounce timer has been set and has not expired. \<open>due\<close>: callbacks of expired
  timers that wait for their goroutine or for the runner's mutex; \<open>Timer.Stop\<close> does not reach them.
  \<open>dev_result\<close>: what \<open>runDev\<close> has returned, if it has.
\<close>

record 's dev =
  dev_runner :: runner
  dev_world :: 's
  armed :: bool
  due :: nat
  dev_result :: "goerr option option"

abbreviation dev_st :: "'s dev \<Rightarrow> runner \<times> 's" where
  "dev_st d \<equiv> (dev_runner d, dev_world d)"

definition set_st :: "runner \<times> 's \<Rightarrow> 's dev \<Rightarrow> 's dev" where
  "set_st st d = d\<lparr>dev_runner := fst st, dev_world := snd st\<rparr>"

definition stop_and_return :: "'s proc_ops \<Rightarrow> goerr option \<Rightarrow> 's dev \<Rightarrow> 's dev" where
  "stop_and_return ops res d = (set_st (runner_stop ops (dev_st d)) d)\<lparr>dev_result := Some res\<rparr>"

definition timer_step :: "'s proc_ops \<Rightarrow> dev_event \<Rightarrow> 's dev \<Rightarrow> 's dev" where
  "timer_step ops ev d =
     (case ev of
        TimerExpires \<Rightarrow> if armed d then d\<lparr>armed := False, due := Suc (due d)\<rparr> else d
      | CallbackRuns \<Rightarrow>
          if 0 < due d then (set_st (snd (restart ops (dev_st d))) d)\<lparr>due := due d - 1\<rparr> else d
      | _ \<Rightarrow> d)"

definition loop_step :: "'s proc_ops \<Rightarrow> dev_event \<Rightarrow> 's dev \<Rightarrow> 's dev" where
  "loop_step ops ev d =
     (if dev_result d \<noteq> None then timer_step ops ev d
      else
        (case ev of
           CtxDone \<Rightarrow> stop_and_return ops None d
         | EventsClosed \<Rightarrow> stop_and_return ops None d
         | FsEvent name op \<Rightarrow>
             if \<not> isGoFile name then d
             else if Write \<notin> op \<and> Create \<notin> op then d
             else d\<lparr>armed := True\<rparr>
         | ErrorsClosed \<Rightarrow> stop_and_return ops None d
         | WatcherError err \<Rightarrow> d
         | _ \<Rightarrow> timer_step ops ev d))"

definition run_loop :: "'s proc_ops \<Rightarrow> dev_event list \<Rightarrow> 's dev \<Rightarrow> 's dev" where
  "run_loop ops evs d = fold (loop_step ops) evs d"

text \<open>With \<open>--no-reload\<close> there is no loop: only the end of the context is waited for.\<close>

definition wait_step :: "'s proc_ops \<Rightarrow> dev_event \<Rightarrow> 's dev \<Rightarrow> 's dev" where
  "wait_step ops ev d =
     (if dev_result d = None \<and> ev = CtxDone then stop_and_return ops None d else d)"

definition new_dev :: "'s \<Rightarrow> 's dev" where
  "new_dev s = \<lparr>dev_runner = \<lparr>r_cmd = None\<rparr>, dev_world = s, armed = False, due = 0, dev_result = None\<rparr>"

definition add_watch :: "'s proc_ops \<Rightarrow> (string \<Rightarrow> fs_node) \<Rightarrow> string \<Rightarrow> 's fallible" where
  "add_watch ops tree dir s =
     (case addRecursive (watcher_add ops) dir (tree dir) s of
        (Some err, s1) \<Rightarrow> (Some (Errorf [Lit ''run: watch '', PQ dir, Lit '': '', PW err]), s1)
      | (None, s1) \<Rightarrow> (None, s1))"

text \<open>\<open>tree\<close> gives the file tree at each path at the time the watcher is set up.\<close>

definition runDev :: "'s proc_ops \<Rightarrow> (string \<Rightarrow> fs_node) \<Rightarrow> runConfig \<Rightarrow> dev_event list \<Rightarrow> 's \<Rightarrow> 's dev" where
  "runDev ops tree cfg evs s =
     (case restart ops (dev_st (new_dev s)) of
        (Some err, st) \<Rightarrow> (set_st st (new_dev s))\<lparr>dev_result := Some (Some err)\<rparr>
      | (None, st) \<Rightarrow>
          (let d = set_st st (new_dev s) in
           if noReload cfg then fold (wait_step ops) evs d
           else
             (case new_watcher ops (dev_world d) of
                (Some err, s1) \<Rightarrow>
                  stop_and_return ops (Some (Errorf [Lit ''run: create watcher: '', PW err])) (d\<lparr>dev_world := s1\<rparr>)
              | (None, s1) \<Rightarrow>
                  (case run_until (add_watch ops tree) (watchDirs cfg) s1 of
                     (Some err, s2) \<Rightarrow> stop_and_return ops (Some err) (d\<lparr>dev_world := s2\<rparr>)
                   | (None, s2) \<Rightarrow> run_loop ops evs (d\<lparr>dev_world := s2\<rparr>)))))"

section \<open>Facts: watched directories\<close>

text \<open>The directories of a tree as the names on the way down from its root.\<close>

fun dir_paths :: "fs_node \<Rightarrow> string list list" and below :: "fs_node list \<Rightarrow> string list list" where
  "dir_paths (DirNode n (Inr ns)) = [] # below ns"
| "dir_paths _ = []"
| "below [] = []"
| "below (m # ms) = map ((#) (node_name m)) (dir_paths m) @ below ms"

text \<open>Every entry can be examined, every directory read, and every name is one path segment.\<close>

fun readable_tree :: "fs_node \<Rightarrow> bool" and readable_trees :: "fs_node list \<Rightarrow> bool" where
  "readable_tree (Gone n e) \<longleftrightarrow> False"
| "readable_tree (FileNode n) \<longleftrightarrow> True"
| "readable_tree (DirNode n (Inl e)) \<longleftrightarrow> False"
| "readable_tree (DirNode n (Inr ns)) \<longleftrightarrow> readable_trees ns"
| "readable_trees [] \<longleftrightarrow> True"
| "readable_trees (m # ms) \<longleftrightarrow> plain_name (node_name m) \<and> readable_tree m \<and> readable_trees ms"

text \<open>
  The names the tool documents as ignored, and the directories to watch below \<open>rs\<close>: those with no ignored name
  on the way.
\<close>

definition ignored :: "string \<Rightarrow> bool" where
  "ignored n \<longleftrightarrow> n \<in> {''vendor'', ''node_modules'', ''tmp''} \<or> (\<exists>m. n = CHR ''.'' # m)"

lemma skipped_dir_ignored: "skipped_dir n = ignored n"
  by (cases n) (auto simp: skipped_dir_def ignored_def HasPrefix_def)

definition to_watch :: "string list \<Rightarrow> string list list \<Rightarrow> string list" where
  "to_watch rs dss = map (\<lambda>ss. rel_path (rs @ ss)) (filter (list_all (\<lambda>n. \<not> ignored n)) dss)"

lemma to_watch_simps [simp]:
  "to_watch rs [] = []"
  "to_watch rs ([] # dss) = rel_path rs # to_watch rs dss"
  "to_watch rs (dss @ ess) = to_watch rs dss @ to_watch rs ess"
  "to_watch rs (map ((#) n) dss) = (if ignored n then [] else to_watch (rs @ [n]) dss)"
  by (simp_all add: to_watch_def filter_map o_def)

definition walked :: "goerr option \<times> 's \<Rightarrow> walk_result \<times> 's" where
  "walked rs = (case rs of (None, s) \<Rightarrow> (WalkOk, s) | (Some e, s) \<Rightarrow> (WalkErr e, s))"

lemma walked_simps [simp]: "walked (None, s) = (WalkOk, s)" "walked (Some e, s) = (WalkErr e, s)"
  by (simp_all add: walked_def)

lemma walk_watch_visit:
  "v = watch_visit add \<Longrightarrow> p = rel_path rs \<Longrightarrow> rs \<noteq> [] \<Longrightarrow> \<forall>x \<in> set rs. plain_name x \<Longrightarrow> readable_tree n \<Longrightarrow>
     (case walk v p n s of (SkipDir, s1) \<Rightarrow> (WalkOk, s1) | w \<Rightarrow> w) =
       walked (run_until add (if ignored (last rs) then [] else to_watch rs (dir_paths n)) s)"
  "v = watch_visit add \<Longrightarrow> p = rel_path rs \<Longrightarrow> rs \<noteq> [] \<Longrightarrow> \<forall>x \<in> set rs. plain_name x \<Longrightarrow> readable_trees ns \<Longrightarrow>
     walk_all v p ns s = walked (run_until add (to_watch rs (below ns)) s)"
proof (induction v p n s and v p ns s arbitrary: rs and rs rule: walk_walk_all.induct)
  case (4 v p n ns s)
  have base: "Base p = last rs" using Base_rel_path[of rs] 4 by simp
  show ?case
  proof (cases "ignored (last rs)")
    case True
    with 4 base show ?thesis by (simp add: watch_visit_def skipped_dir_ignored)
  next
    case False
    obtain r s1 where a: "add p s = (r, s1)" by (cases "add p s")
    show ?thesis
    proof (cases r)
      case None
      with False a base "4.prems" have v: "v p (Some True) None s = (WalkOk, s1)" by (simp add: watch_visit_def skipped_dir_ignored)
      with "4.IH"[OF v[symmetric] refl, of rs] "4.prems"
      have "walk_all v p ns s1 = walked (run_until add (to_watch rs (below ns)) s1)" by simp
      then show ?thesis using v False a None "4.prems"
        by (cases "run_until add (to_watch rs (below ns)) s1"; cases "fst (run_until add (to_watch rs (below ns)) s1)") auto
    qed (use False a base 4 in \<open>simp add: watch_visit_def skipped_dir_ignored\<close>)
  qed
next
  case (6 v p n ns s)
  then have j: "Join [p, node_name n] = rel_path (rs @ [node_name n])" by (simp add: Join_rel_path)
  obtain r s1 where r: "run_until add (if ignored (node_name n) then [] else to_watch (rs @ [node_name n]) (dir_paths n)) s = (r, s1)"
    by (metis surj_pair)
  have w: "(case walk v (Join [p, node_name n]) n s of (SkipDir, s1) \<Rightarrow> (WalkOk, s1) | w \<Rightarrow> w) = walked (r, s1)"
    using "6.IH"(1)[of "rs @ [node_name n]"] "6.prems" j r by (simp add: ball_Un)
  obtain q t where q: "walk v (Join [p, node_name n]) n s = (q, t)" by (cases "walk v (Join [p, node_name n]) n s")
  show ?case
  proof (cases q)
    case WalkOk
    with "6.IH"(2)[OF q[symmetric], of rs] "6.prems" w q r show ?thesis
      by (cases r) (simp_all add: run_until_append)
  next
    case SkipDir
    with "6.IH"(3)[OF q[symmetric], of rs] "6.prems" w q r show ?thesis
      by (cases r) (simp_all add: run_until_append)
  next
    case (WalkErr e)
    with "6.prems" w q r show ?thesis by (cases r) (simp_all add: run_until_append)
  qed
qed (auto simp: watch_visit_def)

section \<open>Facts: child processes\<close>

text \<open>
  What the operating system promises about the children that are alive: a signal, a build and the
  watcher start none of them; a wait that ends has seen the process end; \<open>Start\<close> starts at most
  the process it returns. A process may end at any time.
\<close>

definition proc_laws :: "'s proc_ops \<Rightarrow> ('s \<Rightarrow> nat set) \<Rightarrow> bool" where
  "proc_laws ops alive \<longleftrightarrow>
     (\<forall>p s. alive (sigterm ops p s) \<subseteq> alive s) \<and>
     (\<forall>p d s b s1. wait_for ops p d s = (b, s1) \<longrightarrow> alive s1 \<subseteq> (if b then alive s - {p} else alive s)) \<and>
     (\<forall>p s. alive (sigkill ops p s) \<subseteq> alive s) \<and>
     (\<forall>p s. alive (wait_end ops p s) \<subseteq> alive s - {p}) \<and>
     (\<forall>s. alive (snd (go_build ops s)) \<subseteq> alive s) \<and>
     (\<forall>s e s1. start_main ops s = (Inl e, s1) \<longrightarrow> alive s1 \<subseteq> alive s) \<and>
     (\<forall>s p s1. start_main ops s = (Inr p, s1) \<longrightarrow> alive s1 \<subseteq> insert p (alive s)) \<and>
     (\<forall>s. alive (snd (new_watcher ops s)) \<subseteq> alive s) \<and>
     (\<forall>p s. alive (snd (watcher_add ops p s)) \<subseteq> alive s)"

lemma proc_law:
  assumes "proc_laws ops alive"
  shows "alive (sigterm ops p s) \<subseteq> alive s"
    and "wait_for ops p d s = (b, s1) \<Longrightarrow> alive s1 \<subseteq> (if b then alive s - {p} else alive s)"
    and "alive (sigkill ops p s) \<subseteq> alive s"
    and "alive (wait_end ops p s) \<subseteq> alive s - {p}"
    and "alive (snd (go_build ops s)) \<subseteq> alive s"
    and "start_main ops s = (Inl e, s1) \<Longrightarrow> alive s1 \<subseteq> alive s"
    and "start_main ops s = (Inr p, s1) \<Longrightarrow> alive s1 \<subseteq> insert p (alive s)"
    and "alive (snd (new_watcher ops s)) \<subseteq> alive s"
    and "alive (snd (watcher_add ops n s)) \<subseteq> alive s"
  using assms unfolding proc_laws_def by metis+

lemma terminate_process_ends:
  assumes "proc_laws ops alive"
  shows "alive (terminate_process ops grace p s) \<subseteq> alive s - {p}"
proof -
  note law = proc_law[OF assms]
  obtain b s1 where w: "wait_for ops p grace (sigterm ops p s) = (b, s1)" by (cases "wait_for ops p grace (sigterm ops p s)")
  show ?thesis
    using law(1)[of p s] law(2)[OF w] law(3)[of p s1] law(4)[of p "sigkill ops p s1"] w
    by (cases b) (auto simp: terminate_process_def)
qed

text \<open>The invariant: no child is alive but the runner's current process.\<close>

definition one_child :: "('s \<Rightarrow> nat set) \<Rightarrow> runner \<times> 's \<Rightarrow> bool" where
  "one_child alive st \<longleftrightarrow> alive (snd st) \<subseteq> set_option (current_process (fst st))"

lemma one_child_mono: "one_child alive (r, s) \<Longrightarrow> alive s1 \<subseteq> alive s \<Longrightarrow> one_child alive (r, s1)"
  by (auto simp: one_child_def)

lemma stop_ends_child:
  assumes "proc_laws ops alive" and "one_child alive st"
  shows "alive (snd (runner_stop ops st)) = {}"
proof (cases "current_process (fst st)")
  case None
  with assms(2) show ?thesis by (simp add: runner_stop_def one_child_def)
next
  case (Some p)
  then show ?thesis using terminate_process_ends[OF assms(1), of "5 * second" p "snd st"] assms(2)
    by (auto simp: runner_stop_def one_child_def)
qed

lemma restart_one_child:
  assumes "proc_laws ops alive" and "one_child alive st"
  shows "one_child alive (snd (restart ops st))" and "restart ops st = (Some e, st1) \<Longrightarrow> alive (snd st1) = {}"
proof -
  define s1 where "s1 = (case current_process (fst st) of None \<Rightarrow> snd st | Some p \<Rightarrow> terminate_process ops (3 * second) p (snd st))"
  have "alive s1 = {}"
    using assms(2) terminate_process_ends[OF assms(1), of "3 * second" _ "snd st"]
    by (fastforce simp: s1_def one_child_def split: option.splits)
  obtain b s2 where b: "go_build ops s1 = (b, s2)" by (cases "go_build ops s1")
  with proc_law(5)[OF assms(1), of s1] \<open>alive s1 = {}\<close> have e2: "alive s2 = {}" by simp
  obtain q s3 where q: "start_main ops s2 = (q, s3)" by (cases "start_main ops s2")
  have e3: "case q of Inl _ \<Rightarrow> alive s3 = {} | Inr p \<Rightarrow> alive s3 \<subseteq> {p}"
    using proc_law(6,7)[OF assms(1)] q e2 by (cases q) fastforce+
  have r: "restart ops st = (case b of Some err \<Rightarrow> (Some (Errorf [Lit ''run: build failed: '', PW err]), fst st, s2)
      | None \<Rightarrow> (case q of Inl err \<Rightarrow> (Some (Errorf [Lit ''run: start failed: '', PW err]), (fst st)\<lparr>r_cmd := Some \<lparr>Process = None\<rparr>\<rparr>, s3)
        | Inr p \<Rightarrow> (None, (fst st)\<lparr>r_cmd := Some \<lparr>Process = Some p\<rparr>\<rparr>, s3)))"
    using b q by (simp add: restart_def s1_def[symmetric] Let_def split: option.split sum.split)
  show "one_child alive (snd (restart ops st))"
    using r e2 e3 by (auto simp: one_child_def current_process_def split: option.split sum.splits)
  show "restart ops st = (Some e, st1) \<Longrightarrow> alive (snd st1) = {}"
    using r e2 e3 by (auto split: option.splits sum.splits)
qed

section \<open>Facts: the loop\<close>

lemma set_st_simps [simp]:
  "dev_st (set_st st d) = st" "dev_result (set_st st d) = dev_result d" "armed (set_st st d) = armed d" "due (set_st st d) = due d"
  "dev_world (set_st st d) = snd st" "dev_runner (set_st st d) = fst st"
  by (simp_all add: set_st_def)

lemma stop_and_return_clean:
  assumes "proc_laws ops alive" and "one_child alive (dev_st d)"
  shows "alive (dev_world (stop_and_return ops res d)) = {}" and "one_child alive (dev_st (stop_and_return ops res d))"
  using stop_ends_child[OF assms] by (simp_all add: stop_and_return_def one_child_def)

lemma timer_step_one_child:
  "proc_laws ops alive \<Longrightarrow> one_child alive (dev_st d) \<Longrightarrow> one_child alive (dev_st (timer_step ops ev d))"
  by (cases ev) (simp_all add: timer_step_def restart_one_child(1))

lemma loop_step_one_child:
  assumes "proc_laws ops alive" and "one_child alive (dev_st d)"
  shows "one_child alive (dev_st (loop_step ops ev d))" and "one_child alive (dev_st (wait_step ops ev d))"
  using assms stop_and_return_clean(2)[OF assms] timer_step_one_child[OF assms]
  by (simp_all add: loop_step_def wait_step_def split: dev_event.split)

text \<open>Only \<open>stop_and_return\<close> sets the result, and the timers stay as they were.\<close>

lemma step_returns:
  assumes "dev_result d = None" and "dev_result (step d) \<noteq> None" and "step = loop_step ops ev \<or> step = wait_step ops ev"
  shows "step d = stop_and_return ops None d"
  using assms by (auto simp: loop_step_def wait_step_def timer_step_def split: dev_event.splits if_splits)

lemma step_after_return:
  assumes "dev_result d \<noteq> None" and "\<not> armed d" and "due d = 0"
  shows "loop_step ops ev d = d" and "wait_step ops ev d = d"
  using assms by (auto simp: loop_step_def wait_step_def timer_step_def split: dev_event.split)

definition dev_step :: "'s proc_ops \<Rightarrow> runConfig \<Rightarrow> dev_event \<Rightarrow> 's dev \<Rightarrow> 's dev" where
  "dev_step ops cfg = (if noReload cfg then wait_step ops else loop_step ops)"

lemma dev_step_after_return:
  "dev_result d \<noteq> None \<Longrightarrow> \<not> armed d \<Longrightarrow> due d = 0 \<Longrightarrow> fold (dev_step ops cfg) evs d = d"
  by (induction evs) (auto simp: dev_step_def step_after_return)

lemma new_dev_simps [simp]:
  "armed (new_dev s) = False" "due (new_dev s) = 0" "dev_result (new_dev s) = None" "dev_world (new_dev s) = s"
  "one_child alive (dev_runner (new_dev s), s) \<longleftrightarrow> alive s = {}"
  by (simp_all add: new_dev_def one_child_def current_process_def)

lemma stop_and_return_simps [simp]:
  "dev_result (stop_and_return ops res d) = Some res" "armed (stop_and_return ops res d) = armed d"
  "due (stop_and_return ops res d) = due d"
  by (simp_all add: stop_and_return_def)

text \<open>\<open>runDev\<close> is its set-up followed by the steps.\<close>

lemma runDev_fold: "runDev ops tree cfg evs s = fold (dev_step ops cfg) evs (runDev ops tree cfg [] s)"
  by (simp add: runDev_def run_loop_def Let_def dev_step_after_return split: prod.split option.split)
    (simp add: dev_step_def)

lemma add_watch_alive:
  assumes "proc_laws ops alive" and "alive s \<subseteq> A" and "add_watch ops tree dir s = (r, s1)"
  shows "alive s1 \<subseteq> A"
proof -
  have "alive (snd (watch_visit (watcher_add ops) p i e t)) \<subseteq> A" if "alive t \<subseteq> A" for p i e t
    using that proc_law(9)[OF assms(1), of p t] by (auto simp: watch_visit_def split: option.split prod.split)
  from walk_invariant(1)[of "\<lambda>t. alive t \<subseteq> A", OF this assms(2)]
  have "alive (snd (walk (watch_visit (watcher_add ops)) dir (tree dir) s)) \<subseteq> A" by simp
  moreover have "s1 = snd (walk (watch_visit (watcher_add ops)) dir (tree dir) s)"
    using assms(3) by (auto simp: add_watch_def addRecursive_def Walk_def split: prod.splits walk_result.splits option.splits)
  ultimately show ?thesis by simp
qed

lemma setup_children:
  assumes "proc_laws ops alive" and "alive s = {}"
    and d_def: "d = runDev ops tree cfg [] s"
  shows "one_child alive (dev_st d) \<and> (dev_result d \<noteq> None \<longrightarrow> alive (dev_world d) = {})"
proof -
  obtain r st where st: "restart ops (dev_st (new_dev s)) = (r, st)" by (cases "restart ops (dev_st (new_dev s))")
  have st1: "one_child alive st" and fail: "r \<noteq> None \<Longrightarrow> alive (snd st) = {}"
    using restart_one_child[OF assms(1), of "dev_st (new_dev s)"] assms(2) st by auto
  show ?thesis
  proof (cases "r \<noteq> None \<or> noReload cfg")
    case True
    then show ?thesis using st st1 fail by (cases r) (auto simp: d_def runDev_def Let_def)
  next
    case False
    obtain w s1 where w: "new_watcher ops (snd st) = (w, s1)" by (cases "new_watcher ops (snd st)")
    obtain a s2 where a: "run_until (add_watch ops tree) (watchDirs cfg) s1 = (a, s2)"
      by (cases "run_until (add_watch ops tree) (watchDirs cfg) s1")
    have s1: "alive s1 \<subseteq> alive (snd st)" using proc_law(8)[OF assms(1), of "snd st"] w by simp
    have s2: "alive s2 \<subseteq> alive (snd st)"
      by (rule run_until_invariant[where P = "\<lambda>t. alive t \<subseteq> alive (snd st)", OF _ s1 a]) (rule add_watch_alive[OF assms(1)])
    have "one_child alive (fst st, s1)" "one_child alive (fst st, s2)"
      using one_child_mono[of alive "fst st" "snd st"] st1 s1 s2 by auto
    with False st w a show ?thesis
      by (auto simp: d_def runDev_def Let_def run_loop_def stop_and_return_clean[OF assms(1)] split: option.split)
  qed
qed

lemma runDev_one_child:
  assumes "proc_laws ops alive" and "alive s = {}"
  shows "one_child alive (dev_st (runDev ops tree cfg evs s))"
proof -
  have "one_child alive (dev_st d) \<Longrightarrow> one_child alive (dev_st (fold (dev_step ops cfg) evs d))" for d
    by (induction evs arbitrary: d) (auto simp: dev_step_def loop_step_one_child[OF assms(1)])
  then show ?thesis using setup_children[OF assms refl, of tree cfg] runDev_fold[of ops tree cfg evs s] by simp
qed

text \<open>A burst of file events leaves the loop where it was, with the timer set if one event was relevant.\<close>

definition relevant :: "dev_event \<Rightarrow> bool" where
  "relevant ev = (case ev of FsEvent name op \<Rightarrow> isGoFile name \<and> (Write \<in> op \<or> Create \<in> op) | _ \<Rightarrow> False)"

definition file_event :: "dev_event \<Rightarrow> bool" where
  "file_event ev = (case ev of FsEvent name op \<Rightarrow> True | WatcherError e \<Rightarrow> True | _ \<Rightarrow> False)"

lemma burst_arms:
  "dev_result d = None \<Longrightarrow> list_all file_event evs \<Longrightarrow>
     run_loop ops evs d = d\<lparr>armed := armed d \<or> list_ex relevant evs\<rparr>"
proof (induction evs arbitrary: d)
  case (Cons ev evs)
  have "loop_step ops ev d = d\<lparr>armed := armed d \<or> relevant ev\<rparr>"
    using Cons.prems by (auto simp: loop_step_def relevant_def file_event_def split: dev_event.splits)
  then show ?case using Cons.IH[of "loop_step ops ev d"] Cons.prems by (simp add: run_loop_def)
qed (simp add: run_loop_def)

text \<open>A machine on which everything works: the state is the set of live children, the directories
  watched and the next process id; a process ends when it is asked to.\<close>

record demo_os =
  os_alive :: "nat set"
  os_watched :: "string list"
  os_next :: nat

definition demo_proc :: "demo_os proc_ops" where
  "demo_proc =
     \<lparr>sigterm = (\<lambda>p s. s\<lparr>os_alive := os_alive s - {p}\<rparr>), wait_for = (\<lambda>p d s. (p \<notin> os_alive s, s)),
      sigkill = (\<lambda>p s. s), wait_end = (\<lambda>p s. s\<lparr>os_alive := os_alive s - {p}\<rparr>),
      go_build = (\<lambda>s. (None, s)),
      start_main = (\<lambda>s. (Inr (os_next s), s\<lparr>os_alive := insert (os_next s) (os_alive s), os_next := Suc (os_next s)\<rparr>)),
      new_watcher = (\<lambda>s. (None, s)), watcher_add = (\<lambda>p s. (None, s\<lparr>os_watched := os_watched s @ [p]\<rparr>))\<rparr>"

lemma demo_proc_laws: "proc_laws demo_proc os_alive"
  by (auto simp: proc_laws_def demo_proc_def)

definition demo_machine :: demo_os where
  "demo_machine = \<lparr>os_alive = {}, os_watched = [], os_next = 100\<rparr>"

definition demo_tree :: fs_node where
  "demo_tree = DirNode ''app'' (Inr [FileNode ''main.go'', DirNode ''.git'' (Inr [DirNode ''objects'' (Inr [])]),
     DirNode ''pkg'' (Inr [DirNode ''tmp'' (Inr []), DirNode ''api'' (Inr [])])])"

lemmas dev_defs = runDev_def restart_def runner_stop_def new_dev_def current_process_def terminate_process_def set_st_def
  stop_and_return_def run_loop_def loop_step_def timer_step_def demo_proc_def demo_machine_def Let_def

text \<open>A callback that was due when \<open>runDev\<close> returned still restarts the process.\<close>

lemma late_callback_restarts:
  "let d = runDev demo_proc (\<lambda>_. demo_tree) \<lparr>configFile = [], run_addr = [], noReload = False, watchDirs = []\<rparr>
     [FsEvent ''main.go'' {Write}, TimerExpires, CtxDone, CallbackRuns] demo_machine
   in dev_result d = Some None \<and> os_alive (dev_world d) = {101}"
  by (simp add: dev_defs isGoFile_def HasSuffix_def)

section \<open>Properties\<close>

text \<open>C22: From a state with no children, and over every order of events, the only child that can be alive is the
  runner's current process; when \<open>runDev\<close> returns, with or without an error, no child is alive, and if no
  debounce timer was pending then, nothing that happens later starts one.\<close>

theorem runDev_children:
  assumes "proc_laws ops alive" and "alive s = {}"
  shows "alive (dev_world (runDev ops tree cfg evs s)) \<subseteq> set_option (current_process (dev_runner (runDev ops tree cfg evs s))) \<and>
    (dev_result (runDev ops tree cfg [] s) \<noteq> None \<longrightarrow> alive (dev_world (runDev ops tree cfg [] s)) = {}) \<and>
    (dev_result (runDev ops tree cfg evs s) = None \<and> dev_result (runDev ops tree cfg (evs @ [ev]) s) \<noteq> None \<longrightarrow>
       alive (dev_world (runDev ops tree cfg (evs @ [ev]) s)) = {} \<and>
       (\<not> armed (runDev ops tree cfg evs s) \<and> due (runDev ops tree cfg evs s) = 0 \<longrightarrow>
          runDev ops tree cfg (evs @ ev # evs2) s = runDev ops tree cfg (evs @ [ev]) s))"
proof -
  let ?run = "\<lambda>evs. runDev ops tree cfg evs s"
  note inv = runDev_one_child[OF assms, of tree cfg]
  have step: "?run (evs @ [ev]) = dev_step ops cfg ev (?run evs)"
    by (subst (1 2) runDev_fold) simp
  have later: "?run (evs @ ev # evs2) = fold (dev_step ops cfg) evs2 (?run (evs @ [ev]))"
    by (subst (1 2) runDev_fold) simp
  have ret: "?run (evs @ [ev]) = stop_and_return ops None (?run evs)"
    if "dev_result (?run evs) = None" "dev_result (?run (evs @ [ev])) \<noteq> None"
    using step_returns[of "?run evs" "dev_step ops cfg ev" ops ev] that step by (simp add: dev_step_def)
  show ?thesis
    using inv[of evs] setup_children[OF assms refl, of tree cfg] ret later stop_and_return_clean(1)[OF assms(1) inv[of evs]]
    by (auto simp: one_child_def dev_step_after_return)
qed

theorem runDev_children_witness:
  "let cfg = \<lparr>configFile = [], run_addr = [], noReload = False, watchDirs = [''app'']\<rparr>; evs = [FsEvent ''main.go'' {Write}, TimerExpires, CallbackRuns] in
   os_alive (dev_world (runDev demo_proc (\<lambda>_. demo_tree) cfg evs demo_machine)) \<subseteq> {101} \<and>
   os_alive (dev_world (runDev demo_proc (\<lambda>_. demo_tree) cfg (evs @ [CtxDone]) demo_machine)) = {}"
proof -
  let ?cfg = "\<lparr>configFile = [], run_addr = [], noReload = False, watchDirs = [''app'']\<rparr>" and ?evs = "[FsEvent ''main.go'' {Write}, TimerExpires, CallbackRuns]"
  let ?d = "runDev demo_proc (\<lambda>_. demo_tree) ?cfg ?evs demo_machine"
  let ?d1 = "runDev demo_proc (\<lambda>_. demo_tree) ?cfg (?evs @ [CtxDone]) demo_machine"
  note calc = dev_defs isGoFile_def HasSuffix_def add_watch_def addRecursive_def Walk_def demo_tree_def watch_visit_def
    skipped_dir_def HasPrefix_def Base_def strip_slashes_def Join_def Clean_def
  have "current_process (dev_runner ?d) = Some 101 \<and> dev_result ?d = None \<and> dev_result ?d1 \<noteq> None"
    by (simp add: calc)
  moreover have "os_alive demo_machine = {}" by (simp add: demo_machine_def)
  ultimately show ?thesis
    using runDev_children[OF demo_proc_laws, of demo_machine "\<lambda>_. demo_tree" ?cfg ?evs CtxDone "[]"] by (simp add: Let_def)
qed

text \<open>Debouncing: while the loop runs and no callback is due, a burst of file events of any length followed by
  the timer and its callback restarts the process once, if a \<open>.go\<close> file was written or created or the timer
  was already set, and otherwise changes nothing.\<close>

lemma debounce_coalesces:
  assumes "dev_result d = None" and "due d = 0" and "list_all file_event evs"
  shows "run_loop ops (evs @ [TimerExpires, CallbackRuns]) d =
    (if armed d \<or> list_ex relevant evs then (set_st (snd (restart ops (dev_st d))) d)\<lparr>armed := False\<rparr> else d)"
proof -
  have "run_loop ops (evs @ [TimerExpires, CallbackRuns]) d =
      loop_step ops CallbackRuns (loop_step ops TimerExpires (run_loop ops evs d))"
    by (simp add: run_loop_def)
  also have "run_loop ops evs d = d\<lparr>armed := armed d \<or> list_ex relevant evs\<rparr>" by (rule burst_arms[OF assms(1,3)])
  finally show ?thesis
    using assms(1,2) by (cases d) (auto simp: loop_step_def timer_step_def set_st_def)
qed

text \<open>C33: Setting up the watcher on a readable tree is adding, in order and up to the first failure, exactly the
  directories with no hidden, \<open>vendor\<close>, \<open>node_modules\<close> or \<open>tmp\<close> directory on the way from the root.\<close>

theorem addRecursive_equiv:
  assumes "rs \<noteq> []" and "\<forall>x \<in> set rs. plain_name x" and "readable_tree n"
  shows "addRecursive add (rel_path rs) n s =
    run_until add (if ignored (last rs) then [] else to_watch rs (dir_paths n)) s"
proof -
  obtain r s1 where r: "run_until add (if ignored (last rs) then [] else to_watch rs (dir_paths n)) s = (r, s1)"
    by (metis surj_pair)
  obtain q t where q: "walk (watch_visit add) (rel_path rs) n s = (q, t)" by (metis surj_pair)
  from walk_watch_visit(1)[OF refl refl assms, of add s] show ?thesis
    unfolding r q by (cases q; cases r) (auto simp: addRecursive_def Walk_def q)
qed

theorem addRecursive_equiv_witness:
  "addRecursive (\<lambda>p s. (None, s @ [p])) ''src/app'' demo_tree [] = (None, [''src/app'', ''src/app/pkg'', ''src/app/pkg/api''])"
proof -
  have "rel_path [''src'', ''app''] = ''src/app''" "\<forall>x \<in> set [''src'', ''app'']. plain_name x" "readable_tree demo_tree"
    by (simp_all add: rel_path_def plain_name_def demo_tree_def)
  moreover have "to_watch [''src'', ''app''] (dir_paths demo_tree) = [''src/app'', ''src/app/pkg'', ''src/app/pkg/api'']"
    "\<not> ignored ''app''"
    by (simp_all add: demo_tree_def to_watch_def ignored_def rel_path_def)
  ultimately show ?thesis using addRecursive_equiv[of "[''src'', ''app'']" demo_tree "\<lambda>p s. (None, s @ [p])" "[]"] by simp
qed

text \<open>Watching \<open>.\<close>, the default, watches nothing: the name of the root itself counts as hidden, so the walk is
  cut at once without an error, whatever the project contains.\<close>

lemma default_watch_is_empty: "addRecursive add ''.'' (DirNode n (Inr ns)) s = (None, s)"
  by (simp add: addRecursive_def Walk_def watch_visit_def skipped_dir_def HasPrefix_def Base_def strip_slashes_def)

end
