(* ===== verification/Commands.thy ===== *)
theory Commands
  imports Cli Hot_Reload
begin

text \<open>
  The command tree of the \<open>goplatform\<close> tool and its entry point: \<open>main.go\<close>, \<open>root.go\<close> and the
  constructors of the commands in \<open>init.go\<close>, \<open>run.go\<close> and \<open>migrate.go\<close> under \<open>src/cmd/goplatform\<close>.

  The tree is data: names, flags with their defaults, the argument check and the silencing switches.
  cobra is a parameter: \<open>cobra_resolve\<close> finds the command of an argument list with its flag values and
  arguments, \<open>cobra_report\<close> is what it prints of an error. The \<open>RunE\<close> functions are those of the theories
  \<open>Cli\<close> and \<open>Hot_Reload\<close>.
\<close>

section \<open>The command tree\<close>

datatype flag_value = FString string | FBool bool | FInt "64 word" | FStrings "string list"

record flag =
  fl_name :: string
  fl_short :: string
  fl_default :: flag_value

datatype command =
  Command (c_use: string) (c_flags: "flag list") (c_persistent: "flag list") (c_exactArgs: "nat option")
    (c_silenceErrors: bool) (c_subs: "command list")

abbreviation bool_flag :: "string \<Rightarrow> flag" where
  "bool_flag n \<equiv> \<lparr>fl_name = n, fl_short = [], fl_default = FBool False\<rparr>"

definition initCmd :: command where
  "initCmd = Command ''init''
     [bool_flag ''postgres'', bool_flag ''kafka'', bool_flag ''nats'', bool_flag ''redis'', bool_flag ''temporal'',
      bool_flag ''s3'', bool_flag ''connect'', \<lparr>fl_name = ''module'', fl_short = ''m'', fl_default = FString []\<rparr>]
     [] (Some 1) False []"

definition runCmd :: command where
  "runCmd = Command ''run''
     [\<lparr>fl_name = ''config'', fl_short = ''c'', fl_default = FString ''config.yaml''\<rparr>,
      \<lparr>fl_name = ''addr'', fl_short = [], fl_default = FString '':8080''\<rparr>,
      bool_flag ''no-reload'',
      \<lparr>fl_name = ''watch'', fl_short = ''w'', fl_default = FStrings [''.'']\<rparr>]
     [] None False []"

definition migrateUpCmd :: command where
  "migrateUpCmd = Command ''up'' [] [] None False []"

definition migrateDownCmd :: command where
  "migrateDownCmd = Command ''down'' [\<lparr>fl_name = ''steps'', fl_short = ''n'', fl_default = FInt 1\<rparr>] [] None False []"

definition migrateCreateCmd :: command where
  "migrateCreateCmd = Command ''create'' [] [] (Some 1) False []"

definition migrateCmd :: command where
  "migrateCmd = Command ''migrate'' []
     [\<lparr>fl_name = ''dsn'', fl_short = [], fl_default = FString []\<rparr>, \<lparr>fl_name = ''dir'', fl_short = [], fl_default = FString ''migrations''\<rparr>]
     None False [migrateUpCmd, migrateDownCmd, migrateCreateCmd]"

definition rootCmd :: command where
  "rootCmd = Command ''goplatform'' [] [] None True [initCmd, runCmd, migrateCmd]"

lemmas cmd_defs = initCmd_def runCmd_def migrateUpCmd_def migrateDownCmd_def migrateCreateCmd_def migrateCmd_def rootCmd_def

text \<open>The command at a path below another, with the persistent flags of the commands on the way.\<close>

fun find_cmd :: "flag list \<Rightarrow> string list \<Rightarrow> command \<Rightarrow> (flag list \<times> command) option" where
  "find_cmd inherited [] c = Some (inherited @ c_persistent c @ c_flags c, c)"
| "find_cmd inherited (n # ns) c =
     (case List.find (\<lambda>d. c_use d = n) (c_subs c) of
        None \<Rightarrow> None | Some d \<Rightarrow> find_cmd (inherited @ c_persistent c) ns d)"

definition default_of :: "flag list \<Rightarrow> string \<Rightarrow> flag_value option" where
  "default_of fs n = map_option fl_default (List.find (\<lambda>f. fl_name f = n) fs)"

section \<open>Running a command\<close>

record resolved =
  rv_path :: "string list"                 \<comment> \<open>below the root\<close>
  rv_flag :: "string \<Rightarrow> flag_value"
  rv_args :: "string list"

record ('t, 'm, 's) tool =
  tl_env :: "'s cli_env"
  tl_engine :: "'t tmpl_engine"
  tl_templates :: "(string \<times> string) list"
  tl_validateProto :: string
  tl_migrator :: "('m, 's) migrator"
  tl_proc :: "'s proc_ops"
  tl_tree :: "string \<Rightarrow> fs_node"
  cobra_resolve :: "command \<Rightarrow> string list \<Rightarrow> goerr + resolved"
  cobra_report :: "bool \<Rightarrow> goerr \<Rightarrow> 's \<Rightarrow> 's"           \<comment> \<open>\<open>SilenceErrors\<close>, the error\<close>
  cobra_help :: "string list \<Rightarrow> 's \<Rightarrow> 's"

fun str_of :: "flag_value \<Rightarrow> string" where
  "str_of (FString x) = x" | "str_of _ = []"

fun bool_of :: "flag_value \<Rightarrow> bool" where
  "bool_of (FBool b) = b" | "bool_of _ = False"

fun int_of_flag :: "flag_value \<Rightarrow> 64 word" where
  "int_of_flag (FInt i) = i" | "int_of_flag _ = 0"

fun strs_of :: "flag_value \<Rightarrow> string list" where
  "strs_of (FStrings xs) = xs" | "strs_of _ = []"

definition init_flags :: "(string \<Rightarrow> flag_value) \<Rightarrow> scaffold_data" where
  "init_flags fl =
     \<lparr>sd_Name = [], sd_Module = [], sd_Postgres = bool_of (fl ''postgres''), sd_Kafka = bool_of (fl ''kafka''),
      sd_NATS = bool_of (fl ''nats''), sd_Redis = bool_of (fl ''redis''), sd_Temporal = bool_of (fl ''temporal''),
      sd_S3 = bool_of (fl ''s3''), sd_Connect = bool_of (fl ''connect'')\<rparr>"

definition run_config :: "(string \<Rightarrow> flag_value) \<Rightarrow> runConfig" where
  "run_config fl = \<lparr>configFile = str_of (fl ''config''), run_addr = str_of (fl ''addr''),
     noReload = bool_of (fl ''no-reload''), watchDirs = strs_of (fl ''watch'')\<rparr>"

text \<open>
  The \<open>RunE\<close> of the command at a path: \<open>None\<close> while it has not returned (only \<open>run\<close>, whose events are
  \<open>evs\<close>). The root and \<open>migrate\<close> have none: cobra prints their help.
\<close>

definition run_cmd :: "('t, 'm, 's) tool \<Rightarrow> dev_event list \<Rightarrow> resolved \<Rightarrow> 's \<Rightarrow> goerr option option \<times> 's" where
  "run_cmd T evs rv s =
     (let fl = rv_flag rv; name = hd (rv_args rv) in
      if rv_path rv = [''init''] then
        apfst Some (runInit (tl_env T) (tl_engine T) (tl_templates T) (tl_validateProto T) name (str_of (fl ''module'')) (init_flags fl) s)
      else if rv_path rv = [''run''] then
        (let d = runDev (tl_proc T) (tl_tree T) (run_config fl) evs s in (dev_result d, dev_world d))
      else if rv_path rv = [''migrate'', ''up''] then
        apfst Some (migrateUp (tl_env T) (tl_migrator T) (str_of (fl ''dsn'')) (str_of (fl ''dir'')) s)
      else if rv_path rv = [''migrate'', ''down''] then
        apfst Some (migrateDown (tl_env T) (tl_migrator T) (str_of (fl ''dsn'')) (str_of (fl ''dir'')) (int_of_flag (fl ''steps'')) s)
      else if rv_path rv = [''migrate'', ''create''] then
        apfst Some (runMigrateCreate (tl_env T) (str_of (fl ''dir'')) name s)
      else (Some None, cobra_help T (rv_path rv) s))"

text \<open>\<open>cmd.Execute()\<close>: resolve, run, and report an error unless errors are silenced.\<close>

definition cobra_Execute :: "('t, 'm, 's) tool \<Rightarrow> dev_event list \<Rightarrow> command \<Rightarrow> string list \<Rightarrow> 's \<Rightarrow> goerr option option \<times> 's" where
  "cobra_Execute T evs root argv s =
     (case cobra_resolve T root argv of
        Inl err \<Rightarrow> (Some (Some err), cobra_report T (c_silenceErrors root) err s)
      | Inr rv \<Rightarrow>
          (case run_cmd T evs rv s of
             (Some (Some err), s1) \<Rightarrow> (Some (Some err), cobra_report T (c_silenceErrors root) err s1)
           | (res, s1) \<Rightarrow> (res, s1)))"

text \<open>\<open>main\<close>: the exit code, or \<open>None\<close> while the command runs.\<close>

definition goplatform_main :: "('t, 'm, 's) tool \<Rightarrow> dev_event list \<Rightarrow> string list \<Rightarrow> 's \<Rightarrow> nat option \<times> 's" where
  "goplatform_main T evs argv s =
     apfst (map_option (\<lambda>err. case err of None \<Rightarrow> 0 | Some _ \<Rightarrow> 1)) (cobra_Execute T evs rootCmd argv s)"

section \<open>Facts\<close>

text \<open>
  What cobra documents: the resolved command is in the tree, its argument check has passed, and a flag
  not given has its default; with \<open>SilenceErrors\<close> nothing is printed.
\<close>

definition cobra_laws :: "('t, 'm, 's) tool \<Rightarrow> bool" where
  "cobra_laws T \<longleftrightarrow>
     (\<forall>root argv rv. cobra_resolve T root argv = Inr rv \<longrightarrow>
        (\<exists>fs c. find_cmd [] (rv_path rv) root = Some (fs, c) \<and>
           (\<forall>n. c_exactArgs c = Some n \<longrightarrow> length (rv_args rv) = n) \<and>
           (\<forall>f \<in> set fs. (\<forall>a \<in> set argv. \<not> HasPrefix a ''-'') \<longrightarrow> rv_flag rv (fl_name f) = fl_default f))) \<and>
     (\<forall>err s. cobra_report T True err s = s)"

lemma cobra_resolves:
  assumes "cobra_laws T" and "cobra_resolve T root argv = Inr rv"
  obtains fs c where "find_cmd [] (rv_path rv) root = Some (fs, c)" "\<And>n. c_exactArgs c = Some n \<Longrightarrow> length (rv_args rv) = n"
    "\<And>f. f \<in> set fs \<Longrightarrow> (\<And>a. a \<in> set argv \<Longrightarrow> \<not> HasPrefix a ''-'') \<Longrightarrow> rv_flag rv (fl_name f) = fl_default f"
proof -
  from assms have "\<exists>fs c. find_cmd [] (rv_path rv) root = Some (fs, c) \<and>
     (\<forall>n. c_exactArgs c = Some n \<longrightarrow> length (rv_args rv) = n) \<and>
     (\<forall>f \<in> set fs. (\<forall>a \<in> set argv. \<not> HasPrefix a ''-'') \<longrightarrow> rv_flag rv (fl_name f) = fl_default f)"
    by (simp add: cobra_laws_def)
  with that show ?thesis by blast
qed

text \<open>Without file events the reload loop does nothing but wait for its end.\<close>

lemma run_loop_quiet:
  assumes "\<forall>ev \<in> set evs. \<forall>n op. ev \<noteq> FsEvent n op" and "\<not> armed d" and "due d = 0" and "dev_result d = None"
  shows "run_loop ops evs d \<in> {d, stop_and_return ops None d}"
proof -
  let ?e = "stop_and_return ops None d"
  have "loop_step ops ev x \<in> {d, ?e}" if "x \<in> {d, ?e}" "ev \<in> set evs" for ev x
    using that assms by (cases ev) (auto simp: loop_step_def timer_step_def stop_and_return_def set_st_def)
  then have "x \<in> {d, ?e} \<Longrightarrow> fold (loop_step ops) es x \<in> {d, ?e}" if "set es \<subseteq> set evs" for es x
    using that by (induction es arbitrary: x) simp_all
  then show ?thesis by (simp add: run_loop_def)
qed

lemma default_watch_dirs: "add_watch ops tree ''.'' s = (None, s)" if "tree ''.'' = DirNode n (Inr ns)"
  using that by (simp add: add_watch_def default_watch_is_empty)

section \<open>Properties\<close>

text \<open>\<open>goplatform run\<close> without flags never reloads: the default of \<open>--watch\<close> is the project directory \<open>.\<close>, which the
  watcher skips as hidden, so the watcher is left as created and reports no file; whatever happens, the child
  started first is the only one, until the end of the context or of the watcher stops it with exit code 0.\<close>

lemma default_run_never_reloads:
  assumes "cobra_laws T" and "cobra_resolve T rootCmd [''run''] = Inr rv" and "rv_path rv = [''run'']"
    and "tl_tree T ''.'' = DirNode n (Inr ns)"
    and "restart (tl_proc T) (\<lparr>r_cmd = None\<rparr>, s) = (None, st)" and "new_watcher (tl_proc T) (snd st) = (None, s1)"
    and "\<forall>ev \<in> set evs. \<forall>name op. ev \<noteq> FsEvent name op"
  shows "goplatform_main T evs [''run''] s \<in> {(None, s1), (Some 0, snd (runner_stop (tl_proc T) (fst st, s1)))}"
proof -
  obtain fs c where fs: "find_cmd [] [''run''] rootCmd = Some (fs, c)"
    "\<And>f. f \<in> set fs \<Longrightarrow> rv_flag rv (fl_name f) = fl_default f"
  proof (rule cobra_resolves[OF assms(1,2)])
    fix fs c assume "find_cmd [] (rv_path rv) rootCmd = Some (fs, c)"
      "\<And>f. f \<in> set fs \<Longrightarrow> (\<And>a. a \<in> set [''run''] \<Longrightarrow> \<not> HasPrefix a ''-'') \<Longrightarrow> rv_flag rv (fl_name f) = fl_default f"
    with that show thesis by (simp add: assms(3) HasPrefix_def)
  qed
  then have "fs = c_flags runCmd" by (simp add: cmd_defs)
  with fs(2) have fl: "rv_flag rv ''no-reload'' = FBool False" "rv_flag rv ''watch'' = FStrings [''.'']"
    by (force simp: runCmd_def)+
  define d where "d = (set_st st (new_dev s))\<lparr>dev_world := s1\<rparr>"
  have "runDev (tl_proc T) (tl_tree T) (run_config (rv_flag rv)) evs s = run_loop (tl_proc T) evs d"
    using assms(5,6) by (simp add: runDev_def run_config_def fl new_dev_def set_st_def default_watch_dirs[where tree = "tl_tree T", OF assms(4)] d_def)
  moreover have "run_loop (tl_proc T) evs d \<in> {d, stop_and_return (tl_proc T) None d}"
    using assms(7) by (intro run_loop_quiet) (simp_all add: d_def set_st_def new_dev_def)
  ultimately show ?thesis
    by (auto simp: goplatform_main_def cobra_Execute_def run_cmd_def assms(2,3) d_def set_st_def new_dev_def stop_and_return_def)
qed

text \<open>A tool in a world that counts the children started.\<close>

definition demo_tool :: "(unit, nat, nat) tool" where
  "demo_tool =
     \<lparr>tl_env = cli_of \<lparr>mkdir_all = (\<lambda>_ s. (None, s)), write_file = (\<lambda>_ _ s. (None, s))\<rparr>,
      tl_engine = \<lparr>tmpl_parse = (\<lambda>_ _. Inr ()), tmpl_exec = (\<lambda>_ _. Inr [])\<rparr>, tl_templates = [], tl_validateProto = [],
      tl_migrator = \<lparr>mg_new = (\<lambda>_ _ s. (Inr 0, s)), mg_up = (\<lambda>_ s. (None, s)), mg_steps = (\<lambda>_ _ s. (None, s)),
        mg_close = (\<lambda>_ s. s), ErrNoChange = ErrNew ''no change''\<rparr>,
      tl_proc = \<lparr>sigterm = (\<lambda>p s. s), wait_for = (\<lambda>p g s. (True, s)), sigkill = (\<lambda>p s. s), wait_end = (\<lambda>p s. s),
        go_build = (\<lambda>s. (None, s)), start_main = (\<lambda>s. (Inr s, s + 1)), new_watcher = (\<lambda>s. (None, s)), watcher_add = (\<lambda>d s. (None, s + 100))\<rparr>,
      tl_tree = (\<lambda>_. DirNode ''.'' (Inr [FileNode ''main.go''])),
      cobra_resolve = (\<lambda>root argv. case argv of
         [n] \<Rightarrow> (case find_cmd [] [n] root of
            Some (fs, c) \<Rightarrow> if c_exactArgs c = None \<and> distinct (map fl_name fs)
              then Inr \<lparr>rv_path = [n], rv_flag = (\<lambda>f. case default_of fs f of Some v \<Rightarrow> v | None \<Rightarrow> FString []), rv_args = []\<rparr>
              else Inl (ErrNew ''accepts 1 arg(s), received 0'')
          | None \<Rightarrow> Inl (ErrNew ''unknown command''))
       | _ \<Rightarrow> Inl (ErrNew ''unknown command'')),
      cobra_report = (\<lambda>silent err s. if silent then s else s + 1000), cobra_help = (\<lambda>p s. s)\<rparr>"

lemma default_of_flag: "distinct (map fl_name fs) \<Longrightarrow> f \<in> set fs \<Longrightarrow> default_of fs (fl_name f) = Some (fl_default f)"
  by (induction fs) (auto simp: default_of_def)

lemma demo_tool_laws: "cobra_laws demo_tool"
  unfolding cobra_laws_def
  by (auto simp: demo_tool_def default_of_flag split: list.splits option.splits prod.splits if_splits)

text \<open>\<open>--addr\<close> and \<open>--config\<close> have no effect on \<open>run\<close>.\<close>

lemma run_ignores_flags:
  assumes "rv_path rv = [''run'']" and "rv_path rv' = [''run'']"
    and "rv_flag rv ''no-reload'' = rv_flag rv' ''no-reload''" and "rv_flag rv ''watch'' = rv_flag rv' ''watch''"
  shows "run_cmd T evs rv s = run_cmd T evs rv' s"
proof -
  have "runDev ops tree cfg evs s = runDev ops tree cfg' evs s"
    if "noReload cfg = noReload cfg'" "watchDirs cfg = watchDirs cfg'" for ops tree cfg cfg'
    unfolding runDev_def that ..
  from this[of "run_config (rv_flag rv)" "run_config (rv_flag rv')"] assms show ?thesis
    by (simp add: run_cmd_def) (simp add: run_config_def)
qed

text \<open>A command that fails ends the tool with exit code 1 and nothing more: errors are silenced at the root and \<open>main\<close>
  does not print them.\<close>

lemma failure_is_silent:
  assumes "cobra_laws T" and "cobra_resolve T rootCmd argv = Inr rv" and "run_cmd T evs rv s = (Some (Some err), s1)"
  shows "goplatform_main T evs argv s = (Some 1, s1)"
  using assms by (simp add: goplatform_main_def cobra_Execute_def cobra_laws_def rootCmd_def)

end
