(* ===== verification/Steps.thy ===== *)
theory Steps
  imports Go_Prelude
begin

text \<open>
  Interleavings of goroutines: a step function says what an action does to a state (\<open>None\<close> if it cannot
  happen there), a run is a list of actions. The locale \<open>step_system\<close> is the contract of an
  invariant; the goroutines of the Kafka consumer and of the NATS subscriber interpret it.
\<close>

fun run_steps :: "('a \<Rightarrow> 's \<Rightarrow> 's option) \<Rightarrow> 'a list \<Rightarrow> 's \<Rightarrow> 's option" where
  "run_steps step [] s = Some s"
| "run_steps step (a # as) s = Option.bind (step a s) (run_steps step as)"

definition reachable_by :: "('a \<Rightarrow> 's \<Rightarrow> 's option) \<Rightarrow> 's \<Rightarrow> 's \<Rightarrow> bool" where
  "reachable_by step init s \<longleftrightarrow> (\<exists>as. run_steps step as init = Some s)"

lemma run_steps_append: "run_steps step (as @ bs) s = Option.bind (run_steps step as s) (run_steps step bs)"
  by (induction as arbitrary: s) (simp_all split: Option.bind_splits)

lemma run_steps_Cons: "run_steps step (a # as) s = Some t \<longleftrightarrow> (\<exists>u. step a s = Some u \<and> run_steps step as u = Some t)"
  by (auto simp: bind_eq_Some_conv)

lemma run_steps_invariant:
  assumes "\<And>a s t. a \<in> set as \<Longrightarrow> step a s = Some t \<Longrightarrow> P s \<Longrightarrow> P t" and "run_steps step as s = Some t" and "P s"
  shows "P t"
  using assms
proof (induction as arbitrary: s)
  case (Cons a as)
  then obtain u where "step a s = Some u" "run_steps step as u = Some t" unfolding run_steps_Cons by blast
  with Cons show ?case by (metis list.set_intros)
qed simp

locale step_system =
  fixes step :: "'a \<Rightarrow> 's \<Rightarrow> 's option"
    and init :: 's
    and inv :: "'s \<Rightarrow> bool"
  assumes inv_init: "inv init"
    and inv_step: "step a s = Some t \<Longrightarrow> inv s \<Longrightarrow> inv t"
begin

lemma inv_run: "run_steps step as s = Some t \<Longrightarrow> inv s \<Longrightarrow> inv t"
  using run_steps_invariant[of as step inv s t] inv_step by blast

lemma inv_reachable: "reachable_by step init s \<Longrightarrow> inv s"
  using inv_run inv_init by (auto simp: reachable_by_def)

end

end
