(* ===== verification/Consumer_Shutdown.thy ===== *)
theory Consumer_Shutdown
  imports Kafka_Consumer Steps
begin

text \<open>
  The Kafka consumer's goroutines: \<open>Subscribe\<close> calls, consume loops and \<open>Stop\<close> in
  \<open>src/pkg/broker/kafka/consumer.go\<close>, interleaved.

  The other theory models each operation as a whole; here an operation is the steps between which other
  goroutines can run. \<open>Subscribe\<close> creates a reader, registers it under the mutex, and adds to the wait
  group and starts the loop. \<open>Stop\<close> copies the registered subscriptions under the mutex, cancels them
  one by one, closes the readers one by one, and waits for the group. A loop fetches and handles in
  turn. What kafka-go does is the guard of \<open>Fetch\<close>: a reader that is not closed may return a message at any
  time, a closed one only the messages it has buffered, and any fetch may fail.
\<close>

section \<open>States and steps\<close>

datatype sub_phase =
    Created            \<comment> \<open>\<open>Subscribe\<close> has its reader\<close>
  | Registered         \<comment> \<open>reader and cancel function are in the consumer's lists\<close>
  | Fetching           \<comment> \<open>the loop waits in \<open>FetchMessage\<close>\<close>
  | Handling           \<comment> \<open>the loop is in \<open>processMessage\<close>\<close>
  | Ended

record kafka_subscription =
  sb_phase :: sub_phase
  sb_cancelled :: bool
  sb_closed :: bool
  sb_buffered :: nat

datatype stop_phase = NotStopping | Cancelling "nat list" "nat list" | Closing "nat list" | Waiting | Returned

record goroutines =
  gr_subs :: "kafka_subscription list"
  gr_registered :: "nat list"       \<comment> \<open>\<open>c.readers\<close> and \<open>c.cancels\<close>, as subscription numbers\<close>
  gr_wg :: nat
  gr_stop :: stop_phase

definition idle_consumer :: goroutines where
  "idle_consumer = \<lparr>gr_subs = [], gr_registered = [], gr_wg = 0, gr_stop = NotStopping\<rparr>"

definition upd :: "nat \<Rightarrow> (kafka_subscription \<Rightarrow> kafka_subscription) \<Rightarrow> goroutines \<Rightarrow> goroutines" where
  "upd i f g = g\<lparr>gr_subs := (gr_subs g)[i := f (gr_subs g ! i)]\<rparr>"

definition at_phase :: "goroutines \<Rightarrow> nat \<Rightarrow> sub_phase \<Rightarrow> bool" where
  "at_phase g i p \<longleftrightarrow> i < length (gr_subs g) \<and> sb_phase (gr_subs g ! i) = p"

datatype act =
    NewReader nat | RegisterSub nat | SpawnLoop nat           \<comment> \<open>\<open>Subscribe\<close>; a reader's buffer size\<close>
  | Fetch nat | FetchFails nat | HandlerDone nat              \<comment> \<open>a loop\<close>
  | StopCalled | CancelNext | CloseNext | WaitReturns           \<comment> \<open>\<open>Stop\<close>\<close>

fun perform :: "act \<Rightarrow> goroutines \<Rightarrow> goroutines option" where
  "perform (NewReader b) g =
     Some (g\<lparr>gr_subs := gr_subs g @ [\<lparr>sb_phase = Created, sb_cancelled = False, sb_closed = False, sb_buffered = b\<rparr>]\<rparr>)"
| "perform (RegisterSub i) g =
     (if at_phase g i Created
      then Some ((upd i (\<lambda>x. x\<lparr>sb_phase := Registered\<rparr>) g)\<lparr>gr_registered := gr_registered g @ [i]\<rparr>) else None)"
| "perform (SpawnLoop i) g =
     (if at_phase g i Registered
      then Some ((upd i (\<lambda>x. x\<lparr>sb_phase := Fetching\<rparr>) g)\<lparr>gr_wg := gr_wg g + 1\<rparr>) else None)"
| "perform (Fetch i) g =
     (if at_phase g i Fetching then
        let x = gr_subs g ! i in
        if \<not> sb_closed x then Some (upd i (\<lambda>x. x\<lparr>sb_phase := Handling\<rparr>) g)
        else if 0 < sb_buffered x then Some (upd i (\<lambda>x. x\<lparr>sb_phase := Handling, sb_buffered := sb_buffered x - 1\<rparr>) g)
        else None
      else None)"
| "perform (FetchFails i) g =
     (if at_phase g i Fetching
      then Some ((upd i (\<lambda>x. x\<lparr>sb_phase := Ended\<rparr>) g)\<lparr>gr_wg := gr_wg g - 1\<rparr>) else None)"
| "perform (HandlerDone i) g =
     (if at_phase g i Handling then Some (upd i (\<lambda>x. x\<lparr>sb_phase := Fetching\<rparr>) g) else None)"
| "perform StopCalled g =
     (case gr_stop g of
        NotStopping \<Rightarrow> Some (g\<lparr>gr_stop := Cancelling (gr_registered g) (gr_registered g)\<rparr>)
      | Returned \<Rightarrow> Some (g\<lparr>gr_stop := Cancelling (gr_registered g) (gr_registered g)\<rparr>)
      | _ \<Rightarrow> None)"
| "perform CancelNext g =
     (case gr_stop g of
        Cancelling (i # is) rs \<Rightarrow>
          Some ((upd i (\<lambda>x. x\<lparr>sb_cancelled := True\<rparr>) g)\<lparr>gr_stop := Cancelling is rs\<rparr>)
      | Cancelling [] rs \<Rightarrow> Some (g\<lparr>gr_stop := Closing rs\<rparr>)
      | _ \<Rightarrow> None)"
| "perform CloseNext g =
     (case gr_stop g of
        Closing (i # is) \<Rightarrow>
          Some ((upd i (\<lambda>x. x\<lparr>sb_closed := True\<rparr>) g)\<lparr>gr_stop := Closing is\<rparr>)
      | Closing [] \<Rightarrow> Some (g\<lparr>gr_stop := Waiting\<rparr>)
      | _ \<Rightarrow> None)"
| "perform WaitReturns g = (if gr_stop g = Waiting \<and> gr_wg g = 0 then Some (g\<lparr>gr_stop := Returned\<rparr>) else None)"

abbreviation performs :: "act list \<Rightarrow> goroutines \<Rightarrow> goroutines option" where
  "performs \<equiv> run_steps perform"

abbreviation reachable_consumer :: "goroutines \<Rightarrow> bool" where
  "reachable_consumer \<equiv> reachable_by perform idle_consumer"

section \<open>The wait group counts the loops\<close>

definition looping :: "kafka_subscription \<Rightarrow> bool" where
  "looping x \<longleftrightarrow> sb_phase x = Fetching \<or> sb_phase x = Handling"

definition loops :: "kafka_subscription \<Rightarrow> nat" where
  "loops x = (if looping x then 1 else 0)"

definition sub_sum :: "(kafka_subscription \<Rightarrow> nat) \<Rightarrow> goroutines \<Rightarrow> nat" where
  "sub_sum f g = sum_list (map f (gr_subs g))"

lemma sub_sum_upd: "i < length (gr_subs g) \<Longrightarrow> sub_sum f (upd i h g) + f (gr_subs g ! i) = sub_sum f g + f (h (gr_subs g ! i))"
proof -
  assume i: "i < length (gr_subs g)"
  then have "f (gr_subs g ! i) \<le> sum_list (map f (gr_subs g))" by (intro member_le_sum_list) simp_all
  with i show ?thesis by (simp add: sub_sum_def upd_def map_update sum_list_update)
qed

lemma sub_sum_eq_0: "sub_sum f g = 0 \<longleftrightarrow> (\<forall>x \<in> set (gr_subs g). f x = 0)"
  by (auto simp: sub_sum_def)

lemma upd_simps [simp]:
  "gr_registered (upd i h g) = gr_registered g" "gr_wg (upd i h g) = gr_wg g" "gr_stop (upd i h g) = gr_stop g"
  "length (gr_subs (upd i h g)) = length (gr_subs g)"
  by (simp_all add: upd_def)

lemma sub_sum_frame [simp]:
  "sub_sum f (g\<lparr>gr_registered := r\<rparr>) = sub_sum f g" "sub_sum f (g\<lparr>gr_wg := w\<rparr>) = sub_sum f g" "sub_sum f (g\<lparr>gr_stop := p\<rparr>) = sub_sum f g"
  by (simp_all add: sub_sum_def)

text \<open>The numbers in the lists are those of subscriptions.\<close>

fun pending :: "stop_phase \<Rightarrow> nat list" where
  "pending (Cancelling cs rs) = cs @ rs"
| "pending (Closing rs) = rs"
| "pending _ = []"

definition in_range :: "goroutines \<Rightarrow> bool" where
  "in_range g \<longleftrightarrow> (\<forall>i \<in> set (gr_registered g @ pending (gr_stop g)). i < length (gr_subs g))"

lemma perform_in_range: "perform a g = Some g' \<Longrightarrow> in_range g \<Longrightarrow> in_range g'"
  by (cases a) (auto simp: in_range_def at_phase_def Let_def less_Suc_eq split: if_splits stop_phase.splits list.splits)

definition wg_counts :: "goroutines \<Rightarrow> bool" where
  "wg_counts g \<longleftrightarrow> in_range g \<and> gr_wg g = sub_sum loops g"

lemma loops_simps [simp]:
  "loops (x\<lparr>sb_phase := p\<rparr>) = (if p = Fetching \<or> p = Handling then 1 else 0)"
  "loops (x\<lparr>sb_buffered := b\<rparr>) = loops x" "loops (x\<lparr>sb_cancelled := c\<rparr>) = loops x" "loops (x\<lparr>sb_closed := d\<rparr>) = loops x"
  by (simp_all add: loops_def looping_def)

lemma loops_at_phase: "at_phase g i p \<Longrightarrow> loops (gr_subs g ! i) = (if p = Fetching \<or> p = Handling then 1 else 0)"
  by (auto simp: at_phase_def loops_def looping_def)

lemma sub_sum_at_phase:
  "at_phase g i p \<Longrightarrow> sub_sum loops (upd i h g) + (if p = Fetching \<or> p = Handling then 1 else 0) = sub_sum loops g + loops (h (gr_subs g ! i))"
  using sub_sum_upd[of i g loops h] loops_at_phase[of g i p] by (simp add: at_phase_def)

lemma sub_sum_mark:
  "i < length (gr_subs g) \<Longrightarrow> f (h (gr_subs g ! i)) = f (gr_subs g ! i) \<Longrightarrow> sub_sum f (upd i h g) = sub_sum f g"
  using sub_sum_upd[of i g f h] by simp

lemma perform_wg_counts:
  assumes "perform a g = Some g'" and "wg_counts g"
  shows "wg_counts g'"
proof -
  have r: "in_range g" and w: "gr_wg g = sub_sum loops g" using assms(2) by (simp_all add: wg_counts_def)
  have "gr_wg g' = sub_sum loops g'"
  proof (cases a)
    case (NewReader b)
    with assms(1) w show ?thesis by (auto simp: sub_sum_def loops_def looping_def)
  next
    case (RegisterSub i)
    with assms(1) w sub_sum_at_phase[of g i Created "\<lambda>x. x\<lparr>sb_phase := Registered\<rparr>"] show ?thesis by (auto split: if_splits)
  next
    case (SpawnLoop i)
    with assms(1) w sub_sum_at_phase[of g i Registered "\<lambda>x. x\<lparr>sb_phase := Fetching\<rparr>"] show ?thesis by (auto split: if_splits)
  next
    case (Fetch i)
    with assms(1) w sub_sum_at_phase[of g i Fetching "\<lambda>x. x\<lparr>sb_phase := Handling\<rparr>"]
      sub_sum_at_phase[of g i Fetching "\<lambda>x. x\<lparr>sb_phase := Handling, sb_buffered := sb_buffered x - 1\<rparr>"]
    show ?thesis by (auto simp: Let_def split: if_splits)
  next
    case (FetchFails i)
    with assms(1) w sub_sum_at_phase[of g i Fetching "\<lambda>x. x\<lparr>sb_phase := Ended\<rparr>"] show ?thesis by (auto split: if_splits)
  next
    case (HandlerDone i)
    with assms(1) w sub_sum_at_phase[of g i Handling "\<lambda>x. x\<lparr>sb_phase := Fetching\<rparr>"] show ?thesis by (auto split: if_splits)
  qed (use assms(1) w r in \<open>auto simp: in_range_def sub_sum_mark split: stop_phase.splits list.splits if_splits\<close>)
  with perform_in_range[OF assms(1) r] show ?thesis by (simp add: wg_counts_def)
qed

interpretation wg: step_system perform idle_consumer wg_counts
proof
  show "wg_counts idle_consumer" by (simp add: idle_consumer_def wg_counts_def in_range_def sub_sum_def)
qed (rule perform_wg_counts)

section \<open>A shutdown without concurrent subscriptions\<close>

definition no_subscribe :: "act \<Rightarrow> bool" where
  "no_subscribe a \<longleftrightarrow> (case a of NewReader _ \<Rightarrow> False | RegisterSub _ \<Rightarrow> False | SpawnLoop _ \<Rightarrow> False | StopCalled \<Rightarrow> False | _ \<Rightarrow> True)"

text \<open>No \<open>Subscribe\<close> is between its start and its end.\<close>

definition all_subscribed :: "goroutines \<Rightarrow> bool" where
  "all_subscribed g \<longleftrightarrow> (\<forall>x \<in> set (gr_subs g). sb_phase x \<noteq> Created \<and> sb_phase x \<noteq> Registered)"

text \<open>How far \<open>Stop\<close> is: what is not yet cancelled or closed is still on its lists.\<close>

fun stop_covers :: "stop_phase \<Rightarrow> nat \<Rightarrow> kafka_subscription \<Rightarrow> bool" where
  "stop_covers NotStopping i x \<longleftrightarrow> False"
| "stop_covers (Cancelling cs rs) i x \<longleftrightarrow> (sb_cancelled x \<or> i \<in> set cs) \<and> (sb_closed x \<or> i \<in> set rs)"
| "stop_covers (Closing rs) i x \<longleftrightarrow> sb_cancelled x \<and> (sb_closed x \<or> i \<in> set rs)"
| "stop_covers Waiting i x \<longleftrightarrow> sb_cancelled x \<and> sb_closed x"
| "stop_covers Returned i x \<longleftrightarrow> sb_cancelled x \<and> sb_closed x \<and> sb_phase x = Ended"

definition covered :: "stop_phase \<Rightarrow> nat \<Rightarrow> kafka_subscription \<Rightarrow> bool" where
  "covered p i x \<longleftrightarrow> sb_phase x \<noteq> Created \<and> sb_phase x \<noteq> Registered \<and> stop_covers p i x"

definition for_all :: "(nat \<Rightarrow> kafka_subscription \<Rightarrow> bool) \<Rightarrow> goroutines \<Rightarrow> bool" where
  "for_all P g \<longleftrightarrow> (\<forall>i < length (gr_subs g). P i (gr_subs g ! i))"

definition progress :: "goroutines \<Rightarrow> bool" where
  "progress g \<longleftrightarrow> for_all (covered (gr_stop g)) g"

lemma for_all_upd: "for_all P g \<Longrightarrow> P i (h (gr_subs g ! i)) \<Longrightarrow> for_all P (upd i h g)"
  by (simp add: for_all_def upd_def) (metis nth_list_update_eq nth_list_update_neq)

lemma for_all_mono: "for_all P g \<Longrightarrow> (\<And>i x. P i x \<Longrightarrow> Q i x) \<Longrightarrow> for_all Q g"
  by (simp add: for_all_def)

lemma for_all_upd_mono:
  "for_all P g \<Longrightarrow> (\<And>j x. j \<noteq> i \<Longrightarrow> P j x \<Longrightarrow> Q j x) \<Longrightarrow> (\<And>x. P i x \<Longrightarrow> Q i (h x)) \<Longrightarrow> for_all Q (upd i h g)"
  by (simp add: for_all_def upd_def) (metis nth_list_update_eq nth_list_update_neq)

lemma for_all_at: "for_all P g \<Longrightarrow> at_phase g i p \<Longrightarrow> P i (gr_subs g ! i)"
  by (simp add: for_all_def at_phase_def)

lemma for_all_frame [simp]:
  "for_all P (g\<lparr>gr_registered := r\<rparr>) = for_all P g" "for_all P (g\<lparr>gr_wg := w\<rparr>) = for_all P g" "for_all P (g\<lparr>gr_stop := p\<rparr>) = for_all P g"
  by (simp_all add: for_all_def)

lemma covered_phase:
  "covered st i x \<Longrightarrow> sb_phase x \<noteq> Ended \<Longrightarrow> p \<noteq> Created \<Longrightarrow> p \<noteq> Registered \<Longrightarrow> covered st i (x\<lparr>sb_phase := p\<rparr>)"
  "covered st i (x\<lparr>sb_buffered := b\<rparr>) = covered st i x"
  by (cases st; simp add: covered_def)+

text \<open>Every subscription past its registration is on the consumer's lists.\<close>

definition registered_inv :: "goroutines \<Rightarrow> bool" where
  "registered_inv g \<longleftrightarrow> for_all (\<lambda>i x. sb_phase x \<noteq> Created \<longrightarrow> i \<in> set (gr_registered g)) g"

lemma perform_registered:
  assumes "perform a g = Some g'" and "registered_inv g"
  shows "registered_inv g'"
proof -
  let ?P = "\<lambda>i x. sb_phase x \<noteq> Created \<longrightarrow> i \<in> set (gr_registered g)"
  have P: "for_all ?P g" using assms(2) by (simp add: registered_inv_def)
  have loop: "for_all ?P (upd i h g)" if "at_phase g i p" "p \<noteq> Created" for i h p
    using for_all_at[OF P that(1)] that by (intro for_all_upd[OF P]) (simp add: at_phase_def)
  have mark: "for_all ?P (upd i h g)" if "\<And>x. sb_phase (h x) = sb_phase x" for i h
    using that by (intro for_all_upd_mono[OF P]) simp_all
  show ?thesis
  proof (cases a)
    case (NewReader b)
    with assms P show ?thesis by (auto simp: registered_inv_def for_all_def nth_append less_Suc_eq)
  next
    case (RegisterSub i)
    then have "g' = (upd i (\<lambda>x. x\<lparr>sb_phase := Registered\<rparr>) g)\<lparr>gr_registered := gr_registered g @ [i]\<rparr>"
      using assms(1) by (auto split: if_splits)
    moreover have "for_all (\<lambda>j x. sb_phase x \<noteq> Created \<longrightarrow> j \<in> set (gr_registered g @ [i])) (upd i (\<lambda>x. x\<lparr>sb_phase := Registered\<rparr>) g)"
      by (intro for_all_upd_mono[OF P]) simp_all
    ultimately show ?thesis by (simp add: registered_inv_def)
  qed (use assms(1) P loop mark in \<open>auto simp: registered_inv_def Let_def split: if_splits stop_phase.splits list.splits\<close>)
qed

interpretation registered: step_system perform idle_consumer registered_inv
proof
  show "registered_inv idle_consumer" by (simp add: idle_consumer_def registered_inv_def for_all_def)
qed (rule perform_registered)

lemma wg_zero: "wg_counts g \<Longrightarrow> gr_wg g = 0 \<Longrightarrow> i < length (gr_subs g) \<Longrightarrow> \<not> looping (gr_subs g ! i)"
  using sub_sum_eq_0[of loops g] by (auto simp: wg_counts_def loops_def split: if_splits)

lemma not_looping_Ended: "\<not> looping x \<Longrightarrow> sb_phase x \<noteq> Created \<Longrightarrow> sb_phase x \<noteq> Registered \<Longrightarrow> sb_phase x = Ended"
  by (cases "sb_phase x") (simp_all add: looping_def)

lemma perform_progress:
  assumes "perform a g = Some g'" and "no_subscribe a" and "wg_counts g" and "progress g"
  shows "progress g'"
proof -
  have P: "for_all (covered (gr_stop g)) g" using assms(4) by (simp add: progress_def)
  have loop: "for_all (covered (gr_stop g)) (upd i h g)"
    if "at_phase g i p" "p \<noteq> Ended" "\<And>x. covered (gr_stop g) i x \<Longrightarrow> sb_phase x \<noteq> Ended \<Longrightarrow> covered (gr_stop g) i (h x)" for i h p
    using for_all_at[OF P that(1)] that by (intro for_all_upd[OF P]) (simp add: at_phase_def)
  show ?thesis
  proof (cases a)
    case (Fetch i)
    with assms(1) have "at_phase g i Fetching" and "gr_stop g' = gr_stop g"
      "g' = upd i (\<lambda>x. x\<lparr>sb_phase := Handling\<rparr>) g \<or> g' = upd i (\<lambda>x. x\<lparr>sb_phase := Handling, sb_buffered := sb_buffered x - 1\<rparr>) g"
      by (auto simp: Let_def split: if_splits)
    with loop[of i Fetching] show ?thesis by (auto simp: progress_def covered_phase)
  next
    case (FetchFails i)
    with assms(1) have "at_phase g i Fetching" "g' = (upd i (\<lambda>x. x\<lparr>sb_phase := Ended\<rparr>) g)\<lparr>gr_wg := gr_wg g - 1\<rparr>"
      by (auto split: if_splits)
    with loop[of i Fetching] show ?thesis by (simp add: progress_def covered_phase)
  next
    case (HandlerDone i)
    with assms(1) have "at_phase g i Handling" "g' = upd i (\<lambda>x. x\<lparr>sb_phase := Fetching\<rparr>) g" by (auto split: if_splits)
    with loop[of i Handling] show ?thesis by (simp add: progress_def covered_phase)
  next
    case CancelNext
    with assms(1) P show ?thesis
      by (auto simp: progress_def covered_def split: stop_phase.splits list.splits elim!: for_all_upd_mono for_all_mono)
  next
    case CloseNext
    with assms(1) P show ?thesis
      by (auto simp: progress_def covered_def split: stop_phase.splits list.splits elim!: for_all_upd_mono for_all_mono)
  next
    case WaitReturns
    with assms(1) have g': "gr_stop g = Waiting" "gr_wg g = 0" "g' = g\<lparr>gr_stop := Returned\<rparr>" by (auto split: if_splits)
    with P wg_zero[OF assms(3) g'(2)] not_looping_Ended show ?thesis by (auto simp: progress_def covered_def for_all_def)
  qed (use assms(2) in \<open>simp_all add: no_subscribe_def\<close>)
qed

text \<open>While waiting, every step takes the loops closer to their end.\<close>

definition weight :: "kafka_subscription \<Rightarrow> nat" where
  "weight x = (case sb_phase x of Fetching \<Rightarrow> 2 * sb_buffered x + 1 | Handling \<Rightarrow> 2 * sb_buffered x + 2 | _ \<Rightarrow> 0)"

definition stop_bound :: "goroutines \<Rightarrow> nat" where
  "stop_bound g = sub_sum weight g + (if gr_stop g = Returned then 0 else 1)"

lemma perform_waiting:
  assumes "perform a g = Some g'" and "no_subscribe a" and "progress g" and "gr_stop g = Waiting \<or> gr_stop g = Returned"
  shows "stop_bound g' < stop_bound g \<and> (gr_stop g' = Waiting \<or> gr_stop g' = Returned)"
proof -
  have closed: "sb_closed (gr_subs g ! i)" if "at_phase g i p" for i p
    using for_all_at[OF assms(3)[unfolded progress_def] that] assms(4) by (auto simp: covered_def)
  have step: "sub_sum weight (upd i h g) < sub_sum weight g" if "at_phase g i p" "weight (h (gr_subs g ! i)) < weight (gr_subs g ! i)" for i p h
    using sub_sum_upd[of i g weight h] that by (simp add: at_phase_def)
  show ?thesis
  proof (cases a)
    case (Fetch i)
    with assms(1) closed[of i Fetching] have g': "g' = upd i (\<lambda>x. x\<lparr>sb_phase := Handling, sb_buffered := sb_buffered x - 1\<rparr>) g"
      and at: "at_phase g i Fetching" "0 < sb_buffered (gr_subs g ! i)" by (auto simp: Let_def split: if_splits)
    have "sub_sum weight g' < sub_sum weight g" unfolding g'
      using at by (intro step[OF at(1)]) (auto simp: weight_def at_phase_def)
    with assms(4) show ?thesis by (auto simp: stop_bound_def g')
  next
    case (FetchFails i)
    with assms(1) have g': "g' = (upd i (\<lambda>x. x\<lparr>sb_phase := Ended\<rparr>) g)\<lparr>gr_wg := gr_wg g - 1\<rparr>" and at: "at_phase g i Fetching"
      by (auto split: if_splits)
    have "sub_sum weight g' < sub_sum weight g" unfolding g' sub_sum_frame
      using at by (intro step[OF at]) (auto simp: weight_def at_phase_def)
    with assms(4) show ?thesis by (auto simp: stop_bound_def g')
  next
    case (HandlerDone i)
    with assms(1) have g': "g' = upd i (\<lambda>x. x\<lparr>sb_phase := Fetching\<rparr>) g" and at: "at_phase g i Handling" by (auto split: if_splits)
    have "sub_sum weight g' < sub_sum weight g" unfolding g'
      using at by (intro step[OF at]) (auto simp: weight_def at_phase_def)
    with assms(4) show ?thesis by (auto simp: stop_bound_def g')
  qed (use assms(1,2,4) in \<open>auto simp: no_subscribe_def stop_bound_def split: if_splits\<close>)
qed

lemma performs_waiting:
  assumes "performs as g = Some h" and "\<forall>a \<in> set as. no_subscribe a" and "progress g" and "wg_counts g"
    and "gr_stop g = Waiting \<or> gr_stop g = Returned"
  shows "length as + stop_bound h \<le> stop_bound g"
  using assms
proof (induction as arbitrary: g)
  case (Cons a as)
  then obtain g1 where g1: "perform a g = Some g1" "performs as g1 = Some h" by (auto simp: bind_eq_Some_conv)
  from Cons.prems have a: "no_subscribe a" by simp
  note w = perform_waiting[OF g1(1) a Cons.prems(3,5)]
  from Cons.IH[OF g1(2) _ perform_progress[OF g1(1) a Cons.prems(4,3)] perform_wg_counts[OF g1(1) Cons.prems(4)]] Cons.prems(2) w
  show ?case by simp
qed simp

text \<open>As long as \<open>Stop\<close> has not returned something can go on: \<open>Stop\<close> itself or, once it waits, a loop.\<close>

lemma stop_can_go_on:
  assumes "wg_counts g" and "gr_stop g \<noteq> NotStopping" and "gr_stop g \<noteq> Returned"
  shows "\<exists>a. no_subscribe a \<and> perform a g \<noteq> None"
proof (cases "gr_stop g")
  case (Cancelling cs rs)
  then have "perform CancelNext g \<noteq> None" by (cases cs) simp_all
  then show ?thesis by (intro exI[of _ CancelNext]) (simp add: no_subscribe_def)
next
  case (Closing rs)
  then have "perform CloseNext g \<noteq> None" by (cases rs) simp_all
  then show ?thesis by (intro exI[of _ CloseNext]) (simp add: no_subscribe_def)
next
  case Waiting
  show ?thesis
  proof (cases "gr_wg g = 0")
    case True
    with Waiting show ?thesis by (intro exI[of _ WaitReturns]) (simp add: no_subscribe_def)
  next
    case False
    then obtain x where "x \<in> set (gr_subs g)" "loops x \<noteq> 0" using assms(1) sub_sum_eq_0[of loops g] by (auto simp: wg_counts_def)
    then obtain i where "i < length (gr_subs g)" "looping (gr_subs g ! i)" by (auto simp: in_set_conv_nth loops_def split: if_splits)
    then have "perform (FetchFails i) g \<noteq> None \<or> perform (HandlerDone i) g \<noteq> None" by (auto simp: looping_def at_phase_def)
    moreover have "no_subscribe (FetchFails i)" "no_subscribe (HandlerDone i)" by (simp_all add: no_subscribe_def)
    ultimately show ?thesis by blast
  qed
qed (use assms in auto)

lemma perform_not_back: "perform a g = Some g' \<Longrightarrow> gr_stop g \<noteq> NotStopping \<Longrightarrow> gr_stop g' \<noteq> NotStopping"
  by (cases a) (auto simp: Let_def split: if_splits stop_phase.splits list.splits)

lemma progress_from_call:
  assumes "reachable_consumer g" and "all_subscribed g" and "gr_stop g = NotStopping"
  shows "progress (g\<lparr>gr_stop := Cancelling (gr_registered g) (gr_registered g)\<rparr>)"
  using registered.inv_reachable[OF assms(1)] assms(2) by (auto simp: progress_def registered_inv_def all_subscribed_def for_all_def covered_def)

section \<open>Properties\<close>

text \<open>C18: Shutting down without concurrent subscriptions: when \<open>Stop\<close> is called with no \<open>Subscribe\<close> in
  progress, and none starts, then under every interleaving of \<open>Stop\<close> with the loops: \<open>Stop\<close> is never
  stuck; once it waits, at most a bounded number of steps (of handlers and buffered messages) remains before it returns; and
  when it has returned, every loop has ended, with its context cancelled and its reader closed.\<close>

theorem Consumer_Stop_drains:
  assumes "reachable_consumer g" and "all_subscribed g" and "gr_stop g = NotStopping"
    and "performs (StopCalled # as) g = Some h" and "\<forall>a \<in> set as. no_subscribe a"
  shows "(gr_stop h = Returned \<longrightarrow> (\<forall>x \<in> set (gr_subs h). sb_phase x = Ended \<and> sb_cancelled x \<and> sb_closed x)) \<and>
    (gr_stop h \<noteq> Returned \<longrightarrow> (\<exists>a. no_subscribe a \<and> perform a h \<noteq> None)) \<and>
    (gr_stop h = Waiting \<longrightarrow> (\<forall>bs k. performs bs h = Some k \<and> (\<forall>b \<in> set bs. no_subscribe b) \<longrightarrow> length bs \<le> stop_bound h))"
proof -
  let ?g = "g\<lparr>gr_stop := Cancelling (gr_registered g) (gr_registered g)\<rparr>"
  have call: "perform StopCalled g = Some ?g" using assms(3) by simp
  then have as: "performs as ?g = Some h" using assms(4) by simp
  have "wg_counts ?g" by (rule perform_wg_counts[OF call wg.inv_reachable[OF assms(1)]])
  moreover note progress_from_call[OF assms(1-3)]
  moreover have "gr_stop ?g \<noteq> NotStopping" by simp
  ultimately have g: "wg_counts ?g \<and> progress ?g \<and> gr_stop ?g \<noteq> NotStopping" by blast
  have h: "wg_counts h \<and> progress h \<and> gr_stop h \<noteq> NotStopping"
  proof (rule run_steps_invariant[where P = "\<lambda>x. wg_counts x \<and> progress x \<and> gr_stop x \<noteq> NotStopping", OF _ as g])
    fix a x y assume "a \<in> set as" "perform a x = Some y" "wg_counts x \<and> progress x \<and> gr_stop x \<noteq> NotStopping"
    with assms(5) show "wg_counts y \<and> progress y \<and> gr_stop y \<noteq> NotStopping"
      using perform_wg_counts perform_progress perform_not_back by blast
  qed
  then have "gr_stop h = Returned \<Longrightarrow> x \<in> set (gr_subs h) \<Longrightarrow> sb_phase x = Ended \<and> sb_cancelled x \<and> sb_closed x" for x
    by (auto simp: progress_def for_all_def covered_def in_set_conv_nth)
  moreover have "gr_stop h \<noteq> Returned \<Longrightarrow> \<exists>a. no_subscribe a \<and> perform a h \<noteq> None" using stop_can_go_on h by blast
  moreover have "length bs \<le> stop_bound h" if "gr_stop h = Waiting" "performs bs h = Some k" "\<forall>b \<in> set bs. no_subscribe b" for bs k
    using performs_waiting[OF that(2,3)] h that(1) by fastforce
  ultimately show ?thesis by blast
qed

theorem Consumer_Stop_drains_witness:
  "\<exists>g h k. performs [NewReader 1, RegisterSub 0, SpawnLoop 0, Fetch 0] idle_consumer = Some g \<and>
     performs [StopCalled, CancelNext, CancelNext, CloseNext, CloseNext] g = Some h \<and> gr_stop h = Waiting \<and> stop_bound h = 5 \<and>
     performs [HandlerDone 0, Fetch 0, HandlerDone 0, FetchFails 0, WaitReturns] h = Some k \<and>
     (\<forall>x. x \<in> set (gr_subs k) \<longrightarrow> sb_phase x = Ended)"
proof -
  obtain g where g: "performs [NewReader 1, RegisterSub 0, SpawnLoop 0, Fetch 0] idle_consumer = Some g"
    "g = \<lparr>gr_subs = [\<lparr>sb_phase = Handling, sb_cancelled = False, sb_closed = False, sb_buffered = 1\<rparr>], gr_registered = [0],
       gr_wg = 1, gr_stop = NotStopping\<rparr>"
    by (simp add: idle_consumer_def at_phase_def upd_def)
  define k where "k = \<lparr>gr_subs = [\<lparr>sb_phase = Ended, sb_cancelled = True, sb_closed = True, sb_buffered = 0\<rparr>], gr_registered = [0],
       gr_wg = 0, gr_stop = Returned\<rparr>"
  define h where "h = \<lparr>gr_subs = [\<lparr>sb_phase = Handling, sb_cancelled = True, sb_closed = True, sb_buffered = 1\<rparr>], gr_registered = [0],
       gr_wg = 1, gr_stop = Waiting\<rparr>"
  have h: "performs [StopCalled, CancelNext, CancelNext, CloseNext, CloseNext] g = Some h"
    by (simp add: g(2) h_def at_phase_def upd_def)
  have k: "performs [HandlerDone 0, Fetch 0, HandlerDone 0, FetchFails 0, WaitReturns] h = Some k"
    by (simp add: h_def k_def at_phase_def upd_def)
  have all: "performs (StopCalled # [CancelNext, CancelNext, CloseNext, CloseNext] @ [HandlerDone 0, Fetch 0, HandlerDone 0, FetchFails 0, WaitReturns]) g = Some k"
    using h k run_steps_append[of perform "[StopCalled, CancelNext, CancelNext, CloseNext, CloseNext]" "[HandlerDone 0, Fetch 0, HandlerDone 0, FetchFails 0, WaitReturns]" g]
    by simp
  have reach: "reachable_consumer g" using g(1) unfolding reachable_by_def by blast
  have all_subscribed: "all_subscribed g" "gr_stop g = NotStopping" by (simp_all add: g(2) all_subscribed_def)
  have "\<forall>x. x \<in> set (gr_subs k) \<longrightarrow> sb_phase x = Ended"
    using Consumer_Stop_drains[OF reach all_subscribed all] by (simp add: no_subscribe_def k_def)
  moreover have "gr_stop h = Waiting" "stop_bound h = 5" by (simp_all add: h_def stop_bound_def sub_sum_def weight_def)
  ultimately show ?thesis using g(1) h k by blast
qed

text \<open>Whatever else runs, no loop is running at the moment \<open>Stop\<close> returns.\<close>

lemma Stop_returns_without_loops:
  assumes "reachable_consumer g" and "perform WaitReturns g = Some h" and "x \<in> set (gr_subs h)"
  shows "\<not> looping x"
  using wg_zero[OF wg.inv_reachable[OF assms(1)]] assms(2,3) by (auto simp: in_set_conv_nth split: if_splits)

text \<open>A subscription that is registered after \<open>Stop\<close> has copied the lists is neither cancelled nor closed, but
  \<open>Stop\<close> waits for its loop: as long as messages keep coming \<open>Stop\<close> does not return.\<close>

lemma Stop_can_wait_forever:
  "\<exists>g. performs [StopCalled, NewReader 0, RegisterSub 0, SpawnLoop 0, CancelNext, CloseNext] idle_consumer = Some g \<and>
     gr_stop g = Waiting \<and> (\<forall>n. performs (concat (replicate n [Fetch 0, HandlerDone 0])) g = Some g)"
proof -
  let ?g = "\<lparr>gr_subs = [\<lparr>sb_phase = Fetching, sb_cancelled = False, sb_closed = False, sb_buffered = 0\<rparr>], gr_registered = [0],
       gr_wg = 1, gr_stop = Waiting\<rparr>"
  have "performs (concat (replicate n [Fetch 0, HandlerDone 0])) ?g = Some ?g" for n
    by (induction n) (simp_all add: at_phase_def upd_def)
  then show ?thesis by (intro exI[of _ ?g]) (simp add: idle_consumer_def at_phase_def upd_def)
qed

text \<open>A loop can start after \<open>Stop\<close> has returned, if its \<open>Subscribe\<close> was registered but had not started it.\<close>

lemma loop_after_Stop:
  "\<exists>g. performs [NewReader 0, RegisterSub 0, StopCalled, CancelNext, CancelNext, CloseNext, CloseNext, WaitReturns, SpawnLoop 0] idle_consumer = Some g \<and>
     gr_stop g = Returned \<and> looping (gr_subs g ! 0)"
  by (simp add: idle_consumer_def at_phase_def upd_def looping_def)

end
