(* ===== verification/Nats_Shutdown.thy ===== *)
theory Nats_Shutdown
  imports Nats Steps
begin

text \<open>
  The goroutines of the NATS subscriber, \<open>src/pkg/broker/nats/subscriber.go\<close>, interleaved: \<open>Subscribe\<close>, the
  message callbacks and \<open>Stop\<close>.

  nats.go calls the callback of a subscription for one pending message after the other. \<open>Drain\<close> of a
  subscription or of the connection only starts draining: no more messages arrive, those pending are still
  delivered; a draining connection takes no new subscription. The callback looks at the connection and adds to the wait group under the mutex, then
  runs \<open>processMessage\<close>; \<open>Stop\<close> drains the listed subscriptions one by one, waits for the group, drains the
  connection, and only then clears it.
\<close>

section \<open>States and steps\<close>

record nats_sub =
  nb_pending :: nat
  nb_running :: bool            \<comment> \<open>the callback is in \<open>processMessage\<close>\<close>
  nb_handled :: nat
  nb_dropped :: nat             \<comment> \<open>delivered to a callback that returned at once\<close>
  nb_draining :: bool

datatype nats_stop = NotStopped | DrainingSubs "nat list" | WaitingHandlers | DrainingConn | ClearingConn | StopReturned

record nats_goroutines =
  ng_subs :: "nats_sub list"
  ng_listed :: "nat list"       \<comment> \<open>\<open>s.subs\<close>, as subscription numbers\<close>
  ng_conn :: bool               \<comment> \<open>\<open>s.conn != nil\<close>\<close>
  ng_wg :: nat
  ng_stop :: nats_stop

definition started_subscriber :: nats_goroutines where
  "started_subscriber = \<lparr>ng_subs = [], ng_listed = [], ng_conn = True, ng_wg = 0, ng_stop = NotStopped\<rparr>"

definition upd_sub :: "nat \<Rightarrow> (nats_sub \<Rightarrow> nats_sub) \<Rightarrow> nats_goroutines \<Rightarrow> nats_goroutines" where
  "upd_sub i f g = g\<lparr>ng_subs := (ng_subs g)[i := f (ng_subs g ! i)]\<rparr>"

datatype nats_act =
    LibrarySubscribes | ListSub nat                                \<comment> \<open>\<open>Subscribe\<close>\<close>
  | MessageArrives nat | CallbackStarts nat | CallbackEnds nat
  | StopCalled | DrainNextSub | WaitOver | ConnDrain | ClearConn    \<comment> \<open>\<open>Stop\<close>\<close>

fun nats_perform :: "nats_act \<Rightarrow> nats_goroutines \<Rightarrow> nats_goroutines option" where
  "nats_perform LibrarySubscribes g =
     (if ng_stop g \<noteq> ClearingConn \<and> ng_stop g \<noteq> StopReturned
      then Some (g\<lparr>ng_subs := ng_subs g @ [\<lparr>nb_pending = 0, nb_running = False, nb_handled = 0, nb_dropped = 0, nb_draining = False\<rparr>]\<rparr>)
      else None)"
| "nats_perform (ListSub i) g = (if i < length (ng_subs g) then Some (g\<lparr>ng_listed := ng_listed g @ [i]\<rparr>) else None)"
| "nats_perform (MessageArrives i) g =
     (if i < length (ng_subs g) \<and> \<not> nb_draining (ng_subs g ! i)
      then Some (upd_sub i (\<lambda>x. x\<lparr>nb_pending := nb_pending x + 1\<rparr>) g) else None)"
| "nats_perform (CallbackStarts i) g =
     (if i < length (ng_subs g) \<and> 0 < nb_pending (ng_subs g ! i) \<and> \<not> nb_running (ng_subs g ! i) then
        (if ng_conn g
         then Some ((upd_sub i (\<lambda>x. x\<lparr>nb_pending := nb_pending x - 1, nb_running := True\<rparr>) g)\<lparr>ng_wg := ng_wg g + 1\<rparr>)
         else Some (upd_sub i (\<lambda>x. x\<lparr>nb_pending := nb_pending x - 1, nb_dropped := nb_dropped x + 1\<rparr>) g))
      else None)"
| "nats_perform (CallbackEnds i) g =
     (if i < length (ng_subs g) \<and> nb_running (ng_subs g ! i)
      then Some ((upd_sub i (\<lambda>x. x\<lparr>nb_running := False, nb_handled := nb_handled x + 1\<rparr>) g)\<lparr>ng_wg := ng_wg g - 1\<rparr>) else None)"
| "nats_perform StopCalled g =
     (if ng_conn g \<and> ng_stop g = NotStopped then Some (g\<lparr>ng_stop := DrainingSubs (ng_listed g)\<rparr>) else None)"
| "nats_perform DrainNextSub g =
     (case ng_stop g of
        DrainingSubs (i # is) \<Rightarrow> Some ((upd_sub i (\<lambda>x. x\<lparr>nb_draining := True\<rparr>) g)\<lparr>ng_stop := DrainingSubs is\<rparr>)
      | DrainingSubs [] \<Rightarrow> Some (g\<lparr>ng_stop := WaitingHandlers\<rparr>)
      | _ \<Rightarrow> None)"
| "nats_perform WaitOver g = (if ng_stop g = WaitingHandlers \<and> ng_wg g = 0 then Some (g\<lparr>ng_stop := DrainingConn\<rparr>) else None)"
| "nats_perform ConnDrain g =
     (if ng_stop g = DrainingConn
      then Some (g\<lparr>ng_subs := map (\<lambda>x. x\<lparr>nb_draining := True\<rparr>) (ng_subs g), ng_stop := ClearingConn\<rparr>) else None)"
| "nats_perform ClearConn g =
     (if ng_stop g = ClearingConn then Some (g\<lparr>ng_conn := False, ng_listed := [], ng_stop := StopReturned\<rparr>) else None)"

abbreviation nats_runs :: "nats_act list \<Rightarrow> nats_goroutines \<Rightarrow> nats_goroutines option" where
  "nats_runs \<equiv> run_steps nats_perform"

abbreviation reachable_subscriber :: "nats_goroutines \<Rightarrow> bool" where
  "reachable_subscriber \<equiv> reachable_by nats_perform started_subscriber"

section \<open>Invariants\<close>

lemma upd_sub_simps [simp]:
  "ng_listed (upd_sub i f g) = ng_listed g" "ng_conn (upd_sub i f g) = ng_conn g" "ng_wg (upd_sub i f g) = ng_wg g"
  "ng_stop (upd_sub i f g) = ng_stop g" "length (ng_subs (upd_sub i f g)) = length (ng_subs g)"
  by (simp_all add: upd_sub_def)

definition running_count :: "nats_goroutines \<Rightarrow> nat" where
  "running_count g = sum_list (map (\<lambda>x. of_bool (nb_running x)) (ng_subs g))"

lemma running_count_upd:
  "i < length (ng_subs g) \<Longrightarrow> running_count (upd_sub i f g) + of_bool (nb_running (ng_subs g ! i)) =
     running_count g + of_bool (nb_running (f (ng_subs g ! i)))"
proof -
  assume i: "i < length (ng_subs g)"
  let ?b = "\<lambda>x. of_bool (nb_running x) :: nat"
  have "?b (ng_subs g ! i) \<le> sum_list (map ?b (ng_subs g))" using i by (intro member_le_sum_list) simp_all
  with i show ?thesis by (simp add: running_count_def upd_sub_def map_update sum_list_update)
qed

lemma running_count_frame [simp]:
  "running_count (g\<lparr>ng_listed := l\<rparr>) = running_count g" "running_count (g\<lparr>ng_conn := c\<rparr>) = running_count g"
  "running_count (g\<lparr>ng_wg := w\<rparr>) = running_count g" "running_count (g\<lparr>ng_stop := p\<rparr>) = running_count g"
  by (simp_all add: running_count_def)

text \<open>
  The wait group counts the running handlers; the connection is cleared exactly when \<open>Stop\<close> has returned, and by
  then every subscription drains.
\<close>

definition nats_range :: "nats_goroutines \<Rightarrow> bool" where
  "nats_range g \<longleftrightarrow> (\<forall>i \<in> set (ng_listed g). i < length (ng_subs g)) \<and>
     (\<forall>is. ng_stop g = DrainingSubs is \<longrightarrow> (\<forall>i \<in> set is. i < length (ng_subs g)))"

definition nats_inv :: "nats_goroutines \<Rightarrow> bool" where
  "nats_inv g \<longleftrightarrow> nats_range g \<and> ng_wg g = running_count g \<and> (ng_conn g \<longleftrightarrow> ng_stop g \<noteq> StopReturned)"

lemma nats_perform_range: "nats_perform a g = Some g' \<Longrightarrow> nats_range g \<Longrightarrow> nats_range g'"
  by (cases a) (auto simp: nats_range_def less_Suc_eq split: if_splits nats_stop.splits list.splits)

lemma nats_perform_inv:
  assumes "nats_perform a g = Some g'" and "nats_inv g"
  shows "nats_inv g'"
proof -
  have r: "nats_range g" and w: "ng_wg g = running_count g" and c: "ng_conn g \<longleftrightarrow> ng_stop g \<noteq> StopReturned"
    using assms(2) by (simp_all add: nats_inv_def)
  have "ng_wg g' = running_count g'"
  proof (cases a)
    case (MessageArrives i)
    with assms(1) w running_count_upd[of i g "\<lambda>x. x\<lparr>nb_pending := nb_pending x + 1\<rparr>"] show ?thesis by (auto split: if_splits)
  next
    case (CallbackStarts i)
    with assms(1) w running_count_upd[of i g "\<lambda>x. x\<lparr>nb_pending := nb_pending x - 1, nb_running := True\<rparr>"]
      running_count_upd[of i g "\<lambda>x. x\<lparr>nb_pending := nb_pending x - 1, nb_dropped := nb_dropped x + 1\<rparr>"]
    show ?thesis by (auto split: if_splits)
  next
    case (CallbackEnds i)
    with assms(1) w running_count_upd[of i g "\<lambda>x. x\<lparr>nb_running := False, nb_handled := nb_handled x + 1\<rparr>"]
    show ?thesis by (auto split: if_splits)
  next
    case DrainNextSub
    have "running_count (upd_sub i (\<lambda>x. x\<lparr>nb_draining := True\<rparr>) g) = running_count g" if "i < length (ng_subs g)" for i
      using running_count_upd[OF that, of "\<lambda>x. x\<lparr>nb_draining := True\<rparr>"] by simp
    with DrainNextSub assms(1) w r show ?thesis by (auto simp: nats_range_def split: nats_stop.splits list.splits)
  qed (use assms(1) w in \<open>auto simp: running_count_def comp_def split: if_splits\<close>)
  moreover have "ng_conn g' \<longleftrightarrow> ng_stop g' \<noteq> StopReturned"
    using assms(1) c by (cases a) (auto split: if_splits nats_stop.splits list.splits)
  ultimately show ?thesis using nats_perform_range[OF assms(1) r] by (simp add: nats_inv_def)
qed

interpretation nats_sys: step_system nats_perform started_subscriber nats_inv
proof
  show "nats_inv started_subscriber" by (simp add: started_subscriber_def nats_inv_def nats_range_def running_count_def)
qed (rule nats_perform_inv)

section \<open>After Stop\<close>

text \<open>What a subscription that no longer starts handlers can become.\<close>

definition winds_down :: "nats_sub \<Rightarrow> nats_sub \<Rightarrow> bool" where
  "winds_down x y \<longleftrightarrow> (nb_running y \<longrightarrow> nb_running x) \<and>
     nb_handled y + of_bool (nb_running y) = nb_handled x + of_bool (nb_running x) \<and> nb_dropped x \<le> nb_dropped y"

lemma winds_down_refl [simp]: "winds_down x x"
  by (simp add: winds_down_def)

lemma winds_down_trans: "winds_down x y \<Longrightarrow> winds_down y z \<Longrightarrow> winds_down x z"
  by (auto simp: winds_down_def)

lemma winds_down_all_trans:
  "list_all2 winds_down xs ys \<Longrightarrow> list_all2 winds_down ys zs \<Longrightarrow> list_all2 winds_down xs zs"
  by (simp add: list_all2_conv_all_nth) (metis winds_down_trans)

lemma list_all2_upd:
  "i < length (ng_subs g) \<Longrightarrow> winds_down (ng_subs g ! i) (f (ng_subs g ! i)) \<Longrightarrow> list_all2 winds_down (ng_subs g) (ng_subs (upd_sub i f g))"
  by (simp add: upd_sub_def list_all2_conv_all_nth nth_list_update)

lemma step_after_Stop:
  assumes "nats_perform a g = Some h" and "ng_stop g = StopReturned" and "\<not> ng_conn g"
  shows "ng_stop h = StopReturned \<and> \<not> ng_conn h \<and> list_all2 winds_down (ng_subs g) (ng_subs h)"
proof -
  have same: "list_all2 winds_down xs xs" for xs by (simp add: list.rel_refl)
  show ?thesis
  proof (cases a)
    case (MessageArrives i)
    with assms have "i < length (ng_subs g)" "h = upd_sub i (\<lambda>x. x\<lparr>nb_pending := nb_pending x + 1\<rparr>) g" by (auto split: if_splits)
    with assms show ?thesis by (simp add: list_all2_upd winds_down_def)
  next
    case (CallbackStarts i)
    with assms have "i < length (ng_subs g)" "h = upd_sub i (\<lambda>x. x\<lparr>nb_pending := nb_pending x - 1, nb_dropped := nb_dropped x + 1\<rparr>) g"
      by (auto split: if_splits)
    with assms show ?thesis by (simp add: list_all2_upd winds_down_def)
  next
    case (CallbackEnds i)
    with assms have "i < length (ng_subs g)" "nb_running (ng_subs g ! i)"
      "h = (upd_sub i (\<lambda>x. x\<lparr>nb_running := False, nb_handled := nb_handled x + 1\<rparr>) g)\<lparr>ng_wg := ng_wg g - 1\<rparr>" by (auto split: if_splits)
    with assms show ?thesis by (simp add: list_all2_upd winds_down_def)
  qed (use assms same in \<open>auto split: if_splits\<close>)
qed

lemma runs_after_Stop:
  assumes "nats_runs as g = Some h" and "ng_stop g = StopReturned" and "\<not> ng_conn g"
  shows "list_all2 winds_down (ng_subs g) (ng_subs h)"
  using assms
proof (induction as arbitrary: g)
  case (Cons a as)
  then obtain g1 where g1: "nats_perform a g = Some g1" "nats_runs as g1 = Some h" unfolding run_steps_Cons by blast
  note s = step_after_Stop[OF g1(1) Cons.prems(2,3)]
  then have "list_all2 winds_down (ng_subs g) (ng_subs g1)" "list_all2 winds_down (ng_subs g1) (ng_subs h)"
    using Cons.IH[OF g1(2)] by simp_all
  then show ?case by (rule winds_down_all_trans)
qed (simp add: list.rel_refl)

section \<open>Properties\<close>

text \<open>C32: Once \<open>Stop\<close> of the NATS subscriber has returned no handler starts: in every continuation a handler that runs
  was running when \<open>Stop\<close> returned, and the handled messages of a subscription, with the one it may still be
  handling, stay the same. The wait group counts the running handlers, so none is running when \<open>Stop\<close> has
  waited for them.\<close>

theorem nats_no_handler_after_Stop:
  assumes "reachable_subscriber g"
  shows "(\<forall>as h. ng_stop g = StopReturned \<and> nats_runs as g = Some h \<longrightarrow> list_all2 winds_down (ng_subs g) (ng_subs h)) \<and>
    (\<forall>h. nats_perform WaitOver g = Some h \<longrightarrow> (\<forall>x \<in> set (ng_subs h). \<not> nb_running x))"
proof -
  have inv: "nats_inv g" by (rule nats_sys.inv_reachable[OF assms])
  then have "ng_stop g = StopReturned \<Longrightarrow> nats_runs as g = Some h \<Longrightarrow> list_all2 winds_down (ng_subs g) (ng_subs h)" for as h
    using runs_after_Stop by (simp add: nats_inv_def)
  moreover have "\<not> nb_running x" if "nats_perform WaitOver g = Some h" "x \<in> set (ng_subs h)" for h x
    using that inv by (auto simp: nats_inv_def running_count_def split: if_splits)
  ultimately show ?thesis by blast
qed

text \<open>A run in which \<open>Stop\<close> is called with two messages pending.\<close>

definition demo_run :: "nats_act list" where
  "demo_run = [LibrarySubscribes, ListSub 0, MessageArrives 0, MessageArrives 0, StopCalled, DrainNextSub, DrainNextSub,
     WaitOver, CallbackStarts 0, ConnDrain, ClearConn]"

definition demo_stopped :: nats_goroutines where
  "demo_stopped = \<lparr>ng_subs = [\<lparr>nb_pending = 1, nb_running = True, nb_handled = 0, nb_dropped = 0, nb_draining = True\<rparr>],
     ng_listed = [], ng_conn = False, ng_wg = 1, ng_stop = StopReturned\<rparr>"

lemma demo_run_stops: "nats_runs demo_run started_subscriber = Some demo_stopped"
  by (simp add: demo_run_def demo_stopped_def started_subscriber_def upd_sub_def)

theorem nats_no_handler_after_Stop_witness:
  "\<exists>g h x. nats_runs demo_run started_subscriber = Some g \<and> ng_stop g = StopReturned \<and>
     nats_runs [CallbackEnds 0, CallbackStarts 0] g = Some h \<and> ng_subs h = [x] \<and> \<not> nb_running x \<and> nb_handled x = 1"
proof -
  have reach: "reachable_subscriber demo_stopped" using demo_run_stops unfolding reachable_by_def by blast
  obtain h where h: "nats_runs [CallbackEnds 0, CallbackStarts 0] demo_stopped = Some h"
    by (simp add: demo_stopped_def upd_sub_def)
  moreover have "ng_stop demo_stopped = StopReturned" by (simp add: demo_stopped_def)
  ultimately have w: "list_all2 winds_down (ng_subs demo_stopped) (ng_subs h)"
    using nats_no_handler_after_Stop[OF reach] by blast
  then obtain x where x: "ng_subs h = [x]" "winds_down (ng_subs demo_stopped ! 0) x" by (auto simp: demo_stopped_def list_all2_Cons1)
  moreover have "\<not> nb_running x" using h x(1) by (auto simp: demo_stopped_def upd_sub_def)
  ultimately show ?thesis using demo_run_stops h by (auto simp: winds_down_def demo_stopped_def)
qed

text \<open>
  The guard in the callback does not keep \<open>Stop\<close> from returning too early: the connection is cleared only after the wait,
  so a message still pending then is taken up, and \<open>Stop\<close> returns while it is being handled. A message pending when
  the connection is cleared is dropped without being handled, acknowledged or refused.
\<close>

lemma nats_Stop_returns_while_handling:
  "\<exists>g x. nats_runs demo_run started_subscriber = Some g \<and> ng_stop g = StopReturned \<and> x \<in> set (ng_subs g) \<and> nb_running x"
  using demo_run_stops by (auto simp: demo_stopped_def)

lemma nats_pending_message_dropped:
  "\<exists>g x. nats_runs (demo_run @ [CallbackEnds 0, CallbackStarts 0]) started_subscriber = Some g \<and> ng_subs g = [x] \<and>
     nb_pending x = 0 \<and> nb_handled x = 1 \<and> nb_dropped x = 1"
  by (simp add: run_steps_append demo_run_stops) (simp add: demo_stopped_def upd_sub_def)

end
