(* ===== verification/OrderService.thy ===== *)
theory OrderService
  imports App Config Server
begin

text \<open>
  The example service, \<open>src/examples/orderservice/main.go\<close>: configuration loader, HTTP server and
  application composed into one program.

  koanf, chi, the network and the signal are parameters, as in the theories of the components;
  the JSON logger is left out. The program's result is its exit code, or a panic of chi while the
  server builds its router; it does not end if no signal arrives.
\<close>

section \<open>Handlers\<close>

definition StatusCreated :: int where "StatusCreated = 201"

abbreviation quote :: char where "quote \<equiv> CHR 0x22"

definition json_header :: write_call where
  "json_header = SetHeader ''Content-Type'' ''application/json''"

definition listOrders :: "'s raw_handler" where
  "listOrders r s =
     (([json_header, Write (Bytes (''{'' @ [quote] @ ''orders'' @ [quote] @ '':[]}''))], False), s)"

definition createOrder :: "'s raw_handler" where
  "createOrder r s =
     (([json_header, WriteHeader StatusCreated,
        Write (Bytes (''{'' @ [quote] @ ''id'' @ [quote, CHR '':'', quote] @ ''ord-001'' @ [quote, CHR '','', quote] @ ''status'' @
          [quote, CHR '':'', quote] @ ''created'' @ [quote] @ ''}''))], False), s)"

text \<open>\<open>url_param\<close> is \<open>chi.URLParam\<close>.\<close>

definition getOrder :: "(request \<Rightarrow> string \<Rightarrow> string) \<Rightarrow> 's raw_handler" where
  "getOrder url_param r s =
     (let ident = url_param r ''id'' in
      (([json_header, Write (JSONLine (JObj [(''id'', JString ident), (''status'', JString ''pending'')]))], False), s))"

text \<open>The function passed to \<open>srv.Route\<close>: the calls it makes on the sub-router. It is the function
  value 0 of the server's router.\<close>

definition order_routes :: "(request \<Rightarrow> string \<Rightarrow> string) \<Rightarrow> (string \<times> string \<times> 's raw_handler) list" where
  "order_routes url_param =
     [(''GET'', ''/orders'', listOrders), (''POST'', ''/orders'', createOrder), (''GET'', ''/orders/{id}'', getOrder url_param)]"

section \<open>The program\<close>

record appConfig =
  cfg_Server_Addr :: string

record ('k, 'w) host =
  hs_koanf :: "(string, 'k, 'w) koanf_ops"
  hs_unmarshal :: "'k \<Rightarrow> goerr + appConfig"
  hs_chi :: "router_call list \<Rightarrow> router_call \<Rightarrow> bool"
  hs_net :: "'w net_ops"
  hs_await :: "ctx \<Rightarrow> 'w \<Rightarrow> 'w option"            \<comment> \<open>until a signal; \<open>None\<close> if none arrives\<close>

definition config_file :: string where "config_file = ''examples/orderservice/config.yaml''"

definition loader_options :: "string loader_option list" where
  "loader_options = [WithDefaults [(''server.addr'', '':8080'')], WithFile config_file, WithEnvPrefix ''ORDER'']"

datatype exit = Exit nat | Panicked

text \<open>
  The environment of \<open>app.Run\<close>: the server is component 0, and there are no plugins and no hooks. A
  server whose router chi refuses does not get here (\<open>main\<close> below has ended then).
\<close>

definition order_env :: "('k, 'w) host \<Rightarrow> (server \<times> 'w) env" where
  "order_env h =
     \<lparr>comp_start = (\<lambda>c ctx st. case Server_Start (hs_chi h) (hs_net h) (fst st) of
        None \<Rightarrow> (None, st) | Some (r, st') \<Rightarrow> (r, (st', snd st))),
      comp_stop = (\<lambda>c ctx st. case Server_Stop (hs_net h) ctx (fst st) of (r, st') \<Rightarrow> (r, (st', snd st))),
      plugin_name = (\<lambda>p. []), plugin_init = (\<lambda>p st. (None, st)), plugin_close = (\<lambda>p st. (None, st)),
      hook_before_start = (\<lambda>k ctx nm st. (None, st)), hook_after_start = (\<lambda>k ctx st. st),
      hook_before_stop = (\<lambda>k ctx st. st), hook_after_stop = (\<lambda>k ctx err st. st),
      await_done = (\<lambda>ctx st. map_option (\<lambda>w. ((fst (fst st), w), snd st)) (hs_await h ctx (snd (fst st))))\<rparr>"

text \<open>
  \<open>main\<close>: \<open>None\<close> if the program never ends. The server's \<open>Start\<close> is the first thing \<open>app.Run\<close> calls, so
  a panic of chi there ends the program in the world before the run.
\<close>

definition order_main :: "('k, 'w) host \<Rightarrow> 'w \<Rightarrow> (exit \<times> 'w) option" where
  "order_main h w =
     (let app0 = New [App.WithLogger (Logger 1)] in
      case NewLoader (hs_koanf h) loader_options w of
        Inl err \<Rightarrow> Some (Exit 1, w)
      | Inr loader \<Rightarrow>
          (case Loader_Load (hs_unmarshal h) loader of
             Inl err \<Rightarrow> Some (Exit 1, w)
           | Inr cfg \<Rightarrow>
               (case Server_New [WithAddr (cfg_Server_Addr cfg), Server.WithLogger 1] of
                  Inl err \<Rightarrow> Some (Exit 1, w)
                | Inr srv0 \<Rightarrow>
                    (case Server_Route (hs_chi h) ''/api/v1'' 0 srv0 of
                       None \<Rightarrow> Some (Panicked, w)
                     | Some srv \<Rightarrow>
                         let app1 = snd (Register (\<lambda>c. None) ''server'' 0 app0) in
                         if route_all (hs_chi h) (build_calls srv) (sv_router srv) = None then Some (Panicked, w)
                         else (case Run (order_env h) Background \<lparr>w_state = ((srv, w), app1), w_trace = []\<rparr> of
                                 None \<Rightarrow> None
                               | Some (r, wd) \<Rightarrow>
                                   Some (Exit (case r of None \<Rightarrow> 0 | Some err \<Rightarrow> 1), snd (fst (w_state wd))))))))"

section \<open>What the program does\<close>

text \<open>The address in effect: the environment over the file over the default.\<close>

definition effective_addr :: "(string \<Rightarrow> 'w \<Rightarrow> string \<rightharpoonup> string) \<Rightarrow> (string \<Rightarrow> (string \<Rightarrow> string) \<Rightarrow> 'w \<Rightarrow> string \<rightharpoonup> string) \<Rightarrow>
    'w \<Rightarrow> string" where
  "effective_addr file_map env_map w =
     (case env_map ''ORDER__'' (env_key ''ORDER__'') w ''server.addr'' of
        Some a \<Rightarrow> a
      | None \<Rightarrow> (case file_map config_file w ''server.addr'' of Some a \<Rightarrow> a | None \<Rightarrow> '':8080''))"

text \<open>
  The specification: listen on the address, serve with 10 s read and write and 60 s idle timeouts,
  wait for the signal, shut the server down within 30 s; exit code 0 exactly if both listening and
  shutting down succeed.
\<close>

definition order_spec :: "'w net_ops \<Rightarrow> (ctx \<Rightarrow> 'w \<Rightarrow> 'w option) \<Rightarrow> string \<Rightarrow> 'w \<Rightarrow> (exit \<times> 'w) option" where
  "order_spec net await addr w =
     (case net_listen net addr w of
        (Inl err, w1) \<Rightarrow> Some (Exit 1, w1)
      | (Inr laddr, w1) \<Rightarrow>
          (case serve net laddr (10 * second) (10 * second) (60 * second) w1 of
             (srv, w2) \<Rightarrow>
               (case await (NotifyContext Background) w2 of
                  None \<Rightarrow> None
                | Some w3 \<Rightarrow>
                    (case srv_shutdown net srv (WithTimeout (WithoutCancel (NotifyContext Background)) (30 * second)) w3 of
                       (None, w4) \<Rightarrow> Some (Exit 0, w4)
                     | (Some err, w4) \<Rightarrow> Some (Exit 1, w4)))))"

definition order_server :: "string \<Rightarrow> server" where
  "order_server addr =
     \<lparr>sv_addr = addr, sv_readTimeout = 10 * second, sv_writeTimeout = 10 * second, sv_logger = 1,
      sv_checkers = [], sv_disableRecovery = False, sv_disableRequestLogging = False,
      sv_pendingMiddleware = [], sv_pendingMounts = [], sv_pendingRoutes = [(''/api/v1'', 0)], sv_built = False,
      sv_router = [], sv_httpSrv = None, sv_listener = None\<rparr>"

lemma order_server_built:
  assumes "Server_New [WithAddr addr, Server.WithLogger 1] = Inr srv0"
  shows "Server_Route chi ''/api/v1'' 0 srv0 = Some (order_server addr)"
  using assms by (auto simp: Server_New_def Server_Route_def order_server_def)

lemma order_app:
  "snd (Register (\<lambda>c. None) ''server'' 0 (New [App.WithLogger (Logger 1)])) =
     \<lparr>components = [\<lparr>nc_name = ''server'', nc_component = 0\<rparr>], plugins = [], beforeStart = [], afterStart = [],
      beforeStop = [], afterStop = [], logger = Logger 1, shutdownTimeout = 30 * second\<rparr>"
  by (simp add: New_def Register_def)

text \<open>The run of an application whose only component is the server: the cases of the network.\<close>

lemma order_start:
  assumes "route_all (hs_chi h) (build_calls (order_server addr)) [] = Some rt"
  shows "comp_start (order_env h) c ctx ((order_server addr, w), a) =
    (let x = (order_server addr)\<lparr>sv_router := rt, sv_built := True\<rparr> in
     case net_listen (hs_net h) addr w of
       (Inl err, w1) \<Rightarrow> (Some (Errorf [Lit ''server: listen on '', PS addr, Lit '': '', PW err]), ((x, w1), a))
     | (Inr laddr, w1) \<Rightarrow>
         (case serve (hs_net h) laddr (10 * second) (10 * second) (60 * second) w1 of
            (srv, w2) \<Rightarrow> (None, ((x\<lparr>sv_listener := Some laddr, sv_httpSrv := Some srv\<rparr>, w2), a))))"
proof -
  have x: "sv_router (order_server addr) = []" "sv_addr (order_server addr) = addr"
    "sv_readTimeout (order_server addr) = 10 * second" "sv_writeTimeout (order_server addr) = 10 * second"
    by (simp_all add: order_server_def)
  show ?thesis using assms x by (simp add: order_env_def Server_Start_def Let_def split: prod.splits sum.splits)
qed

lemma order_stop:
  "sv_httpSrv x = Some srv \<Longrightarrow> comp_stop (order_env h) c ctx ((x, w), a) =
     (case srv_shutdown (hs_net h) srv ctx w of
        (err, w1) \<Rightarrow> (map_option (\<lambda>e. Errorf [Lit ''server: shutdown: '', PW e]) err, ((x, w1), a)))"
  by (simp add: order_env_def Server_Stop_def split: prod.splits)

lemma order_run:
  assumes rt: "route_all (hs_chi h) (build_calls (order_server addr)) [] = Some rt"
  shows "map_option (\<lambda>(r, wd). (Exit (case r of None \<Rightarrow> 0 | Some err \<Rightarrow> 1), snd (fst (w_state wd))))
      (Run (order_env h) Background
        \<lparr>w_state = ((order_server addr, w), snd (Register (\<lambda>c. None) ''server'' 0 (New [App.WithLogger (Logger 1)]))), w_trace = []\<rparr>) =
    order_spec (hs_net h) (hs_await h) addr w"
proof (cases "net_listen (hs_net h) addr w")
  case (Pair q w1)
  show ?thesis
  proof (cases q)
    case (Inl err)
    with Pair order_start[OF rt] show ?thesis unfolding order_app
      by (simp add: Run_def call_def stopStarted_def order_spec_def Let_def errors_Join_def)
  next
    case (Inr laddr)
    obtain srv w2 where sv: "serve (hs_net h) laddr (10 * second) (10 * second) (60 * second) w1 = (srv, w2)" by fastforce
    have aw: "await_done (order_env h) ctx ((x, v), a) = map_option (\<lambda>v'. ((x, v'), a)) (hs_await h ctx v)" for ctx x v a
      by (simp add: order_env_def)
    show ?thesis
    proof (cases "hs_await h (NotifyContext Background) w2")
      case None
      with Pair Inr sv order_start[OF rt] aw show ?thesis unfolding order_app
        by (simp add: Run_def call_def shutdown_def order_spec_def Let_def)
    next
      case (Some w3)
      with Pair Inr sv order_start[OF rt] aw show ?thesis unfolding order_app
        by (simp add: Run_def call_def shutdown_def stop_component_def order_stop order_spec_def Let_def errors_Join_def
            split: prod.splits option.splits)
    qed
  qed
qed

text \<open>The environment variable that sets the address, and what the handlers send.\<close>

lemma order_addr_variable: "env_key ''ORDER__'' ''ORDER__SERVER__ADDR'' = ''server.addr''"
  by (simp add: env_key_def TrimPrefix_def HasPrefix_def ToLower_def to_lower_char_def char_of_def bit_0)

lemma order_handlers_answer:
  "sr_status (sent (fst (fst (listOrders r s)))) = 200" "sr_status (sent (fst (fst (createOrder r s)))) = 201"
  "sr_status (sent (fst (fst (getOrder url_param r s)))) = 200"
  by (simp_all add: listOrders_def createOrder_def getOrder_def json_header_def sent_status_sent status_defs StatusCreated_def
      informational_def Let_def)

text \<open>Loading: the address the configuration gives.\<close>

lemma order_config:
  assumes "koanf_laws (hs_koanf h) look file_map env_map"
    and "\<And>k cfg. hs_unmarshal h k = Inr cfg \<Longrightarrow> cfg_Server_Addr cfg = (case look k ''server.addr'' of None \<Rightarrow> [] | Some a \<Rightarrow> a)"
    and "NewLoader (hs_koanf h) loader_options w = Inr l" and "Loader_Load (hs_unmarshal h) l = Inr cfg"
  shows "cfg_Server_Addr cfg = effective_addr file_map env_map w"
proof -
  from assms(3) obtain l0 k where l: "loadSources (hs_koanf h) w l0 (k_new (hs_koanf h)) = Inr k" "l = l0\<lparr>ld_k := k\<rparr>"
    and l0: "ld_defaults l0 = Some [(''server.addr'', '':8080'')]" "ld_filePaths l0 = [config_file]" "ld_envPrefix l0 = ''ORDER''"
    by (auto simp: NewLoader_def loader_options_def Let_def split: sum.splits)
  from loadSources_merged[OF assms(1) l(1)] have "look (ld_k l) = merged file_map env_map w l0" by (simp add: l(2))
  moreover have "cfg_Server_Addr cfg = (case look (ld_k l) ''server.addr'' of None \<Rightarrow> [] | Some a \<Rightarrow> a)"
    using assms(4) by (intro assms(2)) (auto simp: Loader_Load_def split: sum.splits)
  ultimately show ?thesis by (auto simp: merged_def l0 effective_addr_def map_add_def Let_def split: option.splits)
qed

section \<open>Properties\<close>

text \<open>C4: The program composed from loader, server and application does what its parts promise
  together: once the configuration loads, it listens on the address in effect (environment over
  file over default), serves until the signal and shuts the server down with a fresh 30 s deadline; it exits with 0 exactly when listening
  and shutting down succeed and with 1 otherwise. If the configuration does not load, it exits with 1 without having
  touched the network.\<close>

theorem orderservice_refines_spec:
  assumes "koanf_laws (hs_koanf h) look file_map env_map"
    and "\<And>k cfg. hs_unmarshal h k = Inr cfg \<Longrightarrow> cfg_Server_Addr cfg = (case look k ''server.addr'' of None \<Rightarrow> [] | Some a \<Rightarrow> a)"
    and "chi_law (hs_chi h)"
    and "\<And>addr. routes_accepted (hs_chi h) (build_uses (order_server addr)) (build_routes (order_server addr))"
  shows "order_main h w =
    (case NewLoader (hs_koanf h) loader_options w of
       Inl err \<Rightarrow> Some (Exit 1, w)
     | Inr l \<Rightarrow>
         (case Loader_Load (hs_unmarshal h) l of
            Inl err \<Rightarrow> Some (Exit 1, w)
          | Inr cfg \<Rightarrow> order_spec (hs_net h) (hs_await h) (effective_addr file_map env_map w) w))"
proof -
  have run: "order_main h w = order_spec (hs_net h) (hs_await h) (effective_addr file_map env_map w) w"
    if l: "NewLoader (hs_koanf h) loader_options w = Inr l" and c: "Loader_Load (hs_unmarshal h) l = Inr cfg" for l cfg
  proof -
    let ?x = "order_server (cfg_Server_Addr cfg)"
    obtain srv0 where s: "Server_New [WithAddr (cfg_Server_Addr cfg), Server.WithLogger 1] = Inr srv0" by (simp add: Server_New_def)
    have rt: "route_all (hs_chi h) (build_calls ?x) [] = Some ([] @ build_calls ?x)"
      using assms(4) by (intro build_accepted[OF assms(3)]) simp_all
    have "sv_router ?x = []" by (simp add: order_server_def)
    then have "order_main h w = map_option (\<lambda>(r, wd). (Exit (case r of None \<Rightarrow> 0 | Some err \<Rightarrow> 1), snd (fst (w_state wd))))
      (Run (order_env h) Background
        \<lparr>w_state = ((?x, w), snd (Register (\<lambda>c. None) ''server'' 0 (New [App.WithLogger (Logger 1)]))), w_trace = []\<rparr>)"
      unfolding order_main_def Let_def l c s sum.case order_server_built[OF s] option.case using rt
      by (auto split: option.splits)
    with order_run[OF rt, of w] order_config[OF assms(1,2) l c] show ?thesis by simp
  qed
  show ?thesis
  proof (cases "NewLoader (hs_koanf h) loader_options w")
    case (Inr l)
    with run show ?thesis by (cases "Loader_Load (hs_unmarshal h) l") (simp_all add: order_main_def)
  qed (simp add: order_main_def)
qed

text \<open>A host whose world lists the addresses listened on; the environment sets the address.\<close>

definition demo_host :: "(string \<rightharpoonup> string, string list) host" where
  "demo_host =
     \<lparr>hs_koanf = \<lparr>k_new = Map.empty, load_confmap = (\<lambda>d k. Inr (k ++ map_of d)),
        load_file = (\<lambda>fp s k. Inr (k ++ [''server.addr'' \<mapsto> '':8080''])),
        load_env = (\<lambda>pre f s k. Inr (k ++ [f (pre @ ''SERVER__ADDR'') \<mapsto> '':9090'']))\<rparr>,
      hs_unmarshal = (\<lambda>k. Inr \<lparr>cfg_Server_Addr = case k ''server.addr'' of None \<Rightarrow> [] | Some a \<Rightarrow> a\<rparr>),
      hs_chi = demo_chi,
      hs_net = \<lparr>net_listen = (\<lambda>a w. (Inr a, w @ [a])), serve = (\<lambda>a rt wt it w. (1, w)), srv_shutdown = (\<lambda>n ctx w. (None, w))\<rparr>,
      hs_await = (\<lambda>ctx w. Some w)\<rparr>"

theorem orderservice_refines_spec_witness: "order_main demo_host [] = Some (Exit 0, ['':9090''])"
proof -
  let ?fm = "\<lambda>fp w. [''server.addr'' \<mapsto> '':8080'']" and ?em = "\<lambda>pre f w. [f (pre @ ''SERVER__ADDR'') \<mapsto> '':9090'']"
  have laws: "koanf_laws (hs_koanf demo_host) (\<lambda>k. k) ?fm ?em" by (auto simp: koanf_laws_def demo_host_def)
  have um: "hs_unmarshal demo_host k = Inr cfg \<Longrightarrow> cfg_Server_Addr cfg = (case k ''server.addr'' of None \<Rightarrow> [] | Some a \<Rightarrow> a)" for k cfg
    by (auto simp: demo_host_def)
  have chi: "chi_law (hs_chi demo_host)" by (simp add: demo_host_def chi_law_def demo_chi_def is_route_def)
  have rts: "routes_accepted (hs_chi demo_host) (build_uses (order_server addr)) (build_routes (order_server addr))" for addr
    by (auto simp: demo_host_def order_server_def build_routes_def mountHealthEndpoints_def demo_chi_def is_route_def)
  obtain l cfg where "NewLoader (hs_koanf demo_host) loader_options [] = Inr l" "Loader_Load (hs_unmarshal demo_host) l = Inr cfg"
    by (simp add: NewLoader_def loadSources_def loader_options_def Loader_Load_def demo_host_def Let_def)
  with orderservice_refines_spec[where h = demo_host and look = "\<lambda>k. k" and w = "[]", OF laws _ chi rts] um show ?thesis
    by (simp add: order_spec_def effective_addr_def order_addr_variable) (simp add: demo_host_def)
qed

end
