(* ===== verification/Spec2Isabelle.thy ===== *)
theory Spec2Isabelle
  imports Service MemBroker Saga Consul Idempotent_Server Health_Rpc Dead_Letter PlatformTest Commands Consumer_Shutdown Nats_Shutdown
    OrderService Dsn_Mask
begin

text \<open>
  \<^bold>\<open>goplatform, verified.\<close> A model of the Go microservice SDK under \<open>src/pkg\<close>: an application
  orchestrator that starts and stops components (\<open>platform.App\<close>), and the components it manages:
  message brokers (in memory, Kafka, NATS), the Temporal client, worker and saga executor, service
  discovery with a Consul registry, a Redis client, an HTTP server with its middleware, a Postgres
  client, an S3 client, logging and observability, and a configuration loader; and of the command
  line tool under \<open>src/cmd\<close> that scaffolds a service, runs it with hot reload and migrates its
  database; and of the example service under \<open>src/examples\<close>, a program composed from these parts.

  \<^bold>\<open>How the parts interact.\<close> A service builds an \<open>App\<close>, registers components and plugins, and calls
  \<open>Run\<close>; \<open>Run\<close> calls \<open>Start\<close> and \<open>Stop\<close> of every component. The Kafka and NATS subscribers call handlers
  wrapped in middleware, and publish to a dead-letter topic through the \<open>Publisher\<close> interface. The
  Temporal worker needs the started client. The resolver reads a registry, which the Consul package
  implements. The idempotency middleware of the server stores its answers in Redis. The observer owns
  the handler that all derived loggers write to, and exchanges it when it starts and stops. The
  scaffolding is called by the tool's \<open>init\<close> command.

  \<^bold>\<open>Conventions.\<close> A Go function is a HOL function with the source's control flow. The nil error is \<open>None\<close>;
  a function that acts on the world returns its result and the new world \<open>'s\<close>. Code outside \<open>src/\<close>
  (kafka-go, nats.go, the Temporal SDK, pgx, golang-migrate, go-redis, koanf, chi, the AWS SDK,
  OpenTelemetry, the Consul client, the operating system)
  and callbacks (components, plugins, hooks, handlers, middleware) are arguments, or fields of a
  record of operations, and theorems hold for all of them; where a theorem relies on documented
  behaviour of such code it is a hypothesis, and the theorem's witness has an instance that meets
  it. Mutexes are left out where a method holds the lock throughout. Where the interleaving
  matters it is an inductive step relation (the cache map of the resolver, idempotency keys) or a step
  function on every order of events (hot reload with its timers, the goroutines of the Kafka consumer and of
  the NATS subscriber).
  Logging and span attributes are left out: no branch depends on them. \<open>int\<close> is a 64-bit word where
  it can wrap around (the retry count, the round-robin index), otherwise an integer.

  \<^bold>\<open>The theories.\<close>
  \<^item> \<open>Go_Prelude\<close>: loops over slices that stop at or collect errors, byte strings, \<open>%q\<close>.
  \<^item> \<open>Steps\<close>: interleavings as runs of a step function; invariants of such a system as the locale \<open>step_system\<close>.
  \<^item> \<open>Go_Errors\<close>: error values with \<open>fmt.Errorf\<close>, \<open>errors.Is\<close>, \<open>errors.As\<close>, \<open>errors.Join\<close>; the platform
    errors of \<open>platform/errors.go\<close>. Codes survive wrapping.
  \<^item> \<open>Lifecycle\<close>: contexts as the expressions that built them, with what can cancel them; the contract
    of \<open>platform.Component\<close> as the locale \<open>lifecycle\<close>, interpreted by every component that keeps it; the audit of
    a record of handles acquired and released, and the locale \<open>audited\<close> of components whose books balance.
  \<^item> \<open>App\<close>: \<open>platform/app.go\<close>. The record \<open>app\<close>, registration, and \<open>Run\<close> on a world that records every
    call; \<open>run_protocol\<close> is the documented start and stop protocol, which \<open>Run\<close> refines. From it:
    what was started is stopped, once, in reverse; shutdown has a context the signal cannot cancel.
  \<^item> \<open>Broker\<close>: \<open>broker/broker.go\<close>, messages, hooks, middleware, the locale \<open>publisher\<close>.
  \<^item> \<open>MemBroker\<close>: \<open>broker/membroker\<close>, synchronous delivery in subscription order.
  \<^item> \<open>Kafka_Producer\<close>: \<open>broker/kafka/producer.go\<close> and \<open>propagation.go\<close>; header carriers as a locale.
  \<^item> \<open>Delivery\<close>: the retry loop both subscribers have, the calls it makes as a trace, the specification
    \<open>delivery\<close> of a message's fate, and what follows from it in the locale \<open>delivery_contract\<close>.
  \<^item> \<open>Kafka_Consumer\<close>: \<open>broker/kafka/consumer.go\<close>. \<open>processMessage\<close> refines \<open>delivery\<close>; a committed message
    was handled or dead-lettered; the loop processes everything fetched, in order; the round trip.
  \<^item> \<open>Dead_Letter\<close>: the consumer with the producer as its dead-letter publisher, over a cluster that keeps what it
    acknowledged: no committed message is lost.
  \<^item> \<open>Consumer_Shutdown\<close>: the goroutines of \<open>kafka/consumer.go\<close> interleaved; without concurrent \<open>Subscribe\<close>
    calls \<open>Stop\<close> drains the loops, with them it can miss a subscription.
  \<^item> \<open>Nats\<close>: \<open>broker/nats\<close>, publisher and subscriber. \<open>processMessage\<close> reads the field \<open>s.js\<close> without the lock, so the
    model takes the read as a parameter; the message's fate and what it is settled with follow from what is read. A
    subscriber nobody stops acks or naks a message exactly once.
  \<^item> \<open>Nats_Shutdown\<close>: the goroutines of \<open>nats/subscriber.go\<close> interleaved; no handler starts after \<open>Stop\<close>, but one can
    still be running.
  \<^item> \<open>Saga\<close>: \<open>workflow/saga/saga.go\<close>; \<open>Execute\<close> refines \<open>saga_protocol\<close>, a failure compensates what completed.
  \<^item> \<open>Workflow\<close>: \<open>workflow/client.go\<close>, \<open>worker.go\<close>; a worker never runs without its client.
  \<^item> \<open>Discovery\<close>, \<open>Consul\<close>: \<open>discovery/resolver.go\<close>, \<open>registry.go\<close>, \<open>consul/registry.go\<close>; round robin is
    fair, \<open>Pick\<close> is total and in range, one cache per service under concurrency.
  \<^item> \<open>Http\<close>: the parts of \<open>net/http\<close> and of JSON the server packages use: header maps, the calls a handler
    makes on its response writer, and what the client is sent for them.
  \<^item> \<open>Recorder\<close>: \<open>httptest.ResponseRecorder\<close>, and where it differs from the writer of \<open>net/http\<close>.
  \<^item> \<open>Redis\<close>, \<open>Idempotency\<close>: \<open>redis/redis.go\<close>, \<open>server/idempotency.go\<close>; at most one execution per key under every
    interleaving while the key has not expired, and what the client of a first request receives is what the handler sent.
  \<^item> \<open>Server\<close>: \<open>server/server.go\<close>, \<open>middleware.go\<close>, \<open>errorinterceptor.go\<close>; the router is built in chi's order, and
    no request to a started server ends in a panic.
  \<^item> \<open>Idempotent_Server\<close>: server, idempotency middleware and Redis together; a repeated request gets the first response.
  \<^item> \<open>Health_Rpc\<close>: the generated ConnectRPC health service, \<open>gen/platform/v1/platformv1connect\<close>; its client and handler
    meet at one path, and the error interceptor hides the codes of connect errors.
  \<^item> \<open>Postgres\<close>: \<open>postgres/postgres.go\<close>, \<open>tx.go\<close>, \<open>migrate.go\<close>, \<open>tracer.go\<close>; \<open>WithTx\<close> refines \<open>tx_protocol\<close>.
  \<^item> \<open>Dsn_Mask\<close>: \<open>maskDSNPassword\<close> of \<open>postgres.go\<close> with the parts of \<open>net/url\<close> it uses; the logged form of a connection URI is
    that of the URI without password, with stars. A keyword/value string is not masked.
  \<^item> \<open>Config\<close>: \<open>config/loader.go\<close>; precedence of sources, roll-back of a failed reload.
  \<^item> \<open>S3\<close>: \<open>s3/s3.go\<close>, \<open>errors.go\<close>; a started client is a map of keys to contents over a service whose calls may fail;
    what failed is not mistaken for a missing key.
  \<^item> \<open>Logging\<close>: \<open>platform/logger.go\<close> and the handlers of \<open>observe\<close> (trace ids, fan-out, swap); exchanging
    one root handler is the same as rebuilding every derived logger.
  \<^item> \<open>Observe\<close>: \<open>observe/observer.go\<close>, \<open>middleware.go\<close>, \<open>connectinterceptor.go\<close>; a started observer's loggers
    reach both the base handler and the exporter.
  \<^item> \<open>Resources\<close>: each connection component on libraries that record what they open and close, an interpretation of
    \<open>audited\<close> each.
  \<^item> \<open>Service\<close>: composition. The locale \<open>managed_components\<close> is what \<open>App.Run\<close> needs of its components, the locale
    \<open>preserving\<close> what it keeps of an invariant of theirs; both are interpreted on a service with one of each component,
    by the contracts of \<open>Lifecycle\<close> and \<open>Resources\<close>. When \<open>Run\<close> returns, nothing is left running, and every
    connection opened has been closed, once.
  \<^item> \<open>Paths\<close>: the parts of \<open>path/filepath\<close> and of \<open>strings\<close> the tool uses, with \<open>filepath.Walk\<close>.
  \<^item> \<open>Scaffold\<close>: \<open>internal/scaffold/scaffold.go\<close>; names become exported Go identifiers, \<open>Render\<close> writes exactly
    the files the table \<open>template_layout\<close> (the templates in the repository, their flags and paths) lists for the
    chosen components.
  \<^item> \<open>Cli\<close>: \<open>cmd/goplatform/init.go\<close>, \<open>migrate.go\<close>; \<open>init\<close> creates the project, migrations leak no connection.
  \<^item> \<open>Hot_Reload\<close>: \<open>cmd/goplatform/run.go\<close>; at most one child process, none when \<open>runDev\<close> returns; bursts of
    events restart once; which directories are watched.
  \<^item> \<open>Commands\<close>: the command tree and entry point, \<open>cmd/goplatform/root.go\<close> and \<open>main.go\<close>, on the commands of the
    two theories above.
  \<^item> \<open>OrderService\<close>: \<open>examples/orderservice/main.go\<close>; loader, server and \<open>App.Run\<close> together refine a
    specification of the whole program.
  \<^item> \<open>PlatformTest\<close>: \<open>platformtest\<close>; a test database is isolated and, though PostgreSQL refuses to drop a database with
    sessions, dropped again.

  \<^bold>\<open>Loops and bounds.\<close> Loops over slices are structural recursions. \<open>consumeLoop\<close> is a partial function:
  not returning is \<open>None\<close>, and the theorem about it shows that it returns. \<open>Run\<close> waits for its
  context: \<open>await_done\<close> is \<open>None\<close> for a wait that never ends, and \<open>Run\<close> then is \<open>None\<close>; callbacks always return. The Consul watch
  takes the number of rounds to run as an argument, the configuration watch the list of events it
  receives, the hot-reload loop the list of its events, the subscribers' goroutines the list of their
  steps; their theorems hold for all of these. \<open>Walk\<close>
  recurses over a finite file tree, \<open>ReplaceAll\<close> with the length of the string as measure.

  \<^bold>\<open>Not modelled.\<close> Generated protobuf messages and mocks; \<open>connect\<close> itself, which is a parameter; how cobra parses a command line; the text of the templates,
  which \<open>text/template\<close> interprets; how \<open>net/url\<close> reads hosts, paths and fragments; the goroutine-leak check of
  \<open>NewTestApp\<close>, which is goleak's. Timing is not modelled: a pause is a call that says whether it was cut
  short, and a timer's expiry is an event. Interleavings are modelled where named above; other methods that do
  not share a lock are modelled one call at a time.
\<close>

section \<open>Components under the orchestrator\<close>


end
